(* ===== verification/Prelude.thy ===== *)
theory Prelude
  imports Main "HOL-Library.Sublist"
begin

text \<open>
  What every component shares: the type of Go strings (byte sequences, one \<^typ>\<open>char\<close> per
  byte), the result type of fallible Go calls, 64-bit wrap-around, and a transition-system locale
  from which each stateful component takes its reachability induction.
\<close>

section \<open>Types\<close>

type_synonym gostring = string
type_synonym ('e, 'a) result = "'e + 'a"

section \<open>Collections of simplification rules\<close>

named_theorems model_defs \<open>definitions a handler's proof unfolds\<close>
named_theorems io_simps \<open>how the state-passing combinators act on the fields of the state\<close>

section \<open>Bytes of a string\<close>

definition byte :: "char \<Rightarrow> nat" where
  "byte c = of_char c"

definition chr_of :: "nat \<Rightarrow> char" where
  "chr_of n = char_of n"

lemma byte_less [simp]: "byte c < 256"
  by (simp add: byte_def)

lemma byte_chr_of [simp]: "byte (chr_of n) = n mod 256"
  by (simp add: byte_def chr_of_def)

lemma chr_of_byte [simp]: "chr_of (byte c) = c"
  by (simp add: byte_def chr_of_def)

lemma byte_inject [simp]: "byte c = byte d \<longleftrightarrow> c = d"
  by (metis chr_of_byte)

section \<open>Signed 64-bit arithmetic\<close>

definition int64_min :: int where
  "int64_min = - (2 ^ 63)"

definition int64_max :: int where
  "int64_max = 2 ^ 63 - 1"

definition in_int64 :: "int \<Rightarrow> bool" where
  "in_int64 n \<longleftrightarrow> int64_min \<le> n \<and> n \<le> int64_max"

definition wrap64 :: "int \<Rightarrow> int" where
  "wrap64 n = (n + 2 ^ 63) mod 2 ^ 64 - 2 ^ 63"

lemma wrap64_id: "in_int64 n \<Longrightarrow> wrap64 n = n"
  by (simp add: in_int64_def int64_min_def int64_max_def wrap64_def)

lemma in_int64_wrap64 [simp]: "in_int64 (wrap64 n)"
proof -
  have "0 \<le> (n + 2 ^ 63) mod 2 ^ 64" and "(n + 2 ^ 63) mod 2 ^ 64 < (2 ^ 64 :: int)"
    by simp_all
  then show ?thesis
    unfolding in_int64_def int64_min_def int64_max_def wrap64_def by simp
qed

section \<open>Lists and options\<close>

lemma butlast_snoc_eq: "xs \<noteq> [] \<Longrightarrow> last xs = x \<Longrightarrow> butlast xs @ [x] = xs"
  by (metis append_butlast_last_id)

lemma case_option_eq_Some:
  "(case x of None \<Rightarrow> None | Some y \<Rightarrow> f y) = Some z \<longleftrightarrow> (\<exists>y. x = Some y \<and> f y = Some z)"
  by (cases x) auto

lemma takeWhile_append_stop:
  "\<forall>x\<in>set xs. P x \<Longrightarrow> \<not> P y \<Longrightarrow> takeWhile P (xs @ y # ys) = xs"
  by (induction xs) auto

lemma dropWhile_append_stop:
  "\<forall>x\<in>set xs. P x \<Longrightarrow> \<not> P y \<Longrightarrow> dropWhile P (xs @ y # ys) = y # ys"
  by (induction xs) auto

section \<open>Transition systems\<close>

text \<open>
  The client lemma of every stateful component: a property that holds initially and that each step
  keeps holds after every run. A component supplies its step function and its invariant.
\<close>

fun run_steps :: "('s \<Rightarrow> 'e \<Rightarrow> 's) \<Rightarrow> 's \<Rightarrow> 'e list \<Rightarrow> 's" where
  "run_steps f s [] = s"
| "run_steps f s (e # es) = run_steps f (f s e) es"

lemma run_steps_append: "run_steps f s (xs @ ys) = run_steps f (run_steps f s xs) ys"
  by (induction xs arbitrary: s) auto

locale step_invariant =
  fixes step :: "'s \<Rightarrow> 'e \<Rightarrow> 's"
    and inv :: "'s \<Rightarrow> bool"
    and ok :: "'e \<Rightarrow> bool"
  assumes step_inv: "inv s \<Longrightarrow> ok e \<Longrightarrow> inv (step s e)"
begin

lemma run_inv: "inv s \<Longrightarrow> \<forall>e\<in>set es. ok e \<Longrightarrow> inv (run_steps step s es)"
  by (induction es arbitrary: s) (auto intro: step_inv)

lemma run_inv_prefix:
  assumes "inv s" and "\<forall>e\<in>set (xs @ ys). ok e"
  shows "inv (run_steps step s xs)"
  using assms by (intro run_inv) auto

end

end
