(* ===== verification/Go_Strings.thy ===== *)
theory Go_Strings
  imports Prelude
begin

text \<open>
  The functions of Go's \<^verbatim>\<open>strings\<close> package the service calls, on byte strings.
  \<open>trim_space\<close> removes every Unicode white-space character in its UTF-8 encoding, as
  \<^verbatim>\<open>strings.TrimSpace\<close> does. \<open>to_lower\<close> lowers the ASCII letters and the two
  non-ASCII characters whose lower case is ASCII (U+0130 and U+212A); other multi-byte characters
  are kept, since their lower case is not ASCII either and the service only compares the result
  with ASCII constants.
\<close>

section \<open>Prefixes and suffixes\<close>

definition has_prefix :: "gostring \<Rightarrow> gostring \<Rightarrow> bool" where
  "has_prefix s p \<longleftrightarrow> take (length p) s = p"

definition has_suffix :: "gostring \<Rightarrow> gostring \<Rightarrow> bool" where
  "has_suffix s p \<longleftrightarrow> length p \<le> length s \<and> drop (length s - length p) s = p"

definition trim_prefix :: "gostring \<Rightarrow> gostring \<Rightarrow> gostring" where
  "trim_prefix s p = (if has_prefix s p then drop (length p) s else s)"

definition trim_suffix :: "gostring \<Rightarrow> gostring \<Rightarrow> gostring" where
  "trim_suffix s p = (if has_suffix s p then take (length s - length p) s else s)"

lemma has_prefix_iff: "has_prefix s p \<longleftrightarrow> (\<exists>t. s = p @ t)"
  by (metis append_eq_conv_conj append_take_drop_id has_prefix_def)

lemma has_prefix_append [simp]: "has_prefix (p @ t) p"
  by (simp add: has_prefix_def)

lemma has_prefix_Nil [simp]: "has_prefix s []"
  by (simp add: has_prefix_def)

lemma has_prefix_Cons [simp]:
  "has_prefix (x # xs) (y # ys) \<longleftrightarrow> x = y \<and> has_prefix xs ys"
  by (auto simp: has_prefix_def)

lemma has_prefix_NilL [simp]: "has_prefix [] (y # ys) \<longleftrightarrow> False"
  by (simp add: has_prefix_def)

lemma has_suffix_iff: "has_suffix s p \<longleftrightarrow> (\<exists>t. s = t @ p)"
proof
  assume "has_suffix s p"
  then have "s = take (length s - length p) s @ p"
    by (metis append_take_drop_id has_suffix_def)
  then show "\<exists>t. s = t @ p" ..
next
  assume "\<exists>t. s = t @ p"
  then show "has_suffix s p" by (auto simp: has_suffix_def)
qed

lemma has_suffix_append [simp]: "has_suffix (t @ p) p"
  by (auto simp: has_suffix_iff)

lemma trim_prefix_append [simp]: "trim_prefix (p @ t) p = t"
  by (simp add: trim_prefix_def)

lemma trim_suffix_append [simp]: "trim_suffix (t @ p) p = t"
  by (simp add: trim_suffix_def)

lemma trim_prefix_id [simp]: "\<not> has_prefix s p \<Longrightarrow> trim_prefix s p = s"
  by (simp add: trim_prefix_def)

section \<open>TrimSpace\<close>

definition go_spaces :: "gostring list" where
  "go_spaces =
     map (\<lambda>n. [chr_of n]) [9, 10, 11, 12, 13, 32]
     @ map (map chr_of) [[194, 133], [194, 160], [225, 154, 128]]
     @ map (\<lambda>n. map chr_of [226, 128, n]) [128, 129, 130, 131, 132, 133, 134, 135, 136, 137, 138]
     @ map (map chr_of) [[226, 128, 168], [226, 128, 169], [226, 128, 175], [226, 129, 159],
                         [227, 128, 128]]"

text \<open>The same list as literals, for evaluation.\<close>

lemma go_spaces_literals [code]:
  "go_spaces =
    [[CHR 0x09], [CHR 0x0A], [CHR 0x0B], [CHR 0x0C], [CHR 0x0D], [CHR 0x20],
     [CHR 0xC2, CHR 0x85], [CHR 0xC2, CHR 0xA0], [CHR 0xE1, CHR 0x9A, CHR 0x80],
     [CHR 0xE2, CHR 0x80, CHR 0x80], [CHR 0xE2, CHR 0x80, CHR 0x81],
     [CHR 0xE2, CHR 0x80, CHR 0x82], [CHR 0xE2, CHR 0x80, CHR 0x83],
     [CHR 0xE2, CHR 0x80, CHR 0x84], [CHR 0xE2, CHR 0x80, CHR 0x85],
     [CHR 0xE2, CHR 0x80, CHR 0x86], [CHR 0xE2, CHR 0x80, CHR 0x87],
     [CHR 0xE2, CHR 0x80, CHR 0x88], [CHR 0xE2, CHR 0x80, CHR 0x89],
     [CHR 0xE2, CHR 0x80, CHR 0x8A], [CHR 0xE2, CHR 0x80, CHR 0xA8],
     [CHR 0xE2, CHR 0x80, CHR 0xA9], [CHR 0xE2, CHR 0x80, CHR 0xAF],
     [CHR 0xE2, CHR 0x81, CHR 0x9F], [CHR 0xE3, CHR 0x80, CHR 0x80]]"
  by (simp add: go_spaces_def chr_of_def char_of_def bit_Suc_0_iff)

lemma go_spaces_nonempty: "p \<in> set go_spaces \<Longrightarrow> p \<noteq> []"
  by (auto simp: go_spaces_def)

definition space_prefix :: "gostring list \<Rightarrow> gostring \<Rightarrow> gostring option" where
  "space_prefix sps s = find (has_prefix s) sps"

lemma space_prefix_Some:
  "space_prefix sps s = Some p \<Longrightarrow> p \<in> set sps \<and> has_prefix s p"
  unfolding space_prefix_def by (auto simp: find_Some_iff)

function trim_left_with :: "gostring list \<Rightarrow> gostring \<Rightarrow> gostring" where
  "trim_left_with sps s =
     (case space_prefix sps s of
        None \<Rightarrow> s
      | Some p \<Rightarrow> if p = [] \<or> s = [] then s else trim_left_with sps (drop (length p) s))"
  by pat_completeness auto
termination
  by (relation "measure (\<lambda>(sps, s). length s)") auto

declare trim_left_with.simps [simp del]

definition trim_left :: "gostring \<Rightarrow> gostring" where
  "trim_left s = trim_left_with go_spaces s"

definition trim_right :: "gostring \<Rightarrow> gostring" where
  "trim_right s = rev (trim_left_with (map rev go_spaces) (rev s))"

definition trim_space :: "gostring \<Rightarrow> gostring" where
  "trim_space s = trim_right (trim_left s)"

lemma trim_left_with_idem:
  "[] \<notin> set sps \<Longrightarrow> trim_left_with sps (trim_left_with sps s) = trim_left_with sps s"
proof (induction sps s rule: trim_left_with.induct)
  case (1 sps s)
  show ?case
  proof (cases "space_prefix sps s")
    case None
    then show ?thesis by (simp add: trim_left_with.simps [of sps s])
  next
    case (Some p)
    with "1.prems" have p: "p \<noteq> []" by (metis space_prefix_Some)
    show ?thesis
    proof (cases "s = []")
      case True
      with Some p show ?thesis
        by (metis has_prefix_NilL neq_Nil_conv space_prefix_Some)
    next
      case False
      with Some p "1.IH" [OF Some] "1.prems" show ?thesis
        by (simp add: trim_left_with.simps [of sps s])
    qed
  qed
qed

lemma trim_left_with_noop: "space_prefix sps s = None \<Longrightarrow> trim_left_with sps s = s"
  by (simp add: trim_left_with.simps [of sps s])

lemma trim_left_with_suffix: "\<exists>t. s = t @ trim_left_with sps s"
proof (induction sps s rule: trim_left_with.induct)
  case (1 sps s)
  show ?case
  proof (cases "space_prefix sps s")
    case None
    then show ?thesis by (simp add: trim_left_with.simps [of sps s])
  next
    case (Some p)
    show ?thesis
    proof (cases "p = [] \<or> s = []")
      case True
      with Some show ?thesis by (auto simp: trim_left_with.simps [of sps s])
    next
      case False
      with "1.IH" [OF Some] obtain t where
        "drop (length p) s = t @ trim_left_with sps (drop (length p) s)"
        by blast
      with Some False have "s = (take (length p) s @ t) @ trim_left_with sps s"
        by (subst append_take_drop_id [of "length p" s, symmetric],
            simp add: trim_left_with.simps [of sps s])
      then show ?thesis by blast
    qed
  qed
qed

lemma set_trim_space: "set (trim_space s) \<subseteq> set s"
proof -
  have l: "set (trim_left_with sps t) \<subseteq> set t" for sps t
  proof -
    obtain u where "t = u @ trim_left_with sps t" using trim_left_with_suffix by blast
    then show ?thesis by (metis Un_upper2 set_append)
  qed
  show ?thesis
    unfolding trim_space_def trim_right_def trim_left_def
    using l [of "map rev go_spaces" "rev (trim_left_with go_spaces s)"] l [of go_spaces s] by auto
qed

lemma trim_space_Nil [simp]: "trim_space [] = []"
  using set_trim_space [of "[]"] by simp

section \<open>Case\<close>

definition lower_char :: "char \<Rightarrow> char" where
  "lower_char c = (if 65 \<le> byte c \<and> byte c \<le> 90 then chr_of (byte c + 32) else c)"

text \<open>The same on the bits of a byte, for evaluation.\<close>

lemma lower_char_bits [code]:
  "lower_char (Char b0 b1 b2 b3 b4 b5 b6 b7) =
    (if \<not> b7 \<and> b6 \<and> \<not> b5 \<and> (b0 \<or> b1 \<or> b2 \<or> b3 \<or> b4) \<and> \<not> (b4 \<and> b3 \<and> (b2 \<or> b1 \<and> b0))
     then Char b0 b1 b2 b3 b4 True b6 b7 else Char b0 b1 b2 b3 b4 b5 b6 b7)"
  by (cases b0; cases b1; cases b2; cases b3; cases b4; cases b5; cases b6; cases b7;
      simp add: lower_char_def byte_def chr_of_def char_of_def bit_Suc_0_iff)

fun to_lower :: "gostring \<Rightarrow> gostring" where
  "to_lower [] = []"
| "to_lower (c # cs) =
     (if has_prefix (c # cs) (map chr_of [196, 176]) then CHR ''i'' # to_lower (drop 1 cs)
      else if has_prefix (c # cs) (map chr_of [226, 132, 170]) then CHR ''k'' # to_lower (drop 2 cs)
      else lower_char c # to_lower cs)"

lemma to_lower_literals [code]:
  "to_lower [] = []"
  "to_lower (c # cs) =
     (if has_prefix (c # cs) [CHR 0xC4, CHR 0xB0] then CHR ''i'' # to_lower (drop 1 cs)
      else if has_prefix (c # cs) [CHR 0xE2, CHR 0x84, CHR 0xAA] then CHR ''k'' # to_lower (drop 2 cs)
      else lower_char c # to_lower cs)"
  by (simp_all add: chr_of_def char_of_def bit_Suc_0_iff)

definition equal_fold_ascii :: "gostring \<Rightarrow> gostring \<Rightarrow> bool" where
  "equal_fold_ascii s t \<longleftrightarrow> map lower_char s = map lower_char t"

section \<open>Splitting, joining, searching\<close>

fun split_on :: "char \<Rightarrow> gostring \<Rightarrow> gostring list" where
  "split_on d [] = [[]]"
| "split_on d (c # cs) =
     (if c = d then [] # split_on d cs
      else (case split_on d cs of [] \<Rightarrow> [[c]] | w # ws \<Rightarrow> (c # w) # ws))"

fun join_with :: "gostring \<Rightarrow> gostring list \<Rightarrow> gostring" where
  "join_with d [] = []"
| "join_with d [w] = w"
| "join_with d (w # v # vs) = w @ d @ join_with d (v # vs)"

lemma split_on_nonempty [simp]: "split_on d s \<noteq> []"
  by (induction s) (auto split: list.splits)

lemma split_on_no_sep: "d \<notin> set w \<Longrightarrow> split_on d w = [w]"
  by (induction w) auto

lemma split_on_append: "d \<notin> set w \<Longrightarrow> split_on d (w @ d # s) = w # split_on d s"
  by (induction w) auto

lemma split_join:
  "ws \<noteq> [] \<Longrightarrow> \<forall>w\<in>set ws. d \<notin> set w \<Longrightarrow> split_on d (join_with [d] ws) = ws"
  by (induction "[d]" ws rule: join_with.induct) (auto simp: split_on_no_sep split_on_append)

text \<open>\<^verbatim>\<open>strings.LastIndexByte\<close> with the two slices taken at it: the text before the
  last separator and the text after it.\<close>

definition cut_last :: "char \<Rightarrow> gostring \<Rightarrow> (gostring \<times> gostring) option" where
  "cut_last d s =
     (if d \<in> set s
      then Some (rev (tl (dropWhile (\<lambda>c. c \<noteq> d) (rev s))), rev (takeWhile (\<lambda>c. c \<noteq> d) (rev s)))
      else None)"

lemma cut_last_append: "d \<notin> set t \<Longrightarrow> cut_last d (s @ d # t) = Some (s, t)"
proof -
  assume "d \<notin> set t"
  then have "\<forall>c\<in>set (rev t). c \<noteq> d" by auto
  then have "dropWhile (\<lambda>c. c \<noteq> d) (rev t @ d # rev s) = d # rev s"
    and "takeWhile (\<lambda>c. c \<noteq> d) (rev t @ d # rev s) = rev t"
    by (simp_all add: dropWhile_append_stop takeWhile_append_stop)
  then show ?thesis by (simp add: cut_last_def)
qed

lemma cut_last_Some: "cut_last d s = Some (a, b) \<longleftrightarrow> s = a @ d # b \<and> d \<notin> set b"
proof
  assume h: "cut_last d s = Some (a, b)"
  then have d: "d \<in> set s" by (auto simp: cut_last_def split: if_splits)
  then obtain a' b' where s: "s = a' @ d # b'" and "d \<notin> set b'"
    by (metis split_list_last)
  with h show "s = a @ d # b \<and> d \<notin> set b" by (simp add: cut_last_append)
qed (auto simp: cut_last_append)

definition contains :: "gostring \<Rightarrow> gostring \<Rightarrow> bool" where
  "contains s t \<longleftrightarrow> sublist t s"

end
