(* ===== verification/Codecs.thy ===== *)
theory Codecs
  imports Go_Strings
begin

text \<open>
  The text encodings the service takes from Go's standard library: \<^verbatim>\<open>encoding/hex\<close> and the
  three \<^verbatim>\<open>encoding/base64\<close> alphabets and paddings it uses (standard and URL-safe with padding,
  URL-safe without). Decoding follows Go: carriage returns and line feeds are skipped, padding is
  required exactly when the encoding pads, unused trailing bits are ignored. The locale
  \<open>codec\<close> states what each pair promises its callers.
\<close>

section \<open>The contract of an encoding\<close>

locale codec =
  fixes enc :: "gostring \<Rightarrow> gostring"
    and dec :: "gostring \<Rightarrow> gostring option"
    and alph :: "char set"
  assumes dec_enc: "dec (enc s) = Some s"
    and enc_alphabet: "set (enc s) \<subseteq> alph"
begin

lemma enc_inj: "enc s = enc t \<longleftrightarrow> s = t"
  by (metis dec_enc option.inject)

lemma enc_avoids: "c \<notin> alph \<Longrightarrow> c \<notin> set (enc s)"
  using enc_alphabet by blast

end

section \<open>Hexadecimal\<close>

definition hex_digits :: gostring where
  "hex_digits = ''0123456789abcdef''"

fun hex_encode :: "gostring \<Rightarrow> gostring" where
  "hex_encode [] = []"
| "hex_encode (c # cs) =
     hex_digits ! (byte c div 16) # hex_digits ! (byte c mod 16) # hex_encode cs"

definition hex_val :: "char \<Rightarrow> nat option" where
  "hex_val c =
     (let n = byte c in
      if 48 \<le> n \<and> n \<le> 57 then Some (n - 48)
      else if 97 \<le> n \<and> n \<le> 102 then Some (n - 87)
      else if 65 \<le> n \<and> n \<le> 70 then Some (n - 55)
      else None)"

fun hex_decode :: "gostring \<Rightarrow> gostring option" where
  "hex_decode [] = Some []"
| "hex_decode [c] = None"
| "hex_decode (c # d # cs) =
     (case (hex_val c, hex_val d, hex_decode cs) of
        (Some x, Some y, Some r) \<Rightarrow> Some (chr_of (16 * x + y) # r)
      | _ \<Rightarrow> None)"

lemma hex_digit_val: "n < 16 \<Longrightarrow> hex_val (hex_digits ! n) = Some n"
proof -
  have "\<forall>n\<in>set [0..<16]. hex_val (hex_digits ! n) = Some n" by code_simp
  then show "n < 16 \<Longrightarrow> hex_val (hex_digits ! n) = Some n" by simp
qed

lemma hex_digit_mem: "n < 16 \<Longrightarrow> hex_digits ! n \<in> set hex_digits"
  by (rule nth_mem) (simp add: hex_digits_def)

lemma byte_nibbles [simp]: "byte c div 16 < 16" "16 * (byte c div 16) + byte c mod 16 = byte c"
  using byte_less [of c] by (simp_all add: less_mult_imp_div_less)

lemma hex_decode_encode: "hex_decode (hex_encode s) = Some s"
  by (induction s) (simp_all add: hex_digit_val)

lemma hex_encode_set: "set (hex_encode s) \<subseteq> set hex_digits"
  by (induction s) (simp_all add: hex_digit_mem)

lemma length_hex_encode [simp]: "length (hex_encode s) = 2 * length s"
  by (induction s) simp_all

interpretation hex: codec hex_encode hex_decode "set hex_digits"
  by unfold_locales (rule hex_decode_encode, rule hex_encode_set)

section \<open>Base64\<close>

definition b64_std :: gostring where
  "b64_std = ''ABCDEFGHIJKLMNOPQRSTUVWXYZabcdefghijklmnopqrstuvwxyz0123456789+/''"

definition b64_url :: gostring where
  "b64_url = ''ABCDEFGHIJKLMNOPQRSTUVWXYZabcdefghijklmnopqrstuvwxyz0123456789-_''"

definition b64_index :: "gostring \<Rightarrow> char \<Rightarrow> nat option" where
  "b64_index al c = (let n = length (takeWhile (\<lambda>x. x \<noteq> c) al) in if n < length al then Some n else None)"

fun b64_enc :: "gostring \<Rightarrow> bool \<Rightarrow> gostring \<Rightarrow> gostring" where
  "b64_enc al pad [] = []"
| "b64_enc al pad [a] =
     (let n = byte a * 65536 in
      [al ! (n div 262144), al ! (n div 4096 mod 64)] @ (if pad then ''=='' else []))"
| "b64_enc al pad [a, b] =
     (let n = byte a * 65536 + byte b * 256 in
      [al ! (n div 262144), al ! (n div 4096 mod 64), al ! (n div 64 mod 64)]
      @ (if pad then ''='' else []))"
| "b64_enc al pad (a # b # c # cs) =
     (let n = byte a * 65536 + byte b * 256 + byte c in
      [al ! (n div 262144), al ! (n div 4096 mod 64), al ! (n div 64 mod 64), al ! (n mod 64)]
      @ b64_enc al pad cs)"

fun b64_dec_raw :: "gostring \<Rightarrow> bool \<Rightarrow> gostring \<Rightarrow> gostring option" where
  "b64_dec_raw al pad [] = Some []"
| "b64_dec_raw al pad [p] = None"
| "b64_dec_raw al pad [p, q] =
     (if pad then None else
      (case (b64_index al p, b64_index al q) of
         (Some i, Some j) \<Rightarrow> Some [chr_of ((i * 64 + j) div 16)]
       | _ \<Rightarrow> None))"
| "b64_dec_raw al pad [p, q, r] =
     (if pad then None else
      (case (b64_index al p, b64_index al q, b64_index al r) of
         (Some i, Some j, Some k) \<Rightarrow>
           (let n = (i * 64 + j) * 64 + k in Some [chr_of (n div 1024), chr_of (n div 4 mod 256)])
       | _ \<Rightarrow> None))"
| "b64_dec_raw al pad (p # q # r # s # cs) =
     (case (b64_index al p, b64_index al q) of
        (Some i, Some j) \<Rightarrow>
          (if pad \<and> r = CHR ''='' then
             (if s = CHR ''='' \<and> cs = [] then Some [chr_of ((i * 64 + j) div 16)] else None)
           else (case b64_index al r of
               None \<Rightarrow> None
             | Some k \<Rightarrow>
                 if pad \<and> s = CHR ''='' then
                   (if cs = []
                    then (let n = (i * 64 + j) * 64 + k
                          in Some [chr_of (n div 1024), chr_of (n div 4 mod 256)])
                    else None)
                 else (case (b64_index al s, b64_dec_raw al pad cs) of
                     (Some l, Some rest) \<Rightarrow>
                       (let n = ((i * 64 + j) * 64 + k) * 64 + l
                        in Some (chr_of (n div 65536) # chr_of (n div 256 mod 256)
                                 # chr_of (n mod 256) # rest))
                   | _ \<Rightarrow> None)))
      | _ \<Rightarrow> None)"

definition b64_dec :: "gostring \<Rightarrow> bool \<Rightarrow> gostring \<Rightarrow> gostring option" where
  "b64_dec al pad s = b64_dec_raw al pad (filter (\<lambda>c. byte c \<noteq> 10 \<and> byte c \<noteq> 13) s)"

definition b64_alphabet :: "gostring \<Rightarrow> bool" where
  "b64_alphabet al \<longleftrightarrow> length al = 64 \<and> (\<forall>n\<in>set [0..<64]. b64_index al (al ! n) = Some n)
     \<and> CHR ''='' \<notin> set al \<and> (\<forall>c\<in>set al. byte c \<noteq> 10 \<and> byte c \<noteq> 13)"

lemma b64_alphabet_std: "b64_alphabet b64_std"
  by code_simp

lemma b64_alphabet_url: "b64_alphabet b64_url"
  by code_simp

lemma b64_index_nth: "b64_alphabet al \<Longrightarrow> n < 64 \<Longrightarrow> b64_index al (al ! n) = Some n"
  by (simp add: b64_alphabet_def)

lemma b64_nth_pad: "b64_alphabet al \<Longrightarrow> n < 64 \<Longrightarrow> al ! n \<noteq> CHR ''=''"
  by (metis b64_alphabet_def nth_mem)

lemma b64_nth_mem: "b64_alphabet al \<Longrightarrow> n < 64 \<Longrightarrow> al ! n \<in> set al"
  by (simp add: b64_alphabet_def)

lemma sextets:
  fixes n :: nat
  shows "(n div 262144 * 64 + n div 4096 mod 64) * 64 + n div 64 mod 64 = n div 64"
    and "((n div 262144 * 64 + n div 4096 mod 64) * 64 + n div 64 mod 64) * 64 + n mod 64 = n"
proof -
  have "n div 4096 = n div 64 div 64" and "n div 262144 = n div 64 div 64 div 64"
    by (simp_all add: div_mult2_eq [symmetric])
  then show "(n div 262144 * 64 + n div 4096 mod 64) * 64 + n div 64 mod 64 = n div 64"
    by (simp only: div_mult_mod_eq)
  then show "((n div 262144 * 64 + n div 4096 mod 64) * 64 + n div 64 mod 64) * 64 + n mod 64 = n"
    by (simp only: div_mult_mod_eq)
qed

lemma octets:
  assumes "x < 256" "y < 256" "z < (256::nat)"
  shows "(x * 65536 + y * 256 + z) div 262144 < 64"
    and "(x * 65536 + y * 256 + z) div 65536 = x"
    and "(x * 65536 + y * 256 + z) div 256 mod 256 = y"
    and "(x * 65536 + y * 256 + z) mod 256 = z"
proof -
  have n: "x * 65536 + y * 256 + z = (x * 256 + y) * 256 + z" by simp
  have d: "(x * 65536 + y * 256 + z) div 256 = x * 256 + y"
    unfolding n using assms(3) by (subst div_mult_self3) simp_all
  show "(x * 65536 + y * 256 + z) mod 256 = z"
    unfolding n using assms(3) by (subst mod_mult_self3) simp_all
  show "(x * 65536 + y * 256 + z) div 256 mod 256 = y"
    unfolding d using assms(2) by (subst mod_mult_self3) simp_all
  have "(x * 65536 + y * 256 + z) div 65536 = (x * 65536 + y * 256 + z) div 256 div 256"
    by (simp add: div_mult2_eq [symmetric])
  also have "\<dots> = x" unfolding d using assms(2) by (subst div_mult_self3) simp_all
  finally show "(x * 65536 + y * 256 + z) div 65536 = x" .
  show "(x * 65536 + y * 256 + z) div 262144 < 64"
    using assms by (simp add: less_mult_imp_div_less)
qed

lemma b64_group3:
  assumes "x < 256" "y < 256" "z < (256::nat)"
  defines "n \<equiv> x * 65536 + y * 256 + z"
  shows "n div 262144 < 64"
    and "((n div 262144 * 64 + n div 4096 mod 64) * 64 + n div 64 mod 64) * 64 + n mod 64 = n"
    and "n div 65536 = x" and "n div 256 mod 256 = y" and "n mod 256 = z"
  using octets [OF assms(1-3)] sextets(2) [of n] by (simp_all only: n_def)

lemma b64_group2:
  assumes "x < 256" "y < (256::nat)"
  defines "n \<equiv> x * 65536 + y * 256"
  shows "n div 262144 < 64"
    and "((n div 262144 * 64 + n div 4096 mod 64) * 64 + n div 64 mod 64) div 1024 = x"
    and "((n div 262144 * 64 + n div 4096 mod 64) * 64 + n div 64 mod 64) div 4 mod 256 = y"
proof -
  have o: "n div 262144 < 64" "n div 65536 = x" "n div 256 mod 256 = y"
    using octets [OF assms(1,2), of 0] by (simp_all add: n_def)
  show "n div 262144 < 64" by (rule o(1))
  have "n div 64 div 1024 = x" using o(2) by (simp add: div_mult2_eq [symmetric])
  then show "((n div 262144 * 64 + n div 4096 mod 64) * 64 + n div 64 mod 64) div 1024 = x"
    by (simp only: sextets)
  have "n div 64 div 4 mod 256 = y" using o(3) by (simp add: div_mult2_eq [symmetric])
  then show "((n div 262144 * 64 + n div 4096 mod 64) * 64 + n div 64 mod 64) div 4 mod 256 = y"
    by (simp only: sextets)
qed

lemma b64_group1:
  assumes "x < (256::nat)"
  shows "x * 65536 div 262144 < 64"
    and "(x * 65536 div 262144 * 64 + x * 65536 div 4096 mod 64) div 16 = x"
proof -
  have q: "x * 65536 div 262144 = x div 4" by simp
  have "16 * x mod (16 * 4) = 16 * (x mod 4)" by (rule mult_mod_right [symmetric])
  then have r: "x * 65536 div 4096 mod 64 = 16 * (x mod 4)" by simp
  show "x * 65536 div 262144 < 64" unfolding q using assms by simp
  have "x div 4 * 64 + 16 * (x mod 4) = 16 * (x div 4 * 4 + x mod 4)"
    by (simp only: distrib_left)
  also have "\<dots> = 16 * x" by (simp only: div_mult_mod_eq)
  finally show "(x * 65536 div 262144 * 64 + x * 65536 div 4096 mod 64) div 16 = x"
    unfolding q r by simp
qed

text \<open>One group at a time, over an abstract 24-bit value \<open>n\<close>, so that the simplifier does
  no arithmetic on the digits.\<close>

lemma b64_dec_step:
  assumes "b64_alphabet al" and "i < 64" "j < 64" "k < 64" "l < 64"
  shows "b64_dec_raw al pad (al ! i # al ! j # al ! k # al ! l # cs) =
    (case b64_dec_raw al pad cs of
       None \<Rightarrow> None
     | Some rest \<Rightarrow>
         Some (chr_of ((((i * 64 + j) * 64 + k) * 64 + l) div 65536)
               # chr_of ((((i * 64 + j) * 64 + k) * 64 + l) div 256 mod 256)
               # chr_of ((((i * 64 + j) * 64 + k) * 64 + l) mod 256) # rest))"
  by (cases "b64_dec_raw al pad cs")
    (simp_all only: b64_dec_raw.simps b64_index_nth [OF assms(1)] b64_nth_pad [OF assms(1)]
      assms(2-5) option.case prod.case Let_def simp_thms if_False)

lemma b64_dec_last2:
  assumes "b64_alphabet al" and "i < 64" "j < 64" "k < 64"
  shows "b64_dec_raw al pad (al ! i # al ! j # al ! k # (if pad then ''='' else [])) =
    Some [chr_of (((i * 64 + j) * 64 + k) div 1024), chr_of (((i * 64 + j) * 64 + k) div 4 mod 256)]"
  using assms by (cases pad) (simp_all add: b64_index_nth b64_nth_pad Let_def)

lemma b64_dec_last1:
  assumes "b64_alphabet al" and "i < 64" "j < 64"
  shows "b64_dec_raw al pad (al ! i # al ! j # (if pad then ''=='' else [])) =
    Some [chr_of ((i * 64 + j) div 16)]"
  using assms by (cases pad) (simp_all add: b64_index_nth b64_nth_pad)

lemma b64_dec_raw_enc: "b64_alphabet al \<Longrightarrow> b64_dec_raw al pad (b64_enc al pad s) = Some s"
proof (induction al pad s rule: b64_enc.induct)
  case (2 al pad a)
  show ?case
    unfolding b64_enc.simps Let_def append_Cons append_Nil
    by (subst b64_dec_last1) (use 2 b64_group1 [OF byte_less, of a] in \<open>simp_all only:
      mod_less_divisor zero_less_numeral chr_of_byte\<close>)
next
  case (3 al pad a b)
  note g = b64_group2 [OF byte_less byte_less, of a b]
  show ?case
    unfolding b64_enc.simps Let_def append_Cons append_Nil
    by (subst b64_dec_last2) (use 3 g in \<open>simp_all only:
      mod_less_divisor zero_less_numeral chr_of_byte\<close>)
next
  case (4 al pad a b c cs)
  note g = b64_group3 [OF byte_less byte_less byte_less, of a b c]
  show ?case
    unfolding b64_enc.simps Let_def append_Cons append_Nil
    by (subst b64_dec_step) (use 4 g in \<open>simp_all only:
      mod_less_divisor zero_less_numeral chr_of_byte option.case\<close>)
qed simp

lemma b64_enc_set: "b64_alphabet al \<Longrightarrow> set (b64_enc al pad s) \<subseteq> insert (CHR ''='') (set al)"
proof (induction al pad s rule: b64_enc.induct)
  case (2 al pad a)
  then show ?case
    using b64_group1(1) [OF byte_less, of a]
    by (auto simp: Let_def intro!: b64_nth_mem simp del: mult_numeral_left split: if_splits)
next
  case (3 al pad a b)
  then show ?case
    using b64_group2(1) [OF byte_less byte_less, of a b]
    by (auto simp: Let_def intro!: b64_nth_mem split: if_splits)
next
  case (4 al pad a b c cs)
  then show ?case
    using b64_group3(1) [OF byte_less byte_less byte_less, of a b c]
    by (auto simp: Let_def intro!: b64_nth_mem split: if_splits)
qed simp

lemma b64_enc_no_newline:
  assumes "b64_alphabet al" and "c \<in> set (b64_enc al pad s)"
  shows "byte c \<noteq> 10 \<and> byte c \<noteq> 13"
proof -
  have "byte (CHR ''='') = 61" by code_simp
  moreover from assms have "c = CHR ''='' \<or> c \<in> set al" using b64_enc_set by fastforce
  ultimately show ?thesis using assms(1) by (auto simp: b64_alphabet_def)
qed

lemma b64_dec_enc:
  assumes "b64_alphabet al"
  shows "b64_dec al pad (b64_enc al pad s) = Some s"
proof -
  have "filter (\<lambda>c. byte c \<noteq> 10 \<and> byte c \<noteq> 13) (b64_enc al pad s) = b64_enc al pad s"
    using b64_enc_no_newline [OF assms] by (simp add: filter_id_conv)
  then show ?thesis by (simp add: b64_dec_def b64_dec_raw_enc [OF assms])
qed

definition b64_std_encode :: "gostring \<Rightarrow> gostring" where
  "b64_std_encode s = b64_enc b64_std True s"

definition b64_std_decode :: "gostring \<Rightarrow> gostring option" where
  "b64_std_decode s = b64_dec b64_std True s"

definition b64_url_encode :: "gostring \<Rightarrow> gostring" where
  "b64_url_encode s = b64_enc b64_url True s"

definition b64_url_decode :: "gostring \<Rightarrow> gostring option" where
  "b64_url_decode s = b64_dec b64_url True s"

definition b64_rawurl_encode :: "gostring \<Rightarrow> gostring" where
  "b64_rawurl_encode s = b64_enc b64_url False s"

definition b64_rawurl_decode :: "gostring \<Rightarrow> gostring option" where
  "b64_rawurl_decode s = b64_dec b64_url False s"

interpretation b64std: codec b64_std_encode b64_std_decode "insert (CHR ''='') (set b64_std)"
  unfolding b64_std_encode_def b64_std_decode_def
  by unfold_locales (simp_all add: b64_dec_enc b64_enc_set b64_alphabet_std)

interpretation b64url: codec b64_url_encode b64_url_decode "insert (CHR ''='') (set b64_url)"
  unfolding b64_url_encode_def b64_url_decode_def
  by unfold_locales (simp_all add: b64_dec_enc b64_enc_set b64_alphabet_url)

interpretation b64raw: codec b64_rawurl_encode b64_rawurl_decode "insert (CHR ''='') (set b64_url)"
  unfolding b64_rawurl_encode_def b64_rawurl_decode_def
  by unfold_locales (simp_all add: b64_dec_enc b64_enc_set b64_alphabet_url)

text \<open>An unpadded text of a length that is not a multiple of four never decodes as padded, so
  trying the padded decoder first never misreads it.\<close>

lemma b64_dec_raw_padded_length: "b64_dec_raw al True s = Some t \<Longrightarrow> length s mod 4 = 0"
proof (induction al True s arbitrary: t rule: b64_dec_raw.induct)
  case (5 al p q r s cs)
  then show ?case by (auto split: option.splits if_splits simp: Let_def)
qed auto

end
