(* ===== verification/Go_Strconv.thy ===== *)
theory Go_Strconv
  imports Go_Strings
begin

text \<open>
  Decimal printing and parsing as \<^verbatim>\<open>strconv\<close> does it: \<^verbatim>\<open>Itoa\<close> (and the
  \<^verbatim>\<open>%d\<close> verb) and \<^verbatim>\<open>ParseInt(s, 10, 64)\<close> with its optional sign, its digit check
  and its 64-bit range check. \<open>unsafe\<close> lemmas are absent: parsing what was printed returns the
  number for every 64-bit value.
\<close>

section \<open>Printing\<close>

fun nat_digits :: "nat \<Rightarrow> gostring" where
  "nat_digits n =
     (if n < 10 then [chr_of (48 + n)] else nat_digits (n div 10) @ [chr_of (48 + n mod 10)])"

declare nat_digits.simps [simp del]

definition itoa :: "int \<Rightarrow> gostring" where
  "itoa n = (if n < 0 then CHR ''-'' # nat_digits (nat (- n)) else nat_digits (nat n))"

section \<open>Parsing\<close>

definition is_digit :: "char \<Rightarrow> bool" where
  "is_digit c \<longleftrightarrow> 48 \<le> byte c \<and> byte c \<le> 57"

definition digits_value :: "gostring \<Rightarrow> nat" where
  "digits_value s = foldl (\<lambda>n c. n * 10 + (byte c - 48)) 0 s"

definition parse_int64 :: "gostring \<Rightarrow> int option" where
  "parse_int64 s =
     (let neg = has_prefix s ''-'';
          ds = (if neg \<or> has_prefix s ''+'' then tl s else s)
      in if ds = [] \<or> \<not> list_all is_digit ds then None
         else let v = int (digits_value ds); n = (if neg then - v else v)
              in if in_int64 n then Some n else None)"

section \<open>Round trip\<close>

lemma nat_digits_induct [case_names small large]:
  assumes "\<And>n. n < 10 \<Longrightarrow> P n" and "\<And>n. \<not> n < 10 \<Longrightarrow> P (n div 10) \<Longrightarrow> P n"
  shows "P (n::nat)"
proof (induction n rule: less_induct)
  case (less n)
  then show ?case by (cases "n < 10") (auto intro: assms)
qed

lemma nat_digits_small: "n < 10 \<Longrightarrow> nat_digits n = [chr_of (48 + n)]"
  by (simp add: nat_digits.simps [of n])

lemma nat_digits_large:
  "\<not> n < 10 \<Longrightarrow> nat_digits n = nat_digits (n div 10) @ [chr_of (48 + n mod 10)]"
  by (simp add: nat_digits.simps [of n])

lemma nat_digits_nonempty [simp]: "nat_digits n \<noteq> []"
  by (cases "n < 10") (simp_all add: nat_digits_small nat_digits_large)

lemma is_digit_chr: "n < 10 \<Longrightarrow> is_digit (chr_of (48 + n))"
  by (simp add: is_digit_def)

lemma nat_digits_digits: "list_all is_digit (nat_digits n)"
  by (induction n rule: nat_digits_induct)
    (simp_all add: nat_digits_small nat_digits_large is_digit_chr)

lemma digits_value_snoc: "digits_value (s @ [c]) = digits_value s * 10 + (byte c - 48)"
  by (simp add: digits_value_def)

lemma digits_value_nat_digits [simp]: "digits_value (nat_digits n) = n"
proof (induction n rule: nat_digits_induct)
  case (small n)
  then show ?case by (simp add: nat_digits_small digits_value_def)
next
  case (large n)
  then show ?case by (simp add: nat_digits_large digits_value_snoc)
qed

lemma digit_not_sign:
  "is_digit c \<Longrightarrow> c \<noteq> CHR ''-'' \<and> c \<noteq> CHR ''+'' \<and> c \<noteq> CHR '':'' \<and> c \<noteq> CHR ''|''"
proof -
  have "\<not> is_digit (CHR ''-'')" "\<not> is_digit (CHR ''+'')" "\<not> is_digit (CHR '':'')"
    "\<not> is_digit (CHR ''|'')" by code_simp+
  then show "is_digit c \<Longrightarrow> ?thesis" by auto
qed

lemma nat_digits_no_sign:
  "\<not> has_prefix (nat_digits n) ''-'' \<and> \<not> has_prefix (nat_digits n) ''+''"
proof (cases "nat_digits n")
  case (Cons c cs)
  with nat_digits_digits [of n] have "is_digit c" by simp
  with Cons show ?thesis using digit_not_sign by auto
qed simp

theorem parse_int64_itoa: "in_int64 n \<Longrightarrow> parse_int64 (itoa n) = Some n"
  using nat_digits_no_sign [of "nat n"]
  by (auto simp: parse_int64_def itoa_def Let_def nat_digits_digits)

lemma itoa_chars: "c \<in> set (itoa n) \<Longrightarrow> is_digit c \<or> c = CHR ''-''"
  using nat_digits_digits by (auto simp: itoa_def list_all_iff split: if_splits)

lemma itoa_no_colon: "CHR '':'' \<notin> set (itoa n)"
proof
  assume "CHR '':'' \<in> set (itoa n)"
  then have "is_digit (CHR '':'')" using itoa_chars by fastforce
  then show False using digit_not_sign by blast
qed

lemma itoa_no_bar: "CHR ''|'' \<notin> set (itoa n)"
proof
  assume "CHR ''|'' \<in> set (itoa n)"
  then have "is_digit (CHR ''|'')" using itoa_chars by fastforce
  then show False using digit_not_sign by blast
qed

lemma nat_digits_inject: "nat_digits m = nat_digits n \<longleftrightarrow> m = n"
  by (metis digits_value_nat_digits)

lemma itoa_inject: "itoa m = itoa n \<longleftrightarrow> m = n"
proof
  assume eq: "itoa m = itoa n"
  have "\<not> has_prefix (nat_digits k) ''-''" for k using nat_digits_no_sign by blast
  then have sign: "(m < 0) = (n < 0)"
    using eq by (metis append_Cons append_Nil has_prefix_append itoa_def)
  show "m = n"
  proof (cases "m < 0")
    case True
    with sign eq have "nat (- m) = nat (- n)" by (simp add: itoa_def nat_digits_inject)
    with True sign show ?thesis by simp
  next
    case False
    with sign eq have "nat m = nat n" by (simp add: itoa_def nat_digits_inject)
    with False sign show ?thesis by simp
  qed
qed simp

text \<open>Number of digits, for sizes and bounds.\<close>

lemma parse_int64_range: "parse_int64 s = Some n \<Longrightarrow> in_int64 n"
  by (auto simp: parse_int64_def Let_def split: if_splits)

end
