(* ===== verification/Json.thy ===== *)
theory Json
  imports Codecs Go_Strconv "HOL-Library.Char_ord" "HOL-Library.List_Lexorder"
begin

text \<open>
  JSON as \<^verbatim>\<open>encoding/json\<close> reads and writes it. UTF-8 decoding follows
  \<^verbatim>\<open>utf8.DecodeRune\<close> (an invalid byte is U+FFFD of width one). \<open>json_unmarshal\<close> is
  the scanner and decoder: it accepts exactly one value surrounded by white space, nested at most
  10000 deep; its fuel is the length of the input plus one, and every recursive call consumes
  input. Struct fields match their keys up to case, a later duplicate wins, \<open>null\<close> leaves a
  field alone and any other type mismatch is an error. A number is kept as its literal; what
  \<^verbatim>\<open>float64\<close> makes of it is a parameter where the service needs it.
\<close>

section \<open>UTF-8\<close>

definition cont_byte :: "char \<Rightarrow> bool" where
  "cont_byte c \<longleftrightarrow> 128 \<le> byte c \<and> byte c \<le> 191"

fun decode_rune :: "gostring \<Rightarrow> nat \<times> nat" where
  "decode_rune [] = (65533, 0)"
| "decode_rune (c0 # r) =
     (let b = byte c0 in
      if b < 128 then (b, 1)
      else if 194 \<le> b \<and> b \<le> 223 then
        (case r of
           c1 # _ \<Rightarrow> if cont_byte c1 then ((b - 192) * 64 + (byte c1 - 128), 2) else (65533, 1)
         | _ \<Rightarrow> (65533, 1))
      else if 224 \<le> b \<and> b \<le> 239 then
        (case r of
           c1 # c2 # _ \<Rightarrow>
             if (if b = 224 then 160 else 128) \<le> byte c1 \<and> byte c1 \<le> (if b = 237 then 159 else 191)
                \<and> cont_byte c2
             then ((b - 224) * 4096 + (byte c1 - 128) * 64 + (byte c2 - 128), 3) else (65533, 1)
         | _ \<Rightarrow> (65533, 1))
      else if 240 \<le> b \<and> b \<le> 244 then
        (case r of
           c1 # c2 # c3 # _ \<Rightarrow>
             if (if b = 240 then 144 else 128) \<le> byte c1 \<and> byte c1 \<le> (if b = 244 then 143 else 191)
                \<and> cont_byte c2 \<and> cont_byte c3
             then ((b - 240) * 262144 + (byte c1 - 128) * 4096 + (byte c2 - 128) * 64
                   + (byte c3 - 128), 4)
             else (65533, 1)
         | _ \<Rightarrow> (65533, 1))
      else (65533, 1))"

definition encode_rune :: "nat \<Rightarrow> gostring" where
  "encode_rune n =
     (if n < 128 then [chr_of n]
      else if n < 2048 then [chr_of (192 + n div 64), chr_of (128 + n mod 64)]
      else if 55296 \<le> n \<and> n \<le> 57343 \<or> 1114111 < n then map chr_of [239, 191, 189]
      else if n < 65536
      then [chr_of (224 + n div 4096), chr_of (128 + n div 64 mod 64), chr_of (128 + n mod 64)]
      else [chr_of (240 + n div 262144), chr_of (128 + n div 4096 mod 64),
            chr_of (128 + n div 64 mod 64), chr_of (128 + n mod 64)])"

lemma decode_rune_width: "s \<noteq> [] \<Longrightarrow> 1 \<le> snd (decode_rune s)"
  by (cases s) (auto simp: Let_def split: list.splits)

function runes :: "gostring \<Rightarrow> nat list" where
  "runes s =
     (if s = [] then []
      else fst (decode_rune s) # runes (drop (max 1 (snd (decode_rune s))) s))"
  by pat_completeness auto
termination
  by (relation "measure length") auto

declare runes.simps [simp del]

section \<open>Values\<close>

datatype json =
    JNull
  | JBool bool
  | JNum gostring
  | JStr gostring
  | JArr "json list"
  | JObj "(gostring \<times> json) list"

section \<open>Scanning\<close>

definition json_ws :: "char \<Rightarrow> bool" where
  "json_ws c \<longleftrightarrow> byte c \<in> {32, 9, 10, 13}"

definition skip_ws :: "gostring \<Rightarrow> gostring" where
  "skip_ws s = dropWhile json_ws s"

definition scan_digits :: "gostring \<Rightarrow> (gostring \<times> gostring) option" where
  "scan_digits s =
     (if takeWhile is_digit s = [] then None
      else Some (takeWhile is_digit s, dropWhile is_digit s))"

definition scan_int :: "gostring \<Rightarrow> (gostring \<times> gostring) option" where
  "scan_int s =
     (case s of
        [] \<Rightarrow> None
      | c # cs \<Rightarrow> if c = CHR ''0'' then Some (''0'', cs) else scan_digits s)"

definition scan_frac :: "gostring \<Rightarrow> (gostring \<times> gostring) option" where
  "scan_frac s =
     (case s of
        c # cs \<Rightarrow>
          if c = CHR ''.'' then map_option (\<lambda>(d, r). (c # d, r)) (scan_digits cs) else Some ([], s)
      | [] \<Rightarrow> Some ([], s))"

definition scan_exp :: "gostring \<Rightarrow> (gostring \<times> gostring) option" where
  "scan_exp s =
     (case s of
        c # cs \<Rightarrow>
          if c = CHR ''e'' \<or> c = CHR ''E'' then
            (case cs of
               d # ds \<Rightarrow>
                 if d = CHR ''+'' \<or> d = CHR ''-''
                 then map_option (\<lambda>(e, r). (c # d # e, r)) (scan_digits ds)
                 else map_option (\<lambda>(e, r). (c # e, r)) (scan_digits cs)
             | [] \<Rightarrow> None)
          else Some ([], s)
      | [] \<Rightarrow> Some ([], s))"

definition scan_number :: "gostring \<Rightarrow> (gostring \<times> gostring) option" where
  "scan_number s =
     (let sign = (if has_prefix s ''-'' then ''-'' else []) in
      case scan_int (drop (length sign) s) of
        None \<Rightarrow> None
      | Some (i, r1) \<Rightarrow>
          (case scan_frac r1 of
             None \<Rightarrow> None
           | Some (f, r2) \<Rightarrow>
               (case scan_exp r2 of
                  None \<Rightarrow> None
                | Some (e, r3) \<Rightarrow> Some (sign @ i @ f @ e, r3))))"

text \<open>The raw text of a string literal, up to the closing quote.\<close>

fun scan_str :: "gostring \<Rightarrow> (gostring \<times> gostring) option" where
  "scan_str [] = None"
| "scan_str (c # cs) =
     (if byte c = 34 then Some ([], cs)
      else if byte c = 92 then
        (case cs of
           [] \<Rightarrow> None
         | e # r \<Rightarrow>
             if byte e \<in> {34, 92, 47, 98, 102, 110, 114, 116}
             then map_option (\<lambda>(a, b). (c # e # a, b)) (scan_str r)
             else if byte e = 117 then
               (case r of
                  h1 # h2 # h3 # h4 # r' \<Rightarrow>
                    if hex_val h1 \<noteq> None \<and> hex_val h2 \<noteq> None \<and> hex_val h3 \<noteq> None \<and> hex_val h4 \<noteq> None
                    then map_option (\<lambda>(a, b). (c # e # h1 # h2 # h3 # h4 # a, b)) (scan_str r')
                    else None
                | _ \<Rightarrow> None)
             else None)
      else if byte c < 32 then None
      else map_option (\<lambda>(a, b). (c # a, b)) (scan_str cs))"

section \<open>Unquoting\<close>

definition getu4 :: "gostring \<Rightarrow> nat option" where
  "getu4 s =
     (case s of
        b # u # h1 # h2 # h3 # h4 # _ \<Rightarrow>
          (case (hex_val h1, hex_val h2, hex_val h3, hex_val h4) of
             (Some w, Some x, Some y, Some z) \<Rightarrow>
               if byte b = 92 \<and> byte u = 117 then Some (((w * 16 + x) * 16 + y) * 16 + z) else None
           | _ \<Rightarrow> None)
      | _ \<Rightarrow> None)"

definition unescape_char :: "char \<Rightarrow> char" where
  "unescape_char e =
     (if byte e = 98 then chr_of 8 else if byte e = 102 then chr_of 12
      else if byte e = 110 then chr_of 10 else if byte e = 114 then chr_of 13
      else if byte e = 116 then chr_of 9 else e)"

function unquote :: "gostring \<Rightarrow> gostring" where
  "unquote s =
     (case s of
        [] \<Rightarrow> []
      | c # cs \<Rightarrow>
          if byte c = 92 then
            (case getu4 s of
               Some n \<Rightarrow>
                 if 55296 \<le> n \<and> n \<le> 57343 then
                   (case getu4 (drop 6 s) of
                      Some m \<Rightarrow>
                        if n < 56320 \<and> 56320 \<le> m \<and> m \<le> 57343
                        then encode_rune ((n - 55296) * 1024 + (m - 56320) + 65536)
                             @ unquote (drop 12 s)
                        else encode_rune 65533 @ unquote (drop 6 s)
                    | None \<Rightarrow> encode_rune 65533 @ unquote (drop 6 s))
                 else encode_rune n @ unquote (drop 6 s)
             | None \<Rightarrow>
                 (case cs of [] \<Rightarrow> [] | e # r \<Rightarrow> unescape_char e # unquote r))
          else if byte c < 128 then c # unquote cs
          else encode_rune (fst (decode_rune s)) @ unquote (drop (max 1 (snd (decode_rune s))) s))"
  by pat_completeness auto
termination
  by (relation "measure length") auto

declare unquote.simps [simp del]

section \<open>Parsing\<close>

definition max_depth :: nat where
  "max_depth = 10000"

fun parse_value :: "nat \<Rightarrow> nat \<Rightarrow> gostring \<Rightarrow> (json \<times> gostring) option"
  and parse_elems :: "nat \<Rightarrow> nat \<Rightarrow> gostring \<Rightarrow> (json list \<times> gostring) option"
  and parse_members :: "nat \<Rightarrow> nat \<Rightarrow> gostring \<Rightarrow> ((gostring \<times> json) list \<times> gostring) option" where
  "parse_value 0 d s = None"
| "parse_value (Suc f) d s =
     (case skip_ws s of
        [] \<Rightarrow> None
      | c # cs \<Rightarrow>
          if byte c = 123 then
            (if d = 0 then None
             else if has_prefix (skip_ws cs) [chr_of 125] then Some (JObj [], tl (skip_ws cs))
             else map_option (\<lambda>(ms, r). (JObj ms, r)) (parse_members f (d - 1) cs))
          else if byte c = 91 then
            (if d = 0 then None
             else if has_prefix (skip_ws cs) [chr_of 93] then Some (JArr [], tl (skip_ws cs))
             else map_option (\<lambda>(vs, r). (JArr vs, r)) (parse_elems f (d - 1) cs))
          else if byte c = 34 then map_option (\<lambda>(t, r). (JStr (unquote t), r)) (scan_str cs)
          else if has_prefix (c # cs) ''true'' then Some (JBool True, drop 4 (c # cs))
          else if has_prefix (c # cs) ''false'' then Some (JBool False, drop 5 (c # cs))
          else if has_prefix (c # cs) ''null'' then Some (JNull, drop 4 (c # cs))
          else map_option (\<lambda>(t, r). (JNum t, r)) (scan_number (c # cs)))"
| "parse_elems 0 d s = None"
| "parse_elems (Suc f) d s =
     (case parse_value f d s of
        None \<Rightarrow> None
      | Some (v, r) \<Rightarrow>
          (case skip_ws r of
             [] \<Rightarrow> None
           | c # cs \<Rightarrow>
               if byte c = 44 then map_option (\<lambda>(vs, q). (v # vs, q)) (parse_elems f d cs)
               else if byte c = 93 then Some ([v], cs) else None))"
| "parse_members 0 d s = None"
| "parse_members (Suc f) d s =
     (case skip_ws s of
        [] \<Rightarrow> None
      | c # cs \<Rightarrow>
          if byte c \<noteq> 34 then None
          else (case scan_str cs of
              None \<Rightarrow> None
            | Some (k, r1) \<Rightarrow>
                (case skip_ws r1 of
                   [] \<Rightarrow> None
                 | c1 # cs1 \<Rightarrow>
                     if byte c1 \<noteq> 58 then None
                     else (case parse_value f d cs1 of
                         None \<Rightarrow> None
                       | Some (v, r2) \<Rightarrow>
                           (case skip_ws r2 of
                              [] \<Rightarrow> None
                            | c2 # cs2 \<Rightarrow>
                                if byte c2 = 44
                                then map_option (\<lambda>(ms, q). ((unquote k, v) # ms, q))
                                       (parse_members f d cs2)
                                else if byte c2 = 125 then Some ([(unquote k, v)], cs2)
                                else None)))))"

definition json_unmarshal :: "gostring \<Rightarrow> json option" where
  "json_unmarshal s =
     (case parse_value (2 * length s + 2) max_depth s of
        Some (v, r) \<Rightarrow> if skip_ws r = [] then Some v else None
      | None \<Rightarrow> None)"

section \<open>The fuel is enough\<close>

lemma skip_ws_length: "length (skip_ws s) \<le> length s"
  by (simp add: skip_ws_def length_dropWhile_le)

lemma skip_ws_Cons: "skip_ws s = c # cs \<Longrightarrow> length cs < length s"
  using skip_ws_length [of s] by simp

lemma scan_digits_length: "scan_digits s = Some (d, r) \<Longrightarrow> length r < length s"
proof -
  assume "scan_digits s = Some (d, r)"
  then have "takeWhile is_digit s \<noteq> []" and "r = dropWhile is_digit s"
    by (auto simp: scan_digits_def split: if_splits)
  moreover have "length (takeWhile is_digit s) + length (dropWhile is_digit s) = length s"
    by (simp add: length_append [symmetric] del: length_append)
  ultimately show ?thesis by (cases "takeWhile is_digit s") simp_all
qed

lemma scan_number_length: "scan_number s = Some (t, r) \<Longrightarrow> length r < length s"
proof -
  have f: "scan_frac x = Some (u, v) \<Longrightarrow> length v \<le> length x" for x u v
    by (auto simp: scan_frac_def split: list.splits if_splits dest: scan_digits_length)
  have e: "scan_exp x = Some (u, v) \<Longrightarrow> length v \<le> length x" for x u v
    by (auto simp: scan_exp_def split: list.splits if_splits dest: scan_digits_length)
  have i: "scan_int x = Some (u, v) \<Longrightarrow> length v < length x" for x u v
    by (auto simp: scan_int_def split: list.splits if_splits dest: scan_digits_length)
  assume "scan_number s = Some (t, r)"
  then show ?thesis
    by (auto simp: scan_number_def Let_def split: option.splits dest!: f e i) arith
qed

lemma scan_str_length: "scan_str s = Some (t, r) \<Longrightarrow> length r < length s"
  by (induction s arbitrary: t rule: scan_str.induct) (fastforce split: if_splits list.splits)+


text \<open>A scanner that consumes at least one byte.\<close>

definition shrinks :: "(gostring \<Rightarrow> ('a \<times> gostring) option) \<Rightarrow> bool" where
  "shrinks p \<longleftrightarrow> (\<forall>s x r. p s = Some (x, r) \<longrightarrow> length r < length s)"

lemma shrinksD: "shrinks p \<Longrightarrow> p s = Some (x, r) \<Longrightarrow> length r < length s"
  by (auto simp: shrinks_def)

lemma parse_shrinks:
  "shrinks (parse_value f d) \<and> shrinks (parse_elems f d) \<and> shrinks (parse_members f d)"
proof (induction f arbitrary: d)
  case (Suc f)
  then have v: "shrinks (parse_value f d)" and e: "shrinks (parse_elems f d)"
    and m: "shrinks (parse_members f d)" for d by blast+
  have "length r < length s" if p: "parse_value (Suc f) d s = Some (x, r)" for s x r
  proof (cases "skip_ws s")
    case (Cons c cs)
    note l = skip_ws_Cons [OF Cons] skip_ws_length [of cs]
    from p Cons l show ?thesis
      by (auto split: if_splits dest!: scan_str_length scan_number_length shrinksD [OF e] shrinksD [OF m])
  qed (use p in simp)
  moreover have "length r < length s" if p: "parse_elems (Suc f) d s = Some (x, r)" for s x r
  proof -
    from p show ?thesis
      by (auto split: option.splits list.splits if_splits
          dest!: shrinksD [OF v] shrinksD [OF e] skip_ws_Cons)
  qed
  moreover have "length r < length s" if p: "parse_members (Suc f) d s = Some (x, r)" for s x r
  proof -
    from p show ?thesis
      by (auto split: option.splits list.splits if_splits
          dest!: shrinksD [OF v] shrinksD [OF m] skip_ws_Cons scan_str_length)
  qed
  ultimately show ?case by (simp add: shrinks_def del: parse_value.simps parse_elems.simps parse_members.simps)
qed (simp add: shrinks_def)

text \<open>Once the fuel exceeds twice the length, more of it changes nothing.\<close>

lemma parse_value_more:
  "2 * length s + 1 \<le> f \<Longrightarrow> parse_value (Suc f) d s = parse_value f d s"
  "2 * length s + 2 \<le> f \<Longrightarrow> parse_elems (Suc f) d s = parse_elems f d s"
  "2 * length s + 2 \<le> f \<Longrightarrow> parse_members (Suc f) d s = parse_members f d s"
proof (induction f arbitrary: d s)
  case (Suc f)
  {
    case 1
    show ?case
    proof (cases "skip_ws s")
      case (Cons c cs)
      with skip_ws_Cons [OF Cons] 1 have "2 * length cs + 2 \<le> f" by simp
      then have "parse_members (Suc f) d' cs = parse_members f d' cs"
        "parse_elems (Suc f) d' cs = parse_elems f d' cs" for d'
        by (rule Suc.IH)+
      with Cons show ?thesis 
        by (subst (1 2) parse_value.simps) (simp del: parse_elems.simps parse_members.simps)
    qed simp
  next
    case 2
    then have pv: "parse_value (Suc f) d s = parse_value f d s" by (intro Suc.IH(1)) simp
    have "parse_elems (Suc f) d cs = parse_elems f d cs"
      if "parse_value f d s = Some (v, r)" and "skip_ws r = c # cs" for v r c cs
      using 2 shrinksD [OF conjunct1 [OF parse_shrinks] that(1)] skip_ws_Cons [OF that(2)]
      by (intro Suc.IH(2)) simp
    then show ?case
      by (subst (1 2) parse_elems.simps)
        (simp add: pv del: parse_value.simps parse_elems.simps split: option.split list.split)
  next
    case 3
    have "parse_value (Suc f) d s3 = parse_value f d s3 \<and> (\<forall>v r c cs. parse_value f d s3 = Some (v, r) \<longrightarrow> skip_ws r = c # cs
         \<longrightarrow> parse_members (Suc f) d cs = parse_members f d cs)" 
      if "skip_ws s = a # s1" "scan_str s1 = Some (k, s2)" "skip_ws s2 = b # s3" for a s1 k s2 b s3
    proof -
      have l: "length s3 + 2 < length s"
        using skip_ws_Cons [OF that(1)] scan_str_length [OF that(2)] skip_ws_Cons [OF that(3)] by simp
      have "parse_members (Suc f) d cs = parse_members f d cs"
        if "parse_value f d s3 = Some (v, r)" "skip_ws r = c # cs" for v r c cs
        using 3 l shrinksD [OF conjunct1 [OF parse_shrinks] that(1)] skip_ws_Cons [OF that(2)]
        by (intro Suc.IH(3)) simp
      moreover have "parse_value (Suc f) d s3 = parse_value f d s3"
        using 3 l by (intro Suc.IH(1)) simp
      ultimately show ?thesis by blast
    qed
    then show ?case
      by (subst (1 2) parse_members.simps)
        (simp del: parse_value.simps parse_members.simps split: option.split list.split)
  }
qed simp_all

lemma json_fuel_enough:
  "2 * length s + 2 \<le> f \<Longrightarrow> parse_value f d s = parse_value (2 * length s + 2) d s"
proof (induction f rule: dec_induct)
  case (step n)
  then show ?case using parse_value_more(1) [of s n d] by simp
qed simp

section \<open>Printing\<close>

definition hex2 :: "nat \<Rightarrow> gostring" where
  "hex2 n = [hex_digits ! (n div 16 mod 16), hex_digits ! (n mod 16)]"

definition escape_ascii :: "char \<Rightarrow> gostring" where
  "escape_ascii c =
     (let n = byte c in
      if n = 34 \<or> n = 92 then [chr_of 92, c]
      else if n = 8 then [chr_of 92, CHR ''b''] else if n = 12 then [chr_of 92, CHR ''f'']
      else if n = 10 then [chr_of 92, CHR ''n''] else if n = 13 then [chr_of 92, CHR ''r'']
      else if n = 9 then [chr_of 92, CHR ''t'']
      else if n < 32 \<or> n = 60 \<or> n = 62 \<or> n = 38 then chr_of 92 # ''u00'' @ hex2 n
      else [c])"

function escape_str :: "gostring \<Rightarrow> gostring" where
  "escape_str s =
     (case s of
        [] \<Rightarrow> []
      | c # cs \<Rightarrow>
          if byte c < 128 then escape_ascii c @ escape_str cs
          else (let (n, w) = decode_rune s in
                (if n = 65533 \<and> w = 1 then chr_of 92 # ''ufffd''
                 else if n = 8232 then chr_of 92 # ''u2028''
                 else if n = 8233 then chr_of 92 # ''u2029''
                 else take w s) @ escape_str (drop (max 1 w) s)))"
  by pat_completeness auto
termination
  by (relation "measure length") auto

declare escape_str.simps [simp del]

definition json_quote :: "gostring \<Rightarrow> gostring" where
  "json_quote s = chr_of 34 # escape_str s @ [chr_of 34]"

fun json_encode :: "json \<Rightarrow> gostring" where
  "json_encode JNull = ''null''"
| "json_encode (JBool b) = (if b then ''true'' else ''false'')"
| "json_encode (JNum t) = t"
| "json_encode (JStr s) = json_quote s"
| "json_encode (JArr vs) = ''['' @ join_with '','' (map json_encode vs) @ '']''"
| "json_encode (JObj ms) =
     [chr_of 123] @ join_with '','' (map (\<lambda>(k, v). json_quote k @ '':'' @ json_encode v) ms)
     @ [chr_of 125]"

section \<open>Decoding into Go values\<close>

text \<open>Field names match up to simple case folding; only U+017F and U+212A fold to ASCII letters.\<close>

definition upper_char :: "char \<Rightarrow> char" where
  "upper_char c = (if 97 \<le> byte c \<and> byte c \<le> 122 then chr_of (byte c - 32) else c)"

lemma upper_char_bits [code]:
  "upper_char (Char b0 b1 b2 b3 b4 b5 b6 b7) =
    (if \<not> b7 \<and> b6 \<and> b5 \<and> (b0 \<or> b1 \<or> b2 \<or> b3 \<or> b4) \<and> \<not> (b4 \<and> b3 \<and> (b2 \<or> b1 \<and> b0))
     then Char b0 b1 b2 b3 b4 False b6 b7 else Char b0 b1 b2 b3 b4 b5 b6 b7)"
  by (cases b0; cases b1; cases b2; cases b3; cases b4; cases b5; cases b6; cases b7;
      simp add: upper_char_def byte_def chr_of_def char_of_def bit_Suc_0_iff)

fun fold_name :: "gostring \<Rightarrow> gostring" where
  "fold_name [] = []"
| "fold_name (c # cs) =
     (if has_prefix (c # cs) (map chr_of [197, 191]) then CHR ''S'' # fold_name (drop 1 cs)
      else if has_prefix (c # cs) (map chr_of [226, 132, 170]) then CHR ''K'' # fold_name (drop 2 cs)
      else upper_char c # fold_name cs)"

lemma fold_name_literals [code]:
  "fold_name [] = []"
  "fold_name (c # cs) =
     (if has_prefix (c # cs) [CHR 0xC5, CHR 0xBF] then CHR ''S'' # fold_name (drop 1 cs)
      else if has_prefix (c # cs) [CHR 0xE2, CHR 0x84, CHR 0xAA] then CHR ''K'' # fold_name (drop 2 cs)
      else upper_char c # fold_name cs)"
  by (simp_all add: chr_of_def char_of_def bit_Suc_0_iff)

definition struct_members :: "json \<Rightarrow> (gostring \<times> json) list option" where
  "struct_members v = (case v of JNull \<Rightarrow> Some [] | JObj ms \<Rightarrow> Some ms | _ \<Rightarrow> None)"

definition field_values :: "gostring \<Rightarrow> (gostring \<times> json) list \<Rightarrow> json list" where
  "field_values name ms = map snd (filter (\<lambda>(k, v). fold_name k = fold_name name) ms)"

text \<open>A \<^verbatim>\<open>string\<close> field: \<open>None\<close> is a type error.\<close>

fun assign_str :: "gostring \<Rightarrow> json list \<Rightarrow> gostring option" where
  "assign_str cur [] = Some cur"
| "assign_str cur (JStr s # vs) = assign_str s vs"
| "assign_str cur (JNull # vs) = assign_str cur vs"
| "assign_str cur (v # vs) = None"

definition str_field :: "gostring \<Rightarrow> (gostring \<times> json) list \<Rightarrow> gostring option" where
  "str_field name ms = assign_str [] (field_values name ms)"

text \<open>An integer field of 64 bits.\<close>

fun assign_int :: "int \<Rightarrow> json list \<Rightarrow> int option" where
  "assign_int cur [] = Some cur"
| "assign_int cur (JNum t # vs) = (case parse_int64 t of None \<Rightarrow> None | Some n \<Rightarrow> assign_int n vs)"
| "assign_int cur (JNull # vs) = assign_int cur vs"
| "assign_int cur (v # vs) = None"

definition int_field :: "gostring \<Rightarrow> (gostring \<times> json) list \<Rightarrow> int option" where
  "int_field name ms = assign_int 0 (field_values name ms)"

text \<open>A \<^verbatim>\<open>json.RawMessage\<close> field: the last value as it stands, \<open>null\<close> included.\<close>

definition raw_field :: "gostring \<Rightarrow> (gostring \<times> json) list \<Rightarrow> json option" where
  "raw_field name ms =
     (case field_values name ms of [] \<Rightarrow> None | v # vs \<Rightarrow> Some (last (v # vs)))"

text \<open>A \<^verbatim>\<open>map[string]any\<close>: keys compare exactly, the last duplicate wins.\<close>

definition any_lookup :: "(gostring \<times> json) list \<Rightarrow> gostring \<Rightarrow> json option" where
  "any_lookup ms k = map_of (rev ms) k"

definition any_string :: "json option \<Rightarrow> gostring" where
  "any_string v = (case v of Some (JStr s) \<Rightarrow> s | _ \<Rightarrow> [])"

text \<open>Numbers decoded into \<open>any\<close> must fit \<^verbatim>\<open>float64\<close>: \<open>fl\<close> maps a literal to
  the text Go prints for it, \<open>None\<close> when it is out of range. \<open>any_canon\<close> is the value
  \<^verbatim>\<open>json.Marshal\<close> prints: maps sorted by key, the last duplicate kept.\<close>

fun any_in_range :: "(gostring \<Rightarrow> gostring option) \<Rightarrow> json \<Rightarrow> bool" where
  "any_in_range fl (JNum t) \<longleftrightarrow> fl t \<noteq> None"
| "any_in_range fl (JArr vs) \<longleftrightarrow> (\<forall>v\<in>set vs. any_in_range fl v)"
| "any_in_range fl (JObj ms) \<longleftrightarrow> (\<forall>m\<in>set ms. any_in_range fl (snd m))"
| "any_in_range fl _ \<longleftrightarrow> True"

fun any_canon :: "(gostring \<Rightarrow> gostring option) \<Rightarrow> json \<Rightarrow> json" where
  "any_canon fl (JNum t) = JNum (case fl t of None \<Rightarrow> t | Some u \<Rightarrow> u)"
| "any_canon fl (JArr vs) = JArr (map (any_canon fl) vs)"
| "any_canon fl (JObj ms) =
     (let cs = map (\<lambda>(k, v). (k, any_canon fl v)) ms
      in JObj (map (\<lambda>k. (k, the (map_of (rev cs) k))) (sort (remdups (map fst cs)))))"
| "any_canon fl v = v"

end
