(* ===== verification/Url_Escape.thy ===== *)
theory Url_Escape
  imports Codecs
begin

text \<open>
  The query and path-segment escaping of \<^verbatim>\<open>net/url\<close>: \<open>query_escape\<close> and
  \<open>query_unescape\<close> (which the login redirect applies to its target) and \<open>path_escape\<close>
  (which builds the upstream request paths). Unescaping fails on a percent sign that two
  hexadecimal digits do not follow.
\<close>

definition upper_hex_digits :: gostring where
  "upper_hex_digits = ''0123456789ABCDEF''"

definition pct :: "char \<Rightarrow> gostring" where
  "pct c = [CHR ''%'', upper_hex_digits ! (byte c div 16), upper_hex_digits ! (byte c mod 16)]"

definition unreserved :: "char \<Rightarrow> bool" where
  "unreserved c \<longleftrightarrow>
     (let n = byte c in
      97 \<le> n \<and> n \<le> 122 \<or> 65 \<le> n \<and> n \<le> 90 \<or> 48 \<le> n \<and> n \<le> 57
      \<or> n = 45 \<or> n = 95 \<or> n = 46 \<or> n = 126)"

definition query_escape_char :: "char \<Rightarrow> gostring" where
  "query_escape_char c =
     (if unreserved c then [c] else if byte c = 32 then ''+'' else pct c)"

definition query_escape :: "gostring \<Rightarrow> gostring" where
  "query_escape s = concat (map query_escape_char s)"

definition path_escape_char :: "char \<Rightarrow> gostring" where
  "path_escape_char c =
     (if unreserved c \<or> c \<in> set ''$&+=:@'' then [c] else pct c)"

definition path_escape :: "gostring \<Rightarrow> gostring" where
  "path_escape s = concat (map path_escape_char s)"

fun query_unescape :: "gostring \<Rightarrow> gostring option" where
  "query_unescape [] = Some []"
| "query_unescape (c # cs) =
     (if c = CHR ''%'' then
        (case cs of
           h # l # r \<Rightarrow>
             (case (hex_val h, hex_val l) of
                (Some x, Some y) \<Rightarrow> map_option (\<lambda>t. chr_of (16 * x + y) # t) (query_unescape r)
              | _ \<Rightarrow> None)
         | _ \<Rightarrow> None)
      else map_option (\<lambda>t. (if c = CHR ''+'' then CHR '' '' else c) # t) (query_unescape cs))"

lemma upper_hex_val: "n < 16 \<Longrightarrow> hex_val (upper_hex_digits ! n) = Some n"
proof -
  have "\<forall>n\<in>set [0..<16]. hex_val (upper_hex_digits ! n) = Some n" by code_simp
  then show "n < 16 \<Longrightarrow> hex_val (upper_hex_digits ! n) = Some n" by simp
qed

lemma query_unescape_pct:
  "query_unescape (pct c @ s) = map_option (\<lambda>t. c # t) (query_unescape s)"
  by (simp add: pct_def upper_hex_val)

lemma unreserved_plain: "unreserved c \<Longrightarrow> c \<noteq> CHR ''%'' \<and> c \<noteq> CHR ''+''"
proof -
  have "\<not> unreserved (CHR ''%'')" and "\<not> unreserved (CHR ''+'')" by code_simp+
  then show "unreserved c \<Longrightarrow> ?thesis" by auto
qed

lemma byte_space: "byte c = 32 \<Longrightarrow> c = CHR '' ''"
proof -
  have "byte (CHR '' '') = 32" by code_simp
  then show "byte c = 32 \<Longrightarrow> c = CHR '' ''" by (metis byte_inject)
qed

lemma query_unescape_char:
  "query_unescape (query_escape_char c @ s) = map_option (\<lambda>t. c # t) (query_unescape s)"
  using unreserved_plain byte_space
  by (auto simp: query_escape_char_def query_unescape_pct)

theorem query_unescape_escape: "query_unescape (query_escape s) = Some s"
  by (induction s) (simp_all add: query_escape_def query_unescape_char)

definition url_alphabet :: "char set" where
  "url_alphabet = {c. unreserved c} \<union> {CHR ''+'', CHR ''%''}"

lemma upper_hex_unreserved: "n < 16 \<Longrightarrow> unreserved (upper_hex_digits ! n)"
proof -
  have "\<forall>n\<in>set [0..<16]. unreserved (upper_hex_digits ! n)" by code_simp
  then show "n < 16 \<Longrightarrow> unreserved (upper_hex_digits ! n)" by simp
qed

lemma query_escape_alphabet: "set (query_escape s) \<subseteq> url_alphabet"
  by (induction s)
    (auto simp: query_escape_def query_escape_char_def pct_def url_alphabet_def
      upper_hex_unreserved)

interpretation query: codec query_escape query_unescape url_alphabet
  by unfold_locales (rule query_unescape_escape, rule query_escape_alphabet)

lemma url_alphabet_no_quote: "CHR ''&'' \<notin> url_alphabet" "CHR ''='' \<notin> url_alphabet"
  by (simp_all add: url_alphabet_def unreserved_def byte_def)

lemma path_escape_no_slash: "CHR ''/'' \<notin> set (path_escape s)"
proof -
  have "\<not> unreserved (CHR ''/'')" by code_simp
  moreover have "upper_hex_digits ! (byte c div 16) \<noteq> CHR ''/''"
    and "upper_hex_digits ! (byte c mod 16) \<noteq> CHR ''/''" for c
    using upper_hex_unreserved calculation byte_nibbles(1) by (metis mod_less_divisor zero_less_numeral)+
  ultimately have "CHR ''/'' \<notin> set (path_escape_char c)" for c
    by (auto simp: path_escape_char_def pct_def dest!: sym [of "CHR ''/''"])
  then show ?thesis by (auto simp: path_escape_def)
qed

end
