(* ===== verification/Http_Model.thy ===== *)
theory Http_Model
  imports Json Url_Escape
begin

text \<open>
  Requests, responses and cookies as the handlers see them through \<^verbatim>\<open>net/http\<close>
  (the server has parsed the header, the cookies, the query, the form and the path value), the two
  response helpers of \<^verbatim>\<open>health.go\<close> and \<^verbatim>\<open>workbench.go\<close>, and
  \<^verbatim>\<open>http.Redirect\<close> on the targets the service passes to it (rooted paths, which it
  cleans, and absolute URLs, which it leaves alone).
\<close>

section \<open>Requests\<close>

record request =
  rq_method :: gostring
  rq_path :: gostring
  rq_host :: gostring
  rq_headers :: "(gostring \<times> gostring) list"
  rq_cookies :: "(gostring \<times> gostring) list"
  rq_query :: "(gostring \<times> gostring) list"
  rq_form :: "(gostring \<times> gostring) list"
  rq_slot :: gostring
  rq_body :: gostring

definition value_of :: "(gostring \<times> gostring) list \<Rightarrow> gostring \<Rightarrow> gostring" where
  "value_of kvs k = (case map_of kvs k of None \<Rightarrow> [] | Some v \<Rightarrow> v)"

definition rq_header :: "request \<Rightarrow> gostring \<Rightarrow> gostring" where
  "rq_header r k = value_of (rq_headers r) k"

definition read_limited :: "nat \<Rightarrow> request \<Rightarrow> gostring" where
  "read_limited n r = take n (rq_body r)"

definition body_limit :: nat where
  "body_limit = 65536"

section \<open>Responses\<close>

record cookie =
  ck_name :: gostring
  ck_value :: gostring
  ck_path :: gostring
  ck_domain :: gostring
  ck_max_age :: int
  ck_http_only :: bool
  ck_same_site_lax :: bool
  ck_secure :: bool

text \<open>\<open>LoginPage next err\<close> is the sign-in template executed with these two fields.\<close>

datatype body =
    NoBody | Text gostring | Json json | JsonIndented json | LoginPage gostring gostring

record response =
  rs_status :: nat
  rs_headers :: "(gostring \<times> gostring) list"
  rs_cookies :: "cookie list"
  rs_body :: body

definition set_header ::
  "gostring \<Rightarrow> gostring \<Rightarrow> (gostring \<times> gostring) list \<Rightarrow> (gostring \<times> gostring) list" where
  "set_header k v hs = filter (\<lambda>(k', _). k' \<noteq> k) hs @ [(k, v)]"

definition rs_header :: "response \<Rightarrow> gostring \<Rightarrow> gostring option" where
  "rs_header x k = map_of (rs_headers x) k"

lemma map_of_set_header [simp]:
  "map_of (set_header k v hs) k' = (if k' = k then Some v else map_of hs k')"
  by (induction hs) (auto simp: set_header_def)

definition mk_response ::
  "nat \<Rightarrow> (gostring \<times> gostring) list \<Rightarrow> cookie list \<Rightarrow> body \<Rightarrow> response" where
  "mk_response st hs cks b =
     \<lparr>rs_status = st, rs_headers = hs, rs_cookies = cks, rs_body = b\<rparr>"

lemma mk_response_simps [simp]:
  "rs_status (mk_response st hs cks b) = st"
  "rs_headers (mk_response st hs cks b) = hs"
  "rs_cookies (mk_response st hs cks b) = cks"
  "rs_body (mk_response st hs cks b) = b"
  by (simp_all add: mk_response_def)

text \<open>\<^verbatim>\<open>writeJSON\<close> on a response writer whose headers are \<open>hs\<close>.\<close>

definition write_json_on :: "(gostring \<times> gostring) list \<Rightarrow> nat \<Rightarrow> json \<Rightarrow> response" where
  "write_json_on hs st v =
     mk_response st (set_header ''Content-Type'' ''application/json'' hs) [] (Json v)"

definition write_json :: "nat \<Rightarrow> json \<Rightarrow> response" where
  "write_json st v = write_json_on [] st v"

definition err_json_on :: "(gostring \<times> gostring) list \<Rightarrow> nat \<Rightarrow> gostring \<Rightarrow> response" where
  "err_json_on hs st msg = write_json_on hs st (JObj [(''error'', JStr msg)])"

definition err_json :: "nat \<Rightarrow> gostring \<Rightarrow> response" where
  "err_json st msg = err_json_on [] st msg"

lemma write_json_fields [simp]:
  "rs_status (write_json st v) = st" "rs_body (write_json st v) = Json v"
  "rs_cookies (write_json st v) = []"
  "rs_status (write_json_on hs st v) = st" "rs_body (write_json_on hs st v) = Json v"
  by (simp_all add: write_json_def write_json_on_def)

lemma err_json_fields [simp]:
  "rs_status (err_json st m) = st" "rs_body (err_json st m) = Json (JObj [(''error'', JStr m)])"
  "rs_cookies (err_json st m) = []"
  "rs_status (err_json_on hs st m) = st"
  by (simp_all add: err_json_def err_json_on_def write_json_on_def)

lemma err_json_inject: "err_json a m = err_json b n \<longleftrightarrow> a = b \<and> m = n"
  by (auto simp: err_json_def err_json_on_def write_json_on_def mk_response_def)

section \<open>Redirects\<close>

fun clean_parts :: "gostring list \<Rightarrow> gostring list \<Rightarrow> gostring list" where
  "clean_parts acc [] = rev acc"
| "clean_parts acc (p # ps) =
     (if p = [] \<or> p = ''.'' then clean_parts acc ps
      else if p = ''..'' then clean_parts (drop 1 acc) ps
      else clean_parts (p # acc) ps)"

text \<open>\<^verbatim>\<open>path.Clean\<close> of a rooted path.\<close>

definition clean_rooted :: "gostring \<Rightarrow> gostring" where
  "clean_rooted p = CHR ''/'' # join_with ''/'' (clean_parts [] (split_on (CHR ''/'') p))"

fun valid_pct :: "gostring \<Rightarrow> bool" where
  "valid_pct [] \<longleftrightarrow> True"
| "valid_pct (c # cs) \<longleftrightarrow>
     (if c = CHR ''%'' then
        (case cs of h # l # r \<Rightarrow> hex_val h \<noteq> None \<and> hex_val l \<noteq> None \<and> valid_pct r | _ \<Rightarrow> False)
      else valid_pct cs)"

definition rooted_url_parses :: "gostring \<Rightarrow> bool" where
  "rooted_url_parses u =
     (let front = takeWhile (\<lambda>c. c \<noteq> CHR ''#'') u;
          frag = drop 1 (dropWhile (\<lambda>c. c \<noteq> CHR ''#'') u);
          pth = takeWhile (\<lambda>c. c \<noteq> CHR ''?'') front
      in list_all (\<lambda>c. 32 \<le> byte c \<and> byte c \<noteq> 127) front \<and> valid_pct pth \<and> valid_pct frag)"

definition hex_escape_non_ascii :: "gostring \<Rightarrow> gostring" where
  "hex_escape_non_ascii s =
     concat (map (\<lambda>c. if 128 \<le> byte c then CHR ''%'' # hex2 (byte c) else [c]) s)"

definition redirect_location :: "gostring \<Rightarrow> gostring" where
  "redirect_location u =
     hex_escape_non_ascii
       (if has_prefix u ''/'' \<and> \<not> has_prefix u ''//'' \<and> rooted_url_parses u then
          (let pth = takeWhile (\<lambda>c. c \<noteq> CHR ''?'') u;
               query = dropWhile (\<lambda>c. c \<noteq> CHR ''?'') u;
               cleaned = clean_rooted pth;
               trail = (if has_suffix pth ''/'' \<and> \<not> has_suffix cleaned ''/'' then ''/'' else [])
           in cleaned @ trail @ query)
        else u)"

definition html_escape_attr :: "gostring \<Rightarrow> gostring" where
  "html_escape_attr s =
     concat (map (\<lambda>c. if c = CHR ''&'' then ''&amp;'' else if c = CHR ''<'' then ''&lt;''
       else if c = CHR ''>'' then ''&gt;'' else if byte c = 34 then ''&#34;''
       else if byte c = 39 then ''&#39;'' else [c]) s)"

definition http_redirect_on ::
  "(gostring \<times> gostring) list \<Rightarrow> cookie list \<Rightarrow> request \<Rightarrow> gostring \<Rightarrow> response" where
  "http_redirect_on hs cks r u =
     (let loc = redirect_location u;
          getlike = (rq_method r = ''GET'' \<or> rq_method r = ''HEAD'');
          hs1 = set_header ''Location'' loc hs;
          hs2 = (if getlike then set_header ''Content-Type'' ''text/html; charset=utf-8'' hs1 else hs1)
      in mk_response 302 hs2 cks
           (if rq_method r = ''GET''
            then Text (''<a href='' @ [chr_of 34] @ html_escape_attr loc @ [chr_of 34] @ ''>Found</a>.'' @ [chr_of 10, chr_of 10])
            else NoBody))"

definition http_redirect :: "request \<Rightarrow> gostring \<Rightarrow> response" where
  "http_redirect r u = http_redirect_on [] [] r u"

lemma http_redirect_on_fields [simp]:
  "rs_status (http_redirect_on hs cks r u) = 302"
  "rs_cookies (http_redirect_on hs cks r u) = cks"
  by (simp_all add: http_redirect_on_def Let_def)

lemma http_redirect_on_location [simp]:
  "rs_header (http_redirect_on hs cks r u) ''Location'' = Some (redirect_location u)"
  by (cases "rq_method r = ''GET'' \<or> rq_method r = ''HEAD''")
    (simp_all only: http_redirect_on_def Let_def rs_header_def mk_response_simps
      map_of_set_header if_True if_False simp_thms, simp_all)

lemma http_redirect_fields [simp]:
  "rs_status (http_redirect r u) = 302" "rs_cookies (http_redirect r u) = []"
  "rs_header (http_redirect r u) ''Location'' = Some (redirect_location u)"
  by (simp_all only: http_redirect_def http_redirect_on_fields http_redirect_on_location)

text \<open>A rooted target stays rooted on this origin: cleaning never yields a second slash in front.\<close>

lemma clean_parts_nonempty:
  "\<forall>p\<in>set acc. p \<noteq> [] \<and> d \<notin> set p \<Longrightarrow> \<forall>p\<in>set ps. d \<notin> set p \<Longrightarrow>
    \<forall>p\<in>set (clean_parts acc ps). p \<noteq> [] \<and> d \<notin> set p"
proof (induction acc ps rule: clean_parts.induct)
  case (1 acc)
  then show ?case by simp
next
  case (2 acc p ps)
  have ps: "\<forall>q\<in>set ps. d \<notin> set q" and p: "d \<notin> set p" using 2(5) by simp_all
  consider "p = [] \<or> p = ''.''" | "\<not> (p = [] \<or> p = ''.'')" "p = ''..''"
    | "\<not> (p = [] \<or> p = ''.'')" "p \<noteq> ''..''" by blast
  then show ?case
  proof cases
    case 1
    from 2(1) [OF 1 2(4) ps] 1 show ?thesis by (simp only: clean_parts.simps if_True)
  next
    case b: 2
    have "\<forall>q\<in>set (drop 1 acc). q \<noteq> [] \<and> d \<notin> set q" using 2(4) by (meson in_set_dropD)
    from 2(2) [OF b this ps] b show ?thesis by (simp only: clean_parts.simps if_True if_False simp_thms)
  next
    case 3
    then have "\<forall>q\<in>set (p # acc). q \<noteq> [] \<and> d \<notin> set q" using 2(4) p by simp
    from 2(3) [OF 3 this ps] 3 show ?thesis by (simp only: clean_parts.simps if_False)
  qed
qed

lemma split_on_no_d: "w \<in> set (split_on d s) \<Longrightarrow> d \<notin> set w"
  by (induction s arbitrary: w) (auto split: if_splits list.splits)

lemma join_with_hd:
  "ws \<noteq> [] \<Longrightarrow> hd ws \<noteq> [] \<Longrightarrow> join_with d ws \<noteq> [] \<and> hd (join_with d ws) = hd (hd ws)"
  by (induction d ws rule: join_with.induct) auto

lemma clean_rooted_single_slash: "\<not> has_prefix (clean_rooted p) ''//''"
proof (cases "clean_parts [] (split_on (CHR ''/'') p)")
  case Nil
  then show ?thesis by (simp add: clean_rooted_def)
next
  case (Cons w ws)
  have "\<forall>p\<in>set (split_on (CHR ''/'') p). CHR ''/'' \<notin> set p" using split_on_no_d by blast
  then have "\<forall>p\<in>set (clean_parts [] (split_on (CHR ''/'') p)). p \<noteq> [] \<and> CHR ''/'' \<notin> set p"
    by (intro clean_parts_nonempty) simp_all
  with Cons have w: "w \<noteq> []" "hd w \<noteq> CHR ''/''" by (auto dest: hd_in_set)
  obtain c cs where j: "join_with ''/'' (w # ws) = c # cs"
    using join_with_hd [of "w # ws"] w(1) by (cases "join_with ''/'' (w # ws)") auto
  have "c = hd w" using join_with_hd [of "w # ws" "''/''"] w(1) j by simp
  with w(2) Cons j show ?thesis by (simp add: clean_rooted_def)
qed

end
