(* ===== verification/Upstreams.thy ===== *)
theory Upstreams
  imports Http_Model
begin

text \<open>
  The interfaces of the outside world, as records of functions over an abstract world \<open>'w\<close>:
  PocketBase behind \<^verbatim>\<open>SlotStore\<close>, \<^verbatim>\<open>SlotManager\<close> and
  \<^verbatim>\<open>KeyStore\<close>, Nomad, JupyterHub, MinIO, and the runtime (clock, randomness,
  cryptographic primitives, file system). A nil interface and a failed type assertion are
  \<open>None\<close>. Nothing is assumed of the functions here; a property that relies on what a service
  documents says so in a hypothesis. The state of the process is the world, the magic-code table
  and the log level; the record also keeps what was logged and which upstream calls were made, so
  that properties can speak about both.
\<close>

section \<open>Errors\<close>

datatype hub_error_kind = HubHTTPError | HubUnreachable

datatype go_error =
    ErrText gostring
  | ErrInvalidToken
  | ErrVarNotFound
  | ErrNotExist gostring
  | ErrHub hub_error_kind int gostring gostring

fun error_text :: "go_error \<Rightarrow> gostring" where
  "error_text (ErrText t) = t"
| "error_text ErrInvalidToken = ''invalid or expired nomad token''"
| "error_text ErrVarNotFound = ''nomad variable not found''"
| "error_text (ErrNotExist t) = t"
| "error_text (ErrHub HubHTTPError st b e) = ''hub mint failed: HTTP '' @ itoa st"
| "error_text (ErrHub HubUnreachable st b e) = ''hub unreachable: '' @ e"

definition err_reason :: "(go_error, 'a) result \<Rightarrow> gostring" where
  "err_reason r = (case r of Inl e \<Rightarrow> error_text e | Inr _ \<Rightarrow> ''nil-identity'')"

section \<open>Data exchanged with the upstreams\<close>

record nomad_role =
  role_id :: gostring
  role_name :: gostring

record nomad_token_self =
  nt_name :: gostring
  nt_type :: gostring
  nt_namespace :: gostring
  nt_policies :: "gostring list"
  nt_roles :: "nomad_role list"

record slot =
  sl_id :: gostring
  sl_slot_name :: gostring
  sl_group :: gostring
  sl_group_name :: gostring
  sl_nomad_token_secret :: gostring
  sl_nomad_token_accessor :: gostring
  sl_minio_access_key :: gostring
  sl_minio_secret_key :: gostring
  sl_state :: gostring
  sl_cred_source :: gostring
  sl_opaque_token_hash :: gostring
  sl_config_yaml :: gostring
  sl_claim_code :: gostring
  sl_claimed_by_name :: gostring
  sl_claimed_by_email :: gostring
  sl_claimed_at :: gostring

record group_key =
  gk_name :: gostring
  gk_recipient :: gostring
  gk_sk_wrapped :: gostring
  gk_version :: int
  gk_alg :: gostring
  gk_has_key :: bool

record jh_token =
  jh_token_value :: gostring
  jh_id :: gostring
  jh_expires_at :: gostring
  jh_scopes :: "gostring list option"
  jh_note :: gostring

record cluster_info =
  cl_name :: gostring
  cl_nomad_endpoint :: gostring
  cl_minio_endpoint :: gostring
  cl_upload_endpoint :: gostring
  cl_auth_endpoint :: gostring
  cl_datacenter :: gostring
  cl_head_pool :: gostring
  cl_worker_pool :: gostring

section \<open>Interfaces\<close>

type_synonym ('w, 'a) call = "'w \<Rightarrow> (go_error, 'a) result \<times> 'w"
type_synonym patch = "(gostring \<times> json) list"

record 'w slot_manager =
  sm_get_slot :: "gostring \<Rightarrow> ('w, slot) call"
  sm_patch_slot :: "gostring \<Rightarrow> patch \<Rightarrow> ('w, unit) call"
  sm_invalidate :: "gostring \<Rightarrow> 'w \<Rightarrow> 'w"
  sm_list_slots :: "gostring \<Rightarrow> int \<Rightarrow> ('w, slot list) call"

record 'w key_store =
  ks_group_key_record :: "gostring \<Rightarrow> ('w, group_key) call"
  ks_put_group_key :: "gostring \<Rightarrow> gostring \<Rightarrow> gostring \<Rightarrow> int \<Rightarrow> gostring \<Rightarrow> ('w, unit) call"

record 'w slot_store =
  ss_find_slot :: "gostring \<Rightarrow> ('w, slot option) call"
  ss_group_name :: "slot \<Rightarrow> 'w \<Rightarrow> gostring \<times> 'w"
  ss_cached_state :: "gostring \<Rightarrow> 'w \<Rightarrow> gostring \<times> 'w"
  ss_manager :: "'w slot_manager option"
  ss_keys :: "'w key_store option"
  ss_pb_get :: "(gostring \<Rightarrow> ('w, gostring) call) option"

record 'w nomad_admin =
  na_var_get :: "gostring \<Rightarrow> gostring \<Rightarrow> ('w, gostring) call"
  na_var_put :: "gostring \<Rightarrow> gostring \<Rightarrow> gostring \<Rightarrow> ('w, unit) call"
  na_create_token :: "gostring \<Rightarrow> gostring \<Rightarrow> ('w, gostring \<times> gostring) call"
  na_delete_token :: "gostring \<Rightarrow> ('w, unit) call"
  na_get_role_id :: "gostring \<Rightarrow> ('w, gostring) call"

record 'w hub =
  hub_mint :: "gostring \<Rightarrow> gostring \<Rightarrow> int \<Rightarrow> ('w, jh_token) call"
  hub_user_exists :: "(gostring \<Rightarrow> ('w, bool option) call) option"
  hub_stop_server :: "(gostring \<Rightarrow> ('w, unit) call) option"

record 'w minio =
  mi_validate :: "gostring \<Rightarrow> gostring \<Rightarrow> ('w, bool) call"
  mi_console_login :: "(gostring \<Rightarrow> gostring \<Rightarrow> ('w, gostring) call) option"

record 'w minio_admin =
  ma_rotate_secret :: "gostring \<Rightarrow> ('w, gostring) call"
  ma_set_enabled :: "gostring \<Rightarrow> bool \<Rightarrow> ('w, unit) call"

record 'w upstreams =
  up_nomad :: "gostring \<Rightarrow> ('w, nomad_token_self option) call"
  up_nomad_admin :: "'w nomad_admin option"
  up_hub :: "'w hub"
  up_store :: "'w slot_store option"
  up_minio :: "'w minio"
  up_minio_admin :: "'w minio_admin option"
  up_cluster :: cluster_info
  up_hub_public_url :: gostring

text \<open>The runtime: \<open>rt_now\<close> is the wall clock in nanoseconds since the epoch,
  \<open>rt_b64_error\<close> the text of the error that decoding malformed base64 reports, \<open>rt_float\<close> what
  Go prints for a JSON number decoded as \<^verbatim>\<open>float64\<close>, \<open>rt_is_print\<close> the Unicode
  table of printable characters.\<close>

record 'w runtime =
  rt_now :: "'w \<Rightarrow> int \<times> 'w"
  rt_rand :: "nat \<Rightarrow> ('w, gostring) call"
  rt_hmac_sha256 :: "gostring \<Rightarrow> gostring \<Rightarrow> gostring"
  rt_sha256 :: "gostring \<Rightarrow> gostring"
  rt_hkdf :: "gostring \<Rightarrow> gostring \<Rightarrow> gostring \<Rightarrow> (go_error, gostring) result"
  rt_gcm_seal :: "gostring \<Rightarrow> gostring \<Rightarrow> gostring \<Rightarrow> gostring \<Rightarrow> gostring"
  rt_gcm_open :: "gostring \<Rightarrow> gostring \<Rightarrow> gostring \<Rightarrow> gostring \<Rightarrow> (go_error, gostring) result"
  rt_age_identity :: "('w, gostring \<times> gostring) call"
  rt_b64_error :: "gostring \<Rightarrow> gostring"
  rt_float :: "gostring \<Rightarrow> gostring option"
  rt_is_print :: "nat \<Rightarrow> bool"
  rt_mkdir_all :: "gostring \<Rightarrow> ('w, unit) call"
  rt_chmod :: "gostring \<Rightarrow> ('w, unit) call"
  rt_write_file :: "gostring \<Rightarrow> gostring \<Rightarrow> ('w, unit) call"
  rt_remove :: "gostring \<Rightarrow> ('w, unit) call"

section \<open>Log records\<close>

text \<open>\<open>AAny\<close> is an attribute of any other kind, with the text the JSON handler prints for it.\<close>

datatype attr =
    AStr gostring gostring
  | AInt gostring int
  | ABool gostring bool
  | AGroup gostring "attr list"
  | AAny gostring gostring

record log_record =
  lg_level :: int
  lg_msg :: gostring
  lg_attrs :: "attr list"

definition L1 :: int where "L1 = 0"
definition L2 :: int where "L2 = -4"
definition L3 :: int where "L3 = -8"

section \<open>Upstream calls\<close>

datatype upcall =
    FindSlot gostring
  | GroupName gostring
  | CachedState gostring
  | GetSlot gostring
  | PatchSlot gostring patch
  | InvalidateState gostring
  | ListSlots gostring int
  | PbGet gostring
  | GroupKeyRecord gostring
  | PutGroupKey gostring gostring gostring int gostring
  | LookupToken gostring
  | VarGet gostring gostring
  | VarPut gostring gostring gostring
  | CreateToken gostring gostring
  | DeleteToken gostring
  | GetRoleID gostring
  | MintUserToken gostring gostring int
  | UserExists gostring
  | StopServer gostring
  | ValidateCred gostring gostring
  | ConsoleLogin gostring gostring
  | RotateSecret gostring
  | SetEnabled gostring bool
  | MkdirAll gostring
  | Chmod gostring
  | WriteFile gostring gostring
  | RemoveFile gostring
  | ReadClock
  | ReadRandom nat
  | AgeGenerate
  | ShadowCall gostring gostring

section \<open>The state of the process\<close>

record magic_code =
  mc_username :: gostring
  mc_expiry :: int
  mc_next_url :: gostring
  mc_extra :: "gostring \<rightharpoonup> gostring"

record 'w st =
  st_world :: 'w
  st_codes :: "gostring \<rightharpoonup> magic_code"
  st_level :: "int option"
  st_log :: "log_record list"
  st_calls :: "(upcall \<times> bool) list"

definition is_ok :: "(go_error, 'a) result \<Rightarrow> bool" where
  "is_ok r = (case r of Inl _ \<Rightarrow> False | Inr _ \<Rightarrow> True)"

lemma is_ok_simps [simp]: "is_ok (Inl e) = False" "is_ok (Inr x) = True"
  by (simp_all add: is_ok_def)

definition io :: "upcall \<Rightarrow> ('w, 'a) call \<Rightarrow> 'w st \<Rightarrow> (go_error, 'a) result \<times> 'w st" where
  "io c f s =
     (case f (st_world s) of
        (r, w) \<Rightarrow> (r, s\<lparr>st_world := w, st_calls := st_calls s @ [(c, is_ok r)]\<rparr>))"

definition io_total :: "upcall \<Rightarrow> ('w \<Rightarrow> 'a \<times> 'w) \<Rightarrow> 'w st \<Rightarrow> 'a \<times> 'w st" where
  "io_total c f s =
     (case f (st_world s) of
        (r, w) \<Rightarrow> (r, s\<lparr>st_world := w, st_calls := st_calls s @ [(c, True)]\<rparr>))"

definition log_at :: "int \<Rightarrow> gostring \<Rightarrow> attr list \<Rightarrow> 'w st \<Rightarrow> 'w st" where
  "log_at lv m as s = s\<lparr>st_log := st_log s @ [\<lparr>lg_level = lv, lg_msg = m, lg_attrs = as\<rparr>]\<rparr>"

text \<open>The idiom \<^verbatim>\<open>if err := op; err != nil { log }\<close>.\<close>

definition best_effort ::
  "upcall \<Rightarrow> ('w, unit) call \<Rightarrow> gostring \<Rightarrow> attr list \<Rightarrow> 'w st \<Rightarrow> 'w st" where
  "best_effort c f m as s =
     (case io c f s of
        (Inl e, s1) \<Rightarrow> log_at L1 m (as @ [AStr ''error'' (error_text e)]) s1
      | (Inr _, s1) \<Rightarrow> s1)"

definition silent :: "upcall \<Rightarrow> ('w, unit) call \<Rightarrow> 'w st \<Rightarrow> 'w st" where
  "silent c f s = snd (io c f s)"

lemma io_fields [io_simps]:
  "st_codes (snd (io c f s)) = st_codes s"
  "st_level (snd (io c f s)) = st_level s"
  "st_log (snd (io c f s)) = st_log s"
  "st_calls (snd (io c f s)) = st_calls s @ [(c, is_ok (fst (io c f s)))]"
  "st_world (snd (io c f s)) = snd (f (st_world s))"
  "fst (io c f s) = fst (f (st_world s))"
  by (simp_all add: io_def split: prod.split)

lemma io_total_fields [io_simps]:
  "st_codes (snd (io_total c f s)) = st_codes s"
  "st_level (snd (io_total c f s)) = st_level s"
  "st_log (snd (io_total c f s)) = st_log s"
  "st_calls (snd (io_total c f s)) = st_calls s @ [(c, True)]"
  "st_world (snd (io_total c f s)) = snd (f (st_world s))"
  "fst (io_total c f s) = fst (f (st_world s))"
  by (simp_all add: io_total_def split: prod.split)

lemma log_at_fields [simp]:
  "st_world (log_at lv m as s) = st_world s"
  "st_codes (log_at lv m as s) = st_codes s"
  "st_level (log_at lv m as s) = st_level s"
  "st_calls (log_at lv m as s) = st_calls s"
  "st_log (log_at lv m as s) = st_log s @ [\<lparr>lg_level = lv, lg_msg = m, lg_attrs = as\<rparr>]"
  by (simp_all add: log_at_def)

lemma io_eqD:
  assumes "io c f s = (r, s1)"
  shows "f (st_world s) = (r, st_world s1)" and "st_codes s1 = st_codes s"
    and "st_level s1 = st_level s" and "st_log s1 = st_log s"
    and "st_calls s1 = st_calls s @ [(c, is_ok r)]"
  using assms by (auto simp: io_def split: prod.splits)

lemma io_total_eqD:
  assumes "io_total c f s = (r, s1)"
  shows "f (st_world s) = (r, st_world s1)" and "st_codes s1 = st_codes s"
    and "st_level s1 = st_level s" and "st_log s1 = st_log s"
    and "st_calls s1 = st_calls s @ [(c, True)]"
  using assms by (auto simp: io_total_def split: prod.splits)

lemma best_effort_fields [io_simps]:
  "st_codes (best_effort c f m as s) = st_codes s"
  "st_level (best_effort c f m as s) = st_level s"
  "st_calls (best_effort c f m as s) = st_calls s @ [(c, is_ok (fst (f (st_world s))))]"
  "st_world (best_effort c f m as s) = snd (f (st_world s))"
  by (cases "f (st_world s)"; simp add: best_effort_def io_def split: sum.split)+

lemma best_effort_log:
  "st_log (best_effort c f m as s) = st_log s
    @ (case fst (f (st_world s)) of
         Inl e \<Rightarrow> [\<lparr>lg_level = L1, lg_msg = m, lg_attrs = as @ [AStr ''error'' (error_text e)]\<rparr>]
       | Inr _ \<Rightarrow> [])"
  by (cases "f (st_world s)") (simp add: best_effort_def io_def split: sum.split)

section \<open>Configuration and server\<close>

text \<open>\<open>sv_shadow url cookie uri\<close> is the shadow HTTP client: the status and the
  \<^verbatim>\<open>Remote-User\<close> header of the reference \<^verbatim>\<open>/validate\<close>.\<close>

record config =
  cf_session_secret :: gostring
  cf_session_ttl :: int
  cf_cookie_secure :: bool
  cf_cookie_domain :: gostring
  cf_shadow_validate_url :: gostring
  cf_cli_token_ttl :: int
  cf_operator_token :: gostring
  cf_root_mk_b64 :: gostring
  cf_log_level :: int
  cf_jupyterhub_admin_token :: gostring
  cf_jupyterhub_api_url :: gostring
  cf_mock_upstreams :: bool

record 'w server =
  sv_cfg :: config
  sv_up :: "'w upstreams"
  sv_rt :: "'w runtime"
  sv_shadow :: "gostring \<Rightarrow> gostring \<Rightarrow> gostring \<Rightarrow> ('w, nat \<times> gostring) call"

definition manager_of :: "'w server \<Rightarrow> 'w slot_manager option" where
  "manager_of sv = (case up_store (sv_up sv) of None \<Rightarrow> None | Some ss \<Rightarrow> ss_manager ss)"

definition clock :: "'w server \<Rightarrow> 'w st \<Rightarrow> int \<times> 'w st" where
  "clock sv s = io_total ReadClock (rt_now (sv_rt sv)) s"

definition second :: int where "second = 1000000000"

text \<open>\<^verbatim>\<open>Time.Unix()\<close>: whole seconds, rounded down.\<close>

definition unix_seconds :: "int \<Rightarrow> int" where
  "unix_seconds t = t div second"

definition sha256_hex :: "'w server \<Rightarrow> gostring \<Rightarrow> gostring" where
  "sha256_hex sv t = hex_encode (rt_sha256 (sv_rt sv) t)"

section \<open>Store queries\<close>

definition eq_filter :: "gostring \<Rightarrow> gostring \<Rightarrow> gostring" where
  "eq_filter field v = field @ [CHR ''='', chr_of 39] @ v @ [chr_of 39]"

section \<open>Bearer tokens\<close>

text \<open>The two ways a caller presents a Nomad token, and the opaque bearer of the broker.\<close>

definition bearer_value :: "gostring \<Rightarrow> gostring option" where
  "bearer_value a =
     (if 7 \<le> length a \<and> equal_fold_ascii (take 7 a) ''bearer '' then Some (trim_space (drop 7 a))
      else None)"

definition nomad_token_from_request :: "request \<Rightarrow> gostring" where
  "nomad_token_from_request r =
     (let t = trim_space (rq_header r ''X-Nomad-Token'') in
      if t \<noteq> [] then t
      else (case bearer_value (rq_header r ''Authorization'') of None \<Rightarrow> [] | Some b \<Rightarrow> b))"

end
