(* ===== verification/Session.thy ===== *)
theory Session
  imports Upstreams
begin

text \<open>
  \<^verbatim>\<open>session.go\<close>: the signed \<^verbatim>\<open>abc_session\<close> cookie. A token is the
  base64url text of \<open>username:expiry:hex-hmac\<close>; the user name may contain colons, so the two
  last fields are cut from the right. \<open>session_check\<close> is the pure decision at a given time,
  \<open>session_verify\<close> the method with its clock reading. The locale \<open>session_scheme\<close> is what
  login, redemption and \<^verbatim>\<open>/validate\<close> rely on; it is interpreted on the code's token
  functions for every MAC and every non-empty key.
\<close>

section \<open>Tokens\<close>

definition session_cookie_name :: gostring where
  "session_cookie_name = ''abc_session''"

definition hmac_hex :: "(gostring \<Rightarrow> gostring \<Rightarrow> gostring) \<Rightarrow> gostring \<Rightarrow> gostring \<Rightarrow> gostring" where
  "hmac_hex mac key msg = hex_encode (mac key msg)"

definition session_token ::
  "(gostring \<Rightarrow> gostring \<Rightarrow> gostring) \<Rightarrow> gostring \<Rightarrow> gostring \<Rightarrow> int \<Rightarrow> gostring" where
  "session_token mac key username expiry =
     (let payload = username @ '':'' @ itoa expiry
      in b64_url_encode (payload @ '':'' @ hmac_hex mac key payload))"

definition session_make :: "'w server \<Rightarrow> gostring \<Rightarrow> int \<Rightarrow> 'w st \<Rightarrow> gostring \<times> 'w st" where
  "session_make sv username ttl s =
     (case clock sv s of
        (now, s1) \<Rightarrow>
          (session_token (rt_hmac_sha256 (sv_rt sv)) (cf_session_secret (sv_cfg sv)) username
             (unix_seconds (now + ttl)), s1))"

definition decode_b64url :: "gostring \<Rightarrow> gostring option" where
  "decode_b64url s = (case b64_url_decode s of Some d \<Rightarrow> Some d | None \<Rightarrow> b64_rawurl_decode s)"

text \<open>The fields of a token: user name, expiry text, expiry, signature.\<close>

definition session_fields :: "gostring \<Rightarrow> (gostring \<times> gostring \<times> int \<times> gostring) option" where
  "session_fields token =
     (case decode_b64url token of
        None \<Rightarrow> None
      | Some raw \<Rightarrow>
          (case cut_last (CHR '':'') raw of
             None \<Rightarrow> None
           | Some (rest, sig) \<Rightarrow>
               (case cut_last (CHR '':'') rest of
                  None \<Rightarrow> None
                | Some (username, expiry_str) \<Rightarrow>
                    (case parse_int64 expiry_str of
                       None \<Rightarrow> None
                     | Some expiry \<Rightarrow> Some (username, expiry_str, expiry, sig)))))"

definition fields_accept ::
  "(gostring \<Rightarrow> gostring \<Rightarrow> gostring) \<Rightarrow> gostring \<Rightarrow> int
   \<Rightarrow> gostring \<times> gostring \<times> int \<times> gostring \<Rightarrow> gostring option" where
  "fields_accept mac key now_unix fs =
     (case fs of (username, expiry_str, expiry, sig) \<Rightarrow>
        if expiry < now_unix then None
        else if sig \<noteq> hmac_hex mac key (username @ '':'' @ expiry_str) then None
        else Some username)"

definition session_check ::
  "(gostring \<Rightarrow> gostring \<Rightarrow> gostring) \<Rightarrow> gostring \<Rightarrow> gostring \<Rightarrow> int \<Rightarrow> gostring option" where
  "session_check mac key token now_unix =
     (if key = [] \<or> token = [] then None
      else (case session_fields token of
              None \<Rightarrow> None
            | Some fs \<Rightarrow> fields_accept mac key now_unix fs))"

definition session_verify :: "'w server \<Rightarrow> gostring \<Rightarrow> 'w st \<Rightarrow> gostring option \<times> 'w st" where
  "session_verify sv token s =
     (let key = cf_session_secret (sv_cfg sv) in
      if key = [] \<or> token = [] then (None, s)
      else (case session_fields token of
              None \<Rightarrow> (None, s)
            | Some fs \<Rightarrow>
                (case clock sv s of
                   (now, s1) \<Rightarrow>
                     (fields_accept (rt_hmac_sha256 (sv_rt sv)) key (unix_seconds now) fs, s1))))"

lemma session_verify_check:
  "fst (session_verify sv token s) =
     session_check (rt_hmac_sha256 (sv_rt sv)) (cf_session_secret (sv_cfg sv)) token
       (unix_seconds (fst (rt_now (sv_rt sv) (st_world s))))"
  by (simp add: session_verify_def session_check_def clock_def io_total_def Let_def
      split: option.split prod.split)

section \<open>Cookies\<close>

definition whole_seconds :: "int \<Rightarrow> int" where
  "whole_seconds d = sgn d * (\<bar>d\<bar> div second)"

definition session_cookie :: "config \<Rightarrow> gostring \<Rightarrow> int \<Rightarrow> cookie" where
  "session_cookie cfg v age =
     \<lparr>ck_name = session_cookie_name, ck_value = v, ck_path = ''/'', ck_domain = cf_cookie_domain cfg,
      ck_max_age = age, ck_http_only = True, ck_same_site_lax = True,
      ck_secure = cf_cookie_secure cfg\<rparr>"

definition set_session_cookie :: "config \<Rightarrow> gostring \<Rightarrow> cookie" where
  "set_session_cookie cfg token =
     session_cookie cfg token (whole_seconds (cf_session_ttl cfg))"

definition clear_session_cookie :: "config \<Rightarrow> cookie" where
  "clear_session_cookie cfg = session_cookie cfg [] (-1)"

section \<open>Padded and unpadded base64\<close>

lemma b64_enc_unpadded_length:
  "length (b64_enc al False s) mod 4 = (if length s mod 3 = 0 then 0 else length s mod 3 + 1)"
proof (induction al "False" s rule: b64_enc.induct)
  case (4 al a b c cs)
  then show ?case by (simp add: Let_def mod_Suc) presburger
qed (simp_all add: Let_def)

lemma b64_enc_unpadded_eq: "length s mod 3 = 0 \<Longrightarrow> b64_enc al False s = b64_enc al True s"
proof (induction al "False" s rule: b64_enc.induct)
  case (4 al a b c cs)
  then have "length cs mod 3 = 0" by (simp add: mod_Suc split: if_splits)
  with 4 show ?case by (simp add: Let_def)
qed simp_all

lemma b64_url_decode_raw:
  "length s mod 3 \<noteq> 0 \<Longrightarrow> b64_url_decode (b64_rawurl_encode s) = None"
proof (rule ccontr)
  let ?e = "b64_enc b64_url False s"
  assume m: "length s mod 3 \<noteq> 0" and "b64_url_decode (b64_rawurl_encode s) \<noteq> None"
  then obtain t where t: "b64_dec b64_url True ?e = Some t"
    by (auto simp: b64_url_decode_def b64_rawurl_encode_def)
  have "filter (\<lambda>c. byte c \<noteq> 10 \<and> byte c \<noteq> 13) ?e = ?e"
    using b64_enc_no_newline [OF b64_alphabet_url] by (simp add: filter_id_conv)
  with t have "b64_dec_raw b64_url True ?e = Some t" by (simp add: b64_dec_def)
  then have "length ?e mod 4 = 0" by (rule b64_dec_raw_padded_length)
  then show False using m by (simp add: b64_enc_unpadded_length)
qed

lemma decode_b64url_padded: "decode_b64url (b64_url_encode s) = Some s"
  by (simp add: decode_b64url_def b64url.dec_enc)

lemma decode_b64url_unpadded: "decode_b64url (b64_rawurl_encode s) = Some s"
proof (cases "length s mod 3 = 0")
  case True
  then have "b64_rawurl_encode s = b64_url_encode s"
    by (simp add: b64_rawurl_encode_def b64_url_encode_def b64_enc_unpadded_eq)
  then show ?thesis by (simp add: decode_b64url_padded)
next
  case False
  then show ?thesis by (simp add: decode_b64url_def b64_url_decode_raw b64raw.dec_enc)
qed

section \<open>What verification accepts\<close>

lemma hex_no_colon: "CHR '':'' \<notin> set (hex_encode s)"
proof -
  have "CHR '':'' \<notin> set hex_digits" by code_simp
  then show ?thesis by (rule hex.enc_avoids)
qed

lemma hmac_hex_no_colon [simp]: "CHR '':'' \<notin> set (hmac_hex mac key m)"
  by (simp add: hmac_hex_def hex_no_colon)

lemma parse_int64_no_colon: "parse_int64 s = Some n \<Longrightarrow> CHR '':'' \<notin> set s"
proof
  assume p: "parse_int64 s = Some n" and "CHR '':'' \<in> set s"
  define ds where "ds = (if has_prefix s ''-'' \<or> has_prefix s ''+'' then tl s else s)"
  have "CHR '':'' \<in> set ds"
    using \<open>CHR '':'' \<in> set s\<close> by (cases s) (auto simp: ds_def)
  moreover from p have "list_all is_digit ds"
    by (simp add: parse_int64_def ds_def Let_def split: if_splits)
  ultimately have "is_digit (CHR '':'')" by (simp add: list_all_iff)
  then show False using digit_not_sign by blast
qed

lemma session_fields_iff:
  "session_fields token = Some (u, es, e, sig) \<longleftrightarrow>
     decode_b64url token = Some (u @ '':'' @ es @ '':'' @ sig)
     \<and> CHR '':'' \<notin> set sig \<and> parse_int64 es = Some e"
proof
  assume "session_fields token = Some (u, es, e, sig)"
  then show "decode_b64url token = Some (u @ '':'' @ es @ '':'' @ sig)
     \<and> CHR '':'' \<notin> set sig \<and> parse_int64 es = Some e"
    by (auto simp: session_fields_def cut_last_Some split: option.splits prod.splits)
next
  assume h: "decode_b64url token = Some (u @ '':'' @ es @ '':'' @ sig)
     \<and> CHR '':'' \<notin> set sig \<and> parse_int64 es = Some e"
  then have "cut_last (CHR '':'') ((u @ '':'' @ es) @ CHR '':'' # sig) = Some (u @ '':'' @ es, sig)"
    by (intro cut_last_append) blast
  moreover from h have "cut_last (CHR '':'') (u @ CHR '':'' # es) = Some (u, es)"
    using parse_int64_no_colon by (intro cut_last_append) blast
  ultimately show "session_fields token = Some (u, es, e, sig)"
    using h by (simp add: session_fields_def)
qed

lemma session_check_iff:
  "session_check mac key token now = Some u \<longleftrightarrow>
     key \<noteq> [] \<and> token \<noteq> []
     \<and> (\<exists>es e. decode_b64url token
                  = Some (u @ '':'' @ es @ '':'' @ hmac_hex mac key (u @ '':'' @ es))
                \<and> parse_int64 es = Some e \<and> now \<le> e)"
proof
  assume h: "session_check mac key token now = Some u"
  then obtain u' es e sig where f: "session_fields token = Some (u', es, e, sig)"
    and a: "fields_accept mac key now (u', es, e, sig) = Some u" and k: "key \<noteq> []" "token \<noteq> []"
    by (auto simp: session_check_def split: if_splits option.splits)
  from a have "u' = u" "now \<le> e" "sig = hmac_hex mac key (u @ '':'' @ es)"
    by (auto simp: fields_accept_def split: if_splits)
  with f k show "key \<noteq> [] \<and> token \<noteq> []
     \<and> (\<exists>es e. decode_b64url token
                  = Some (u @ '':'' @ es @ '':'' @ hmac_hex mac key (u @ '':'' @ es))
                \<and> parse_int64 es = Some e \<and> now \<le> e)"
    by (auto simp: session_fields_iff)
next
  assume h: "key \<noteq> [] \<and> token \<noteq> []
     \<and> (\<exists>es e. decode_b64url token
                  = Some (u @ '':'' @ es @ '':'' @ hmac_hex mac key (u @ '':'' @ es))
                \<and> parse_int64 es = Some e \<and> now \<le> e)"
  then obtain es e where "session_fields token = Some (u, es, e, hmac_hex mac key (u @ '':'' @ es))"
    and "now \<le> e" by (auto simp: session_fields_iff)
  with h show "session_check mac key token now = Some u"
    by (simp add: session_check_def fields_accept_def)
qed

lemma session_token_nonempty: "session_token mac key u e \<noteq> []"
proof
  assume "session_token mac key u e = []"
  then have "decode_b64url [] = Some (u @ '':'' @ itoa e @ '':'' @ hmac_hex mac key (u @ '':'' @ itoa e))"
    using decode_b64url_padded [of "u @ '':'' @ itoa e @ '':'' @ hmac_hex mac key (u @ '':'' @ itoa e)"]
    by (simp add: session_token_def Let_def)
  moreover have "decode_b64url [] = Some []"
    by (simp add: decode_b64url_def b64_url_decode_def b64_dec_def)
  ultimately show False by simp
qed

lemma session_token_fields:
  "in_int64 e \<Longrightarrow>
    session_fields (session_token mac key u e) =
      Some (u, itoa e, e, hmac_hex mac key (u @ '':'' @ itoa e))"
  using decode_b64url_padded
  by (simp add: session_fields_iff session_token_def Let_def parse_int64_itoa)

lemma session_check_token:
  "key \<noteq> [] \<Longrightarrow> in_int64 e \<Longrightarrow>
    session_check mac key (session_token mac key u e) now = (if now \<le> e then Some u else None)"
  by (simp add: session_check_def session_token_nonempty session_token_fields fields_accept_def)

section \<open>The contract of sessions\<close>

locale session_scheme =
  fixes mk :: "gostring \<Rightarrow> int \<Rightarrow> gostring"
    and vf :: "gostring \<Rightarrow> int \<Rightarrow> gostring option"
  assumes vf_mk: "in_int64 e \<Longrightarrow> vf (mk u e) now = (if now \<le> e then Some u else None)"
    and vf_earlier: "vf t now = Some u \<Longrightarrow> now' \<le> now \<Longrightarrow> vf t now' = Some u"
begin

lemma mk_user: "in_int64 e \<Longrightarrow> in_int64 f \<Longrightarrow> mk u e = mk v f \<Longrightarrow> u = v"
proof -
  assume e: "in_int64 e" and f: "in_int64 f" and eq: "mk u e = mk v f"
  have "vf (mk u e) (min e f) = Some u" using e by (simp add: vf_mk)
  moreover have "vf (mk v f) (min e f) = Some v" using f by (simp add: vf_mk)
  ultimately show "u = v" using eq by simp
qed

lemma vf_user: "vf t now = Some u \<Longrightarrow> vf t now' = Some v \<Longrightarrow> u = v"
  by (cases "now \<le> now'") (auto dest: vf_earlier [of t _ _ now] vf_earlier [of t _ _ now'])

lemma vf_expires: "vf t now = None \<Longrightarrow> now \<le> now' \<Longrightarrow> vf t now' = None"
  by (metis not_None_eq vf_earlier)

end

interpretation sess: session_scheme "session_token mac (k # ks)" "session_check mac (k # ks)"
  for mac k ks
proof unfold_locales
  fix e u now
  show "in_int64 e \<Longrightarrow> session_check mac (k # ks) (session_token mac (k # ks) u e) now
      = (if now \<le> e then Some u else None)"
    by (rule session_check_token) simp_all
next
  fix t now u now'
  show "session_check mac (k # ks) t now = Some u \<Longrightarrow> now' \<le> now
      \<Longrightarrow> session_check mac (k # ks) t now' = Some u"
    by (simp add: session_check_iff) (meson order_trans)
qed

section \<open>Properties\<close>

text \<open>What the session check accepts. With a key configured, a token names a user exactly
  when it decodes, padded or not, to \<^verbatim>\<open>user:expiry:signature\<close> with the hexadecimal MAC of
  \<^verbatim>\<open>user:expiry\<close> under the key and an expiry, written in decimal, that the clock has not
  passed. A user name with colons is no exception.\<close>

lemma session_verify_accepts:
  "fst (session_verify sv tok s) = Some u \<longleftrightarrow>
     cf_session_secret (sv_cfg sv) \<noteq> [] \<and> tok \<noteq> []
     \<and> (\<exists>es e. decode_b64url tok
            = Some (u @ '':'' @ es @ '':''
                @ hmac_hex (rt_hmac_sha256 (sv_rt sv)) (cf_session_secret (sv_cfg sv)) (u @ '':'' @ es))
          \<and> parse_int64 es = Some e
          \<and> unix_seconds (fst (rt_now (sv_rt sv) (st_world s))) \<le> e)"
  by (simp add: session_verify_check session_check_iff)

text \<open>\<open>C12\<close>: a minted session is good until its expiry and not after, for every user name, every
  MAC, every non-empty key and every expiry of 64 bits; and two minted tokens are equal only if
  they name the same user.\<close>

theorem session_round_trip:
  "session_check mac (k # ks) (session_token mac (k # ks) u (wrap64 n)) now
     = (if now \<le> wrap64 n then Some u else None)
   \<and> (session_token mac (k # ks) u (wrap64 n) = session_token mac (k # ks) v (wrap64 m)
        \<longleftrightarrow> u = v \<and> wrap64 n = wrap64 m)"
proof (intro conjI iffI)
  show "session_check mac (k # ks) (session_token mac (k # ks) u (wrap64 n)) now
      = (if now \<le> wrap64 n then Some u else None)"
    by (rule sess.vf_mk) simp
next
  assume eq: "session_token mac (k # ks) u (wrap64 n) = session_token mac (k # ks) v (wrap64 m)"
  show "u = v" by (rule sess.mk_user [OF _ _ eq]) simp_all
  have "session_fields (session_token mac (k # ks) w (wrap64 i)) =
      Some (w, itoa (wrap64 i), wrap64 i, hmac_hex mac (k # ks) (w @ '':'' @ itoa (wrap64 i)))" for w i
    by (rule session_token_fields) simp
  from this [of u n] this [of v m] show "wrap64 n = wrap64 m"
    unfolding eq by (simp only: option.inject prod.inject)
qed simp

end
