(* ===== verification/Validate.thy ===== *)
theory Validate
  imports Session
begin

text \<open>
  \<^verbatim>\<open>validate.go\<close>: the forward-auth decision and its three endpoints.
  \<open>decide_validate\<close> is the code path they share; it reads the cookie, verifies it, and asks the
  slot-state cache. \<open>admitted\<close> is the specification of the decision in terms of the cookie's
  signature and the slot state.
\<close>

section \<open>The decision\<close>

record verdict =
  vd_allow :: bool
  vd_user :: gostring
  vd_deny_state :: gostring
  vd_clear_cookie :: bool

definition no_verdict :: verdict where
  "no_verdict = \<lparr>vd_allow = False, vd_user = [], vd_deny_state = [], vd_clear_cookie = False\<rparr>"

definition blocked_state :: "gostring \<Rightarrow> bool" where
  "blocked_state st \<longleftrightarrow> st = ''suspended'' \<or> st = ''expired''"

definition slot_state :: "'w server \<Rightarrow> gostring \<Rightarrow> 'w st \<Rightarrow> gostring \<times> 'w st" where
  "slot_state sv username s =
     (case up_store (sv_up sv) of
        None \<Rightarrow> (''none'', s)
      | Some ss \<Rightarrow> io_total (CachedState username) (ss_cached_state ss username) s)"

definition decide_validate :: "'w server \<Rightarrow> request \<Rightarrow> 'w st \<Rightarrow> verdict \<times> 'w st" where
  "decide_validate sv r s =
     (let tok = value_of (rq_cookies r) session_cookie_name in
      if tok = [] then (no_verdict, log_at L2 ''validate.decide'' [AStr ''result'' ''no_cookie''] s)
      else (case session_verify sv tok s of
          (None, s1) \<Rightarrow>
            (no_verdict, log_at L2 ''validate.decide'' [AStr ''result'' ''bad_signature''] s1)
        | (Some username, s1) \<Rightarrow>
            (case slot_state sv username s1 of
               (st, s2) \<Rightarrow>
                 if blocked_state st
                 then (no_verdict\<lparr>vd_deny_state := st, vd_clear_cookie := True\<rparr>,
                       log_at L2 ''validate.decide''
                         [AStr ''result'' ''blocked'', AStr ''user'' username, AStr ''state'' st] s2)
                 else (no_verdict\<lparr>vd_allow := True, vd_user := username\<rparr>,
                       log_at L2 ''validate.decide''
                         [AStr ''result'' ''allow'', AStr ''user'' username, AStr ''state'' st] s2))))"

section \<open>The endpoints\<close>

definition set_auth_user ::
  "gostring \<Rightarrow> (gostring \<times> gostring) list \<Rightarrow> (gostring \<times> gostring) list" where
  "set_auth_user u hs =
     set_header ''X-WEBAUTH-USER'' u (set_header ''Remote-User'' u (set_header ''X-Auth-User'' u hs))"

definition handle_validate :: "'w server \<Rightarrow> request \<Rightarrow> 'w st \<Rightarrow> response \<times> 'w st" where
  "handle_validate sv r s =
     (case decide_validate sv r s of
        (v, s1) \<Rightarrow>
          if vd_allow v then (mk_response 200 (set_auth_user (vd_user v) []) [] NoBody, s1)
          else if vd_deny_state v \<noteq> []
          then (mk_response 302 (set_header ''Location'' ''/auth/login'' [])
                  [clear_session_cookie (sv_cfg sv)] NoBody,
                log_at L1 ''validate.denied'' [AStr ''state'' (vd_deny_state v)] s1)
          else (let orig0 = rq_header r ''X-Forwarded-Uri'';
                    orig = (if orig0 = [] then ''/'' else orig0)
                in (mk_response 302
                      (set_header ''Location'' (''/auth/login?next='' @ query_escape orig) []) [] NoBody,
                    s1)))"

definition handle_validate_optional :: "'w server \<Rightarrow> request \<Rightarrow> 'w st \<Rightarrow> response \<times> 'w st" where
  "handle_validate_optional sv r s =
     (case decide_validate sv r s of
        (v, s1) \<Rightarrow>
          (mk_response 200 (if vd_allow v then set_auth_user (vd_user v) [] else []) [] NoBody, s1))"

definition verdict_http :: "verdict \<Rightarrow> nat \<times> gostring" where
  "verdict_http v = (if vd_allow v then (200, vd_user v) else (302, []))"

definition call_shadow ::
  "'w server \<Rightarrow> request \<Rightarrow> 'w st \<Rightarrow> (go_error, nat \<times> gostring) result \<times> 'w st" where
  "call_shadow sv r s =
     (let cookie = rq_header r ''Cookie''; uri = rq_header r ''X-Forwarded-Uri'' in
      case io (ShadowCall cookie uri)
             (sv_shadow sv (cf_shadow_validate_url (sv_cfg sv)) cookie uri) s of
        (Inl e, s1) \<Rightarrow> (Inl e, s1)
      | (Inr (code, user), s1) \<Rightarrow> (Inr (code, trim_space user), s1))"

definition handle_validate_shadow :: "'w server \<Rightarrow> request \<Rightarrow> 'w st \<Rightarrow> response \<times> 'w st" where
  "handle_validate_shadow sv r s =
     (case decide_validate sv r s of
        (v, s1) \<Rightarrow>
          (let (go_status, go_user) = verdict_http v;
               s2 =
                 (if cf_shadow_validate_url (sv_cfg sv) = [] then s1
                  else (case call_shadow sv r s1 of
                      (Inl e, t) \<Rightarrow>
                        log_at L1 ''validate.shadow.error'' [AStr ''error'' (error_text e)] t
                    | (Inr (py_status, py_user), t) \<Rightarrow>
                        if py_status \<noteq> go_status \<or> py_user \<noteq> go_user
                        then log_at L1 ''validate.shadow.disagree''
                               [AInt ''go_status'' (int go_status), AStr ''go_user'' go_user,
                                AInt ''py_status'' (int py_status), AStr ''py_user'' py_user] t
                        else log_at L2 ''validate.shadow.agree'' [AInt ''status'' (int go_status)] t))
           in (mk_response go_status (if vd_allow v then set_auth_user (vd_user v) [] else []) []
                 NoBody, s2)))"

section \<open>The specification of the decision\<close>

text \<open>The user a request's cookie names at the time of the request, and the slot state reported
  for that user.\<close>

definition cookie_user :: "'w server \<Rightarrow> request \<Rightarrow> 'w st \<Rightarrow> gostring option" where
  "cookie_user sv r s =
     session_check (rt_hmac_sha256 (sv_rt sv)) (cf_session_secret (sv_cfg sv))
       (value_of (rq_cookies r) session_cookie_name)
       (unix_seconds (fst (rt_now (sv_rt sv) (st_world s))))"

definition reported_state :: "'w server \<Rightarrow> gostring \<Rightarrow> 'w st \<Rightarrow> gostring" where
  "reported_state sv u s =
     (case up_store (sv_up sv) of
        None \<Rightarrow> ''none''
      | Some ss \<Rightarrow> fst (ss_cached_state ss u (snd (rt_now (sv_rt sv) (st_world s)))))"

definition admitted :: "'w server \<Rightarrow> request \<Rightarrow> 'w st \<Rightarrow> gostring \<Rightarrow> bool" where
  "admitted sv r s u \<longleftrightarrow> cookie_user sv r s = Some u \<and> \<not> blocked_state (reported_state sv u s)"

lemma session_verify_world:
  "session_verify sv tok s = (Some u, s1) \<Longrightarrow> st_world s1 = snd (rt_now (sv_rt sv) (st_world s))"
  by (auto simp: session_verify_def clock_def io_total_def Let_def
      split: if_splits option.splits prod.splits)

lemma slot_state_reported:
  assumes "session_verify sv tok s = (Some u, s1)"
  shows "fst (slot_state sv u s1) = reported_state sv u s"
  using session_verify_world [OF assms]
  by (simp add: slot_state_def reported_state_def io_total_def split: option.split prod.split)

lemma session_check_empty [simp]: "session_check mac key [] now = None"
  by (simp add: session_check_def)

lemma decide_validate_cases:
  obtains "cookie_user sv r s = None" and "fst (decide_validate sv r s) = no_verdict"
  | u where "cookie_user sv r s = Some u" and "blocked_state (reported_state sv u s)"
      and "fst (decide_validate sv r s)
             = no_verdict\<lparr>vd_deny_state := reported_state sv u s, vd_clear_cookie := True\<rparr>"
  | u where "admitted sv r s u"
      and "fst (decide_validate sv r s) = no_verdict\<lparr>vd_allow := True, vd_user := u\<rparr>"
proof -
  let ?tok = "value_of (rq_cookies r) session_cookie_name"
  show thesis
  proof (cases "?tok = []")
    case True
    then show thesis using that(1) by (simp add: cookie_user_def decide_validate_def)
  next
    case False
    obtain v s1 where sv: "session_verify sv ?tok s = (v, s1)" by force
    then have cu: "cookie_user sv r s = v"
      using session_verify_check [of sv ?tok s] by (simp add: cookie_user_def)
    show thesis
    proof (cases v)
      case None
      with False sv cu show thesis using that(1) by (simp add: decide_validate_def)
    next
      case (Some u)
      with sv have ver: "session_verify sv ?tok s = (Some u, s1)" by simp
      obtain stt s2 where ss: "slot_state sv u s1 = (stt, s2)" by force
      then have rep: "reported_state sv u s = stt" using slot_state_reported [OF ver] by simp
      from False ver ss cu Some rep show thesis
        using that(2,3) by (cases "blocked_state stt") (simp_all add: decide_validate_def admitted_def)
    qed
  qed
qed

lemma blocked_nonempty: "blocked_state st \<Longrightarrow> st \<noteq> []"
  by (auto simp: blocked_state_def)

lemma decide_validate_allow:
  "vd_allow (fst (decide_validate sv r s)) \<longleftrightarrow> (\<exists>u. admitted sv r s u)"
  by (cases rule: decide_validate_cases [of sv r s]) (auto simp: admitted_def no_verdict_def)

lemma decide_validate_user:
  "admitted sv r s u \<Longrightarrow>
     fst (decide_validate sv r s) = no_verdict\<lparr>vd_allow := True, vd_user := u\<rparr>"
  by (cases rule: decide_validate_cases [of sv r s]) (auto simp: admitted_def)

section \<open>What the endpoints answer\<close>

lemma handle_validate_admitted:
  assumes "admitted sv r s u"
  shows "fst (handle_validate sv r s) = mk_response 200 (set_auth_user u []) [] NoBody"
  using decide_validate_user [OF assms]
  by (cases "decide_validate sv r s") (simp add: handle_validate_def no_verdict_def)

lemma handle_validate_refused:
  assumes "\<not> (\<exists>u. admitted sv r s u)"
  shows "rs_status (fst (handle_validate sv r s)) = 302
    \<and> rs_header (fst (handle_validate sv r s)) ''Remote-User'' = None
    \<and> rs_header (fst (handle_validate sv r s)) ''X-Auth-User'' = None
    \<and> rs_header (fst (handle_validate sv r s)) ''X-WEBAUTH-USER'' = None"
proof -
  obtain v s1 where d: "decide_validate sv r s = (v, s1)" by force
  with assms have "\<not> vd_allow v" using decide_validate_allow [of sv r s] by simp
  with d show ?thesis by (simp add: handle_validate_def rs_header_def Let_def)
qed

lemma set_auth_user_headers [simp]:
  "map_of (set_auth_user u hs) ''Remote-User'' = Some u"
  "map_of (set_auth_user u hs) ''X-Auth-User'' = Some u"
  "map_of (set_auth_user u hs) ''X-WEBAUTH-USER'' = Some u"
  by (simp_all add: set_auth_user_def)

text \<open>\<open>C1\<close>: forward-auth soundness and completeness. \<^verbatim>\<open>/validate\<close> answers 200 exactly
  when the session cookie carries a valid, unexpired signature for some user whose slot is not
  reported suspended or expired, and then all three identity headers name that user; otherwise it
  answers 302 and sets none of them.\<close>

theorem validate_admits_iff:
  "(rs_status (fst (handle_validate sv r s)) = 200 \<longleftrightarrow> (\<exists>u. admitted sv r s u))
   \<and> (rs_status (fst (handle_validate sv r s)) \<in> {200, 302})
   \<and> (\<forall>u. rs_header (fst (handle_validate sv r s)) ''Remote-User'' = Some u \<longleftrightarrow> admitted sv r s u)
   \<and> (\<forall>u. rs_header (fst (handle_validate sv r s)) ''X-Auth-User'' = Some u \<longleftrightarrow> admitted sv r s u)
   \<and> (\<forall>u. rs_header (fst (handle_validate sv r s)) ''X-WEBAUTH-USER'' = Some u \<longleftrightarrow> admitted sv r s u)"
proof (cases "\<exists>u. admitted sv r s u")
  case True
  then obtain u where u: "admitted sv r s u" ..
  then have only: "admitted sv r s v \<longleftrightarrow> v = u" for v by (auto simp: admitted_def)
  show ?thesis using handle_validate_admitted [OF u] only by (auto simp: rs_header_def)
next
  case False
  then show ?thesis using handle_validate_refused [OF False] by auto
qed

end
