(* ===== verification/Login.thy ===== *)
theory Login
  imports Validate
begin

text \<open>
  The browser login of \<^verbatim>\<open>auth.go\<close>: the sanitiser of redirect targets, the form, the
  login itself and the logout. The page is the template of \<^verbatim>\<open>auth.go\<close> executed on the
  sanitised target and an error text; its HTML is not modelled.
\<close>

definition safe_next :: "gostring \<Rightarrow> gostring" where
  "safe_next raw =
     (let t = trim_space raw;
          u = (case query_unescape t of Some d \<Rightarrow> d | None \<Rightarrow> t)
      in if \<not> has_prefix u ''/'' \<or> has_prefix u ''//'' then ''/'' else u)"

definition serve_login :: "gostring \<Rightarrow> gostring \<Rightarrow> response" where
  "serve_login nxt err =
     mk_response 200
       (set_header ''Cache-Control'' ''no-store''
          (set_header ''Content-Type'' ''text/html; charset=utf-8'' [])) []
       (LoginPage nxt err)"

definition handle_login_get :: "'w server \<Rightarrow> request \<Rightarrow> 'w st \<Rightarrow> response \<times> 'w st" where
  "handle_login_get sv r s = (serve_login (safe_next (value_of (rq_query r) ''next'')) [], s)"

definition handle_logout :: "'w server \<Rightarrow> request \<Rightarrow> 'w st \<Rightarrow> response \<times> 'w st" where
  "handle_logout sv r s =
     (mk_response 302 (set_header ''Location'' ''/auth/login'' []) [clear_session_cookie (sv_cfg sv)]
        NoBody, s)"

text \<open>The slot-state check of the login: the error text to show, if the slot is blocked. It reads
  the store directly, and a store error lets the login proceed.\<close>

definition login_block :: "'w server \<Rightarrow> gostring \<Rightarrow> 'w st \<Rightarrow> gostring option \<times> 'w st" where
  "login_block sv username s =
     (case up_store (sv_up sv) of
        None \<Rightarrow> (None, s)
      | Some ss \<Rightarrow>
          (let q = eq_filter ''minio_access_key'' username in
           case io (FindSlot q) (ss_find_slot ss q) s of
             (Inr (Some slot), s1) \<Rightarrow>
               if sl_state slot = ''suspended'' then
                 (Some ''Account suspended. Contact your administrator.'',
                  log_at L1 ''login.blocked'' [AStr ''user'' username, AStr ''state'' ''suspended''] s1)
               else if sl_state slot = ''expired'' then
                 (Some ''Account is no longer active.'',
                  log_at L1 ''login.blocked'' [AStr ''user'' username, AStr ''state'' ''expired''] s1)
               else (None, s1)
           | (_, s1) \<Rightarrow> (None, s1)))"

definition handle_login_post :: "'w server \<Rightarrow> request \<Rightarrow> 'w st \<Rightarrow> response \<times> 'w st" where
  "handle_login_post sv r s =
     (let username = trim_space (value_of (rq_form r) ''username'');
          password = trim_space (value_of (rq_form r) ''password'');
          nxt = safe_next (value_of (rq_form r) ''next'') in
      if username = [] \<or> password = []
      then (serve_login nxt ''Username and password are required.'', s)
      else (case io (ValidateCred username password)
                  (mi_validate (up_minio (sv_up sv)) username password) s of
          (Inr True, s1) \<Rightarrow>
            (case login_block sv username s1 of
               (Some msg, s2) \<Rightarrow> (serve_login nxt msg, s2)
             | (None, s2) \<Rightarrow>
                 (case session_make sv username (cf_session_ttl (sv_cfg sv)) s2 of
                    (tok, s3) \<Rightarrow>
                      (mk_response 302 (set_header ''Location'' nxt [])
                         [set_session_cookie (sv_cfg sv) tok] NoBody,
                       log_at L1 ''login.ok'' [AStr ''user'' username] s3)))
        | (_, s1) \<Rightarrow>
            (serve_login nxt ''Invalid username or password.'',
             log_at L1 ''login.fail'' [AStr ''user'' username] s1)))"

section \<open>Redirect targets stay on this origin\<close>

lemma safe_next_rooted: "has_prefix (safe_next raw) ''/'' \<and> \<not> has_prefix (safe_next raw) ''//''"
  by (simp add: safe_next_def Let_def)

lemma query_unescape_plain:
  "CHR ''%'' \<notin> set s \<Longrightarrow> CHR ''+'' \<notin> set s \<Longrightarrow> query_unescape s = Some s"
  by (induction s) auto

lemma safe_next_plain:
  assumes "trim_space p = p" "CHR ''%'' \<notin> set p" "CHR ''+'' \<notin> set p"
    and "has_prefix p ''/''" "\<not> has_prefix p ''//''"
  shows "safe_next p = p"
  using assms by (simp add: safe_next_def query_unescape_plain)

lemma not_slash_start: "(t \<noteq> [] \<Longrightarrow> hd t = CHR ''?'') \<Longrightarrow> \<not> has_prefix t ''/''"
  by (cases t) (auto simp: has_prefix_def)

lemma redirect_location_rooted:
  assumes "has_prefix u ''/''" "\<not> has_prefix u ''//''"
  shows "has_prefix (redirect_location u) ''/'' \<and> \<not> has_prefix (redirect_location u) ''//''"
proof -
  have slash: "\<not> 128 \<le> byte (CHR ''/'')" by code_simp
  have esc: "has_prefix (hex_escape_non_ascii v) ''/'' \<and> \<not> has_prefix (hex_escape_non_ascii v) ''//''"
    if "has_prefix v ''/''" "\<not> has_prefix v ''//''" for v
  proof -
    from that obtain w where v: "v = CHR ''/'' # w" by (auto simp: has_prefix_iff)
    show ?thesis
      using that slash
      by (cases w) (auto simp: v hex_escape_non_ascii_def)
  qed
  show ?thesis
  proof (cases "rooted_url_parses u")
    case False
    with esc [OF assms] show ?thesis by (simp add: redirect_location_def)
  next
    case True
    let ?p = "takeWhile (\<lambda>c. c \<noteq> CHR ''?'') u"
    let ?q = "dropWhile (\<lambda>c. c \<noteq> CHR ''?'') u"
    define c where "c = clean_rooted ?p"
    define t where "t = (if has_suffix ?p ''/'' \<and> \<not> has_suffix c ''/'' then ''/'' else [])"
    have c: "has_prefix c ''/''" "\<not> has_prefix c ''//''"
      by (simp_all add: c_def clean_rooted_single_slash) (simp add: clean_rooted_def)
    have t0: "t = []" if "c = ''/''" using that by (simp add: t_def has_suffix_iff)
    have "?q \<noteq> [] \<Longrightarrow> hd ?q = CHR ''?''" using hd_dropWhile [of "\<lambda>c. c \<noteq> CHR ''?''" u] by simp
    then have q: "\<not> has_prefix ?q ''/''" by (rule not_slash_start)
    obtain w where w: "c = CHR ''/'' # w" using c(1) by (auto simp: has_prefix_iff)
    have "\<not> has_prefix (c @ t @ ?q) ''//''"
      using c(2) t0 q by (cases w) (auto simp: w)
    moreover have "has_prefix (c @ t @ ?q) ''/''" by (simp add: w)
    ultimately show ?thesis
      using esc [of "c @ t @ ?q"] assms True by (simp add: redirect_location_def Let_def c_def t_def)
  qed
qed

text \<open>A location that is an absolute path and not a network-path reference, so that by RFC 3986 it
  resolves on this origin. Browsers read more: they take a backslash for a slash and drop tabs, so
  for them the condition is not enough; the lemma \<open>safe_next_backslash\<close> below has a target that
  passes.\<close>

definition same_origin :: "gostring \<Rightarrow> bool" where
  "same_origin l \<longleftrightarrow> has_prefix l ''/'' \<and> \<not> has_prefix l ''//''"

lemma same_origin_redirect: "same_origin u \<Longrightarrow> same_origin (redirect_location u)"
  by (simp add: same_origin_def redirect_location_rooted)

lemma same_origin_literals:
  "same_origin ''/''" "same_origin ''/login''" "same_origin ''/auth/login?error=missing_code''"
  "same_origin ''/auth/login?error=link_expired''"
  by (simp_all add: same_origin_def)

text \<open>Percent-encoded, doubly encoded and backslashed targets that the sanitiser lets through.\<close>

lemma safe_next_backslash:
  "safe_next (''/'' @ [CHR 0x5C] @ ''evil.example'') = ''/'' @ [CHR 0x5C] @ ''evil.example''"
  "safe_next (''/'' @ [CHR 0x09] @ ''/evil.example'') = ''/'' @ [CHR 0x09] @ ''/evil.example''"
  by code_simp+

lemma safe_next_decodes_again: "safe_next ''/a%2520b'' = ''/a%20b'' \<and> safe_next ''/q?x=1%2B2'' = ''/q?x=1+2''"
  by code_simp

section \<open>Properties\<close>


text \<open>The outcome of the login's two checks, as seen by the upstreams at the time of the request.\<close>

definition login_accepts :: "'w server \<Rightarrow> gostring \<Rightarrow> gostring \<Rightarrow> 'w st \<Rightarrow> bool" where
  "login_accepts sv u p s \<longleftrightarrow>
     u \<noteq> [] \<and> p \<noteq> []
     \<and> fst (mi_validate (up_minio (sv_up sv)) u p (st_world s)) = Inr True
     \<and> (case up_store (sv_up sv) of
          None \<Rightarrow> True
        | Some ss \<Rightarrow>
            (case fst (ss_find_slot ss (eq_filter ''minio_access_key'' u)
                     (snd (mi_validate (up_minio (sv_up sv)) u p (st_world s)))) of
               Inr (Some slot) \<Rightarrow> \<not> blocked_state (sl_state slot)
             | _ \<Rightarrow> True))"

lemma login_block_result:
  "fst (login_block sv u s) = None \<longleftrightarrow>
     (case up_store (sv_up sv) of
        None \<Rightarrow> True
      | Some ss \<Rightarrow>
          (case fst (ss_find_slot ss (eq_filter ''minio_access_key'' u) (st_world s)) of
             Inr (Some slot) \<Rightarrow> \<not> blocked_state (sl_state slot)
           | _ \<Rightarrow> True))"
  by (auto simp: login_block_def io_def Let_def blocked_state_def case_prod_beta
      split: option.split sum.split)

text \<open>\<open>C13\<close>: \<^verbatim>\<open>POST /auth/login\<close> sets a cookie exactly when the object store accepts the
  pair of non-empty credentials and the user's slot is neither suspended nor expired; the cookie is
  a session of that very user, made from the clock reading of the request, and the answer is a
  redirect to the sanitised target. Any other answer is the login page, without a cookie.\<close>

theorem login_session_iff:
  "(login_accepts sv (trim_space (value_of (rq_form r) ''username''))
       (trim_space (value_of (rq_form r) ''password'')) s
      \<longleftrightarrow> rs_cookies (fst (handle_login_post sv r s)) \<noteq> [])
   \<and> (rs_status (fst (handle_login_post sv r s)), rs_cookies (fst (handle_login_post sv r s)))
      \<in> {(200, [])} \<union> range (\<lambda>now. (302, [set_session_cookie (sv_cfg sv)
           (session_token (rt_hmac_sha256 (sv_rt sv)) (cf_session_secret (sv_cfg sv))
             (trim_space (value_of (rq_form r) ''username''))
             (unix_seconds (now + cf_session_ttl (sv_cfg sv))))]))"
proof -
  let ?u = "trim_space (value_of (rq_form r) ''username'')"
  let ?p = "trim_space (value_of (rq_form r) ''password'')"
  obtain res s1 where v: "io (ValidateCred ?u ?p) (mi_validate (up_minio (sv_up sv)) ?u ?p) s = (res, s1)"
    by force
  note w = io_eqD(1) [OF v]
  show ?thesis
  proof (cases "?u \<noteq> [] \<and> ?p \<noteq> [] \<and> res = Inr True")
    case False
    with v w show ?thesis
      by (auto simp: handle_login_post_def login_accepts_def serve_login_def Let_def
          split: sum.split bool.split)
  next
    case True
    obtain b s2 where b: "login_block sv ?u s1 = (b, s2)" by force
    have "snd (mi_validate (up_minio (sv_up sv)) ?u ?p (st_world s)) = st_world s1"
      and "fst (mi_validate (up_minio (sv_up sv)) ?u ?p (st_world s)) = Inr True"
      using w True by simp_all
    then have acc: "login_accepts sv ?u ?p s \<longleftrightarrow> b = None"
      using True b login_block_result [of sv ?u s1] unfolding login_accepts_def
      by (simp only: fst_conv simp_thms)
    from True v b show ?thesis
      unfolding acc
      by (cases b) (auto simp: handle_login_post_def serve_login_def Let_def session_make_def
          case_prod_beta)
  qed
qed

end
