(* ===== verification/Magic.thy ===== *)
theory Magic
  imports Session
begin

text \<open>
  \<^verbatim>\<open>magic.go\<close>, the store: one-time codes that the command line obtains and the browser
  redeems. \<open>codes_issue\<close> sweeps the expired entries and inserts the new one,
  \<open>codes_redeem\<close> deletes the entry it finds whether or not it has expired. The locale
  \<open>one_time_store\<close> is the contract (a code is good for at most one redemption, and only until its
  expiry); it is interpreted on these two functions. \<open>magic_issue\<close> and \<open>magic_redeem\<close> are the
  methods, with the random bytes and the clock they read; each runs under the store's mutex, so a
  run of the process is a sequence of them.
\<close>

section \<open>The table\<close>

type_synonym codes = "gostring \<rightharpoonup> magic_code"

definition codes_sweep :: "int \<Rightarrow> codes \<Rightarrow> codes" where
  "codes_sweep now m =
     (\<lambda>k. case m k of None \<Rightarrow> None | Some v \<Rightarrow> if mc_expiry v < now then None else Some v)"

definition codes_issue :: "gostring \<Rightarrow> magic_code \<Rightarrow> int \<Rightarrow> codes \<Rightarrow> codes" where
  "codes_issue code entry now m = (codes_sweep now m)(code \<mapsto> entry)"

definition codes_redeem :: "gostring \<Rightarrow> int \<Rightarrow> codes \<Rightarrow> magic_code option \<times> codes" where
  "codes_redeem code now m =
     (case m code of
        None \<Rightarrow> (None, m)
      | Some entry \<Rightarrow>
          (if mc_expiry entry < now then None else Some entry, m(code := None)))"

section \<open>The methods\<close>

definition magic_issue ::
  "'w server \<Rightarrow> gostring \<Rightarrow> gostring \<Rightarrow> int \<Rightarrow> (gostring \<rightharpoonup> gostring) \<Rightarrow> 'w st
   \<Rightarrow> (go_error, gostring) result \<times> 'w st" where
  "magic_issue sv username next_url ttl extra s =
     (case io (ReadRandom 32) (rt_rand (sv_rt sv) 32) s of
        (Inl e, s1) \<Rightarrow> (Inl e, s1)
      | (Inr buf, s1) \<Rightarrow>
          (let code = hex_encode buf in
           case clock sv s1 of
             (now, s2) \<Rightarrow>
               (Inr code,
                s2\<lparr>st_codes :=
                     codes_issue code
                       \<lparr>mc_username = username, mc_expiry = now + ttl, mc_next_url = next_url,
                        mc_extra = extra\<rparr> now (st_codes s2)\<rparr>)))"

text \<open>The clock is read only when the code is in the table.\<close>

definition magic_redeem :: "'w server \<Rightarrow> gostring \<Rightarrow> 'w st \<Rightarrow> magic_code option \<times> 'w st" where
  "magic_redeem sv code s =
     (case st_codes s code of
        None \<Rightarrow> (None, s)
      | Some _ \<Rightarrow>
          (case clock sv s of
             (now, s1) \<Rightarrow>
               (case codes_redeem code now (st_codes s1) of
                  (r, m) \<Rightarrow> (r, s1\<lparr>st_codes := m\<rparr>))))"

section \<open>The contract of a one-time store\<close>

locale one_time_store =
  fixes put :: "'k \<Rightarrow> 'e \<Rightarrow> int \<Rightarrow> 's \<Rightarrow> 's"
    and take_out :: "'k \<Rightarrow> int \<Rightarrow> 's \<Rightarrow> 'e option \<times> 's"
    and holds :: "'s \<Rightarrow> 'k \<Rightarrow> 'e option"
    and expiry :: "'e \<Rightarrow> int"
  assumes holds_put_same: "holds (put k e now s) k = Some e"
    and holds_put_other: "k' \<noteq> k \<Longrightarrow> holds (put k e now s) k' = Some f \<Longrightarrow> holds s k' = Some f"
    and put_keeps: "holds s k' = Some f \<Longrightarrow> k' \<noteq> k \<Longrightarrow> now \<le> expiry f
      \<Longrightarrow> holds (put k e now s) k' = Some f"
    and take_result: "fst (take_out k now s) =
      (case holds s k of None \<Rightarrow> None | Some e \<Rightarrow> if expiry e < now then None else Some e)"
    and take_removes: "holds (snd (take_out k now s)) k = None"
    and take_other: "k' \<noteq> k \<Longrightarrow> holds (snd (take_out k now s)) k' = holds s k'"
begin

lemma take_twice: "fst (take_out k now' (snd (take_out k now s))) = None"
  by (simp add: take_result take_removes)

lemma take_after_put:
  "fst (take_out k now' (put k e now s)) = (if expiry e < now' then None else Some e)"
  by (simp add: take_result holds_put_same)

lemma take_absent: "holds s k = None \<Longrightarrow> fst (take_out k now s) = None"
  by (simp add: take_result)

end

interpretation codes: one_time_store codes_issue codes_redeem "\<lambda>m. m" mc_expiry
  by unfold_locales
    (auto simp: codes_issue_def codes_sweep_def codes_redeem_def split: if_splits option.splits)

section \<open>Histories of the store\<close>

text \<open>
  A history is a list of operations with the instants at which they ran. \<open>redeemed\<close> collects the
  successful redemptions, newest first.
\<close>

datatype code_op = Issue gostring magic_code int | Redeem gostring int

fun code_step :: "codes \<times> (gostring \<times> magic_code) list \<Rightarrow> code_op
    \<Rightarrow> codes \<times> (gostring \<times> magic_code) list" where
  "code_step (m, out) (Issue c e now) = (codes_issue c e now m, out)"
| "code_step (m, out) (Redeem c now) =
     (case codes_redeem c now m of
        (None, m') \<Rightarrow> (m', out)
      | (Some e, m') \<Rightarrow> (m', (c, e) # out))"

definition issues :: "gostring \<Rightarrow> code_op list \<Rightarrow> nat" where
  "issues c ops = length (filter (\<lambda>x. case x of Issue c' _ _ \<Rightarrow> c' = c | Redeem _ _ \<Rightarrow> False) ops)"

definition wins :: "gostring \<Rightarrow> (gostring \<times> magic_code) list \<Rightarrow> nat" where
  "wins c out = length (filter (\<lambda>(c', _). c' = c) out)"

definition code_pending :: "gostring \<Rightarrow> codes \<Rightarrow> nat" where
  "code_pending c m = (if m c = None then 0 else 1)"

lemma pending_issue_same: "code_pending c (codes_issue c e now m) = 1"
  by (simp add: code_pending_def codes.holds_put_same)

lemma pending_issue_other: "c' \<noteq> c \<Longrightarrow> code_pending c (codes_issue c' e now m) \<le> code_pending c m"
  using codes.holds_put_other [of c c' e now m] by (fastforce simp: code_pending_def)

lemma code_step_budget:
  "wins c (snd (code_step (m, out) x)) + code_pending c (fst (code_step (m, out) x))
     \<le> wins c out + code_pending c m + issues c [x]"
proof (cases x)
  case (Issue c' e now)
  then show ?thesis
    using pending_issue_other [of c' c e now m]
    by (cases "c' = c") (simp_all add: issues_def pending_issue_same)
next
  case (Redeem c' now)
  then show ?thesis
    by (cases "c' = c")
      (auto simp: codes_redeem_def wins_def code_pending_def issues_def split: option.splits if_splits)
qed

lemma code_run_budget:
  "wins c (snd (run_steps code_step (m, out) ops))
     + code_pending c (fst (run_steps code_step (m, out) ops))
   \<le> wins c out + code_pending c m + issues c ops"
proof (induction ops arbitrary: m out)
  case Nil
  then show ?case by simp
next
  case (Cons x ops)
  obtain m' out' where st: "code_step (m, out) x = (m', out')" by force
  have "issues c (x # ops) = issues c [x] + issues c ops" by (simp add: issues_def)
  with Cons.IH [of m' out'] code_step_budget [of c m out x] st show ?case by simp
qed

lemma redeemed_was_issued:
  "(c, e) \<in> set (snd (run_steps code_step (m, out) ops)) \<Longrightarrow>
     (c, e) \<in> set out \<or> m c = Some e \<or> (\<exists>now. Issue c e now \<in> set ops)"
proof (induction ops arbitrary: m out)
  case Nil
  then show ?case by simp
next
  case (Cons x ops)
  obtain m' out' where st: "code_step (m, out) x = (m', out')" by force
  from Cons.prems st have "(c, e) \<in> set out' \<or> m' c = Some e \<or> (\<exists>now. Issue c e now \<in> set ops)"
    by (intro Cons.IH) simp
  moreover have "(c, e) \<in> set out' \<Longrightarrow> (c, e) \<in> set out \<or> m c = Some e"
    using st by (cases x) (auto simp: codes_redeem_def split: option.splits if_splits)
  moreover have "m' c = Some e \<Longrightarrow> m c = Some e \<or> (\<exists>now. x = Issue c e now)"
    using st by (cases x)
      (auto simp: codes_redeem_def codes_issue_def codes_sweep_def split: option.splits if_splits)
  ultimately show ?case by auto
qed

text \<open>\<open>issued_before ops c e\<close>: the history issued the entry under the code.
  \<open>redeemed_in_time ops c e\<close>: it did so, and a later redemption presented the code no later than
  the entry's expiry.\<close>

definition issued_before :: "code_op list \<Rightarrow> gostring \<Rightarrow> magic_code \<Rightarrow> bool" where
  "issued_before ops c e \<longleftrightarrow> (\<exists>t. Issue c e t \<in> set ops)"

definition redeemed_in_time :: "code_op list \<Rightarrow> gostring \<Rightarrow> magic_code \<Rightarrow> bool" where
  "redeemed_in_time ops c e \<longleftrightarrow>
     (\<exists>xs t ys. ops = xs @ Redeem c t # ys \<and> issued_before xs c e \<and> t \<le> mc_expiry e)"

lemma redeemed_in_time_snoc: "redeemed_in_time ops c e \<Longrightarrow> redeemed_in_time (ops @ [x]) c e"
  by (auto simp: redeemed_in_time_def) (metis append_Cons append_assoc)

lemma issued_before_snoc: "issued_before ops c e \<Longrightarrow> issued_before (ops @ [x]) c e"
  by (auto simp: issued_before_def)

lemma code_run_history:
  "run_steps code_step (Map.empty, []) ops = (m, out) \<Longrightarrow>
     (\<forall>c e. m c = Some e \<longrightarrow> issued_before ops c e)
     \<and> (\<forall>c e. (c, e) \<in> set out \<longrightarrow> redeemed_in_time ops c e)"
proof (induction ops arbitrary: m out rule: rev_induct)
  case Nil
  then show ?case by (auto dest: sym)
next
  case (snoc x ops)
  obtain m0 out0 where r0: "run_steps code_step (Map.empty, []) ops = (m0, out0)" by force
  with snoc.prems have st: "code_step (m0, out0) x = (m, out)" by (simp add: run_steps_append)
  note ih = snoc.IH [OF r0]
  show ?case
  proof (cases x)
    case (Issue c' e' t)
    with st have "m = codes_issue c' e' t m0" and "out = out0" by auto
    then show ?thesis
      using ih Issue issued_before_snoc redeemed_in_time_snoc
      by (auto simp: codes_issue_def codes_sweep_def issued_before_def split: option.splits if_splits)
  next
    case (Redeem c' t)
    have new: "redeemed_in_time (ops @ [Redeem c' t]) c' e'" if "m0 c' = Some e'" "\<not> mc_expiry e' < t" for e'
      using that ih unfolding redeemed_in_time_def by (metis linorder_not_less)
    from Redeem st show ?thesis
      using ih new issued_before_snoc redeemed_in_time_snoc
      by (auto simp: codes_redeem_def split: option.splits if_splits)
  qed
qed

text \<open>\<open>C2\<close>: a one-time code is good once. In every history of the code table, a code is redeemed
  at most as often as it was issued, and each redemption yields an entry that was issued under that
  code earlier in the history and had not expired when it was presented.\<close>

theorem code_single_use:
  "wins c (snd (run_steps code_step (Map.empty, []) ops)) \<le> issues c ops
   \<and> set (snd (run_steps code_step (Map.empty, []) ops)) \<subseteq> {(c, e). redeemed_in_time ops c e}"
proof -
  obtain m out where r: "run_steps code_step (Map.empty, []) ops = (m, out)" by force
  from code_run_budget [of c Map.empty "[]" ops] r have "wins c out \<le> issues c ops"
    by (simp add: wins_def code_pending_def)
  moreover have "set out \<subseteq> {(c, e). redeemed_in_time ops c e}"
    using code_run_history [OF r] by auto
  ultimately show ?thesis by (simp add: r)
qed

section \<open>The methods refine the table\<close>

lemma magic_redeem_result:
  "fst (magic_redeem sv code s) =
     fst (codes_redeem code (fst (rt_now (sv_rt sv) (st_world s))) (st_codes s))"
  by (auto simp: magic_redeem_def codes_redeem_def clock_def io_total_def
      split: option.splits prod.splits)

lemma magic_redeem_codes:
  "st_codes (snd (magic_redeem sv code s)) = (st_codes s)(code := None)"
  by (auto simp: magic_redeem_def codes_redeem_def clock_def io_total_def fun_upd_idem
      split: option.splits prod.splits)

lemma magic_redeem_log [simp]: "st_log (snd (magic_redeem sv code s)) = st_log s"
  by (auto simp: magic_redeem_def clock_def io_total_def split: option.splits prod.splits)

lemma magic_issue_codes:
  assumes "magic_issue sv u n ttl ex s = (Inr code, s')"
  shows "\<exists>now. st_codes s' = codes_issue code
      \<lparr>mc_username = u, mc_expiry = now + ttl, mc_next_url = n, mc_extra = ex\<rparr> now (st_codes s)"
  using assms
  by (auto simp: magic_issue_def clock_def io_total_def io_def Let_def
      split: sum.splits prod.splits)

end
