(* ===== verification/Portal.thy ===== *)
theory Portal
  imports Login Magic
begin

text \<open>
  \<^verbatim>\<open>magic.go\<close> and \<^verbatim>\<open>minio_sso.go\<close>, the handlers: the command line
  trades a Nomad token for a one-time code (\<open>handle_cli_token_post\<close>), the browser trades the code
  for a session (\<open>handle_auth_redeem\<close>) or for a MinIO console cookie
  (\<open>handle_auth_minio_login\<close>).
\<close>

section \<open>POST /auth/cli-token\<close>

record cli_token_request =
  ct_nomad_token :: gostring
  ct_next :: gostring
  ct_portal :: gostring
  ct_minio_password :: gostring

definition cli_token_request_of :: "gostring \<Rightarrow> cli_token_request option" where
  "cli_token_request_of raw =
     (case json_unmarshal raw of
        None \<Rightarrow> None
      | Some v \<Rightarrow>
          (case struct_members v of
             None \<Rightarrow> None
           | Some ms \<Rightarrow>
               (case (str_field ''nomad_token'' ms, str_field ''next'' ms, str_field ''portal'' ms,
                      str_field ''minio_password'' ms) of
                  (Some t, Some n, Some p, Some m) \<Rightarrow>
                    Some \<lparr>ct_nomad_token = t, ct_next = n, ct_portal = p, ct_minio_password = m\<rparr>
                | _ \<Rightarrow> None)))"

definition portal_extra ::
  "'w server \<Rightarrow> gostring \<Rightarrow> gostring \<Rightarrow> gostring \<Rightarrow> gostring \<Rightarrow> 'w st
   \<Rightarrow> (gostring \<rightharpoonup> gostring) \<times> 'w st" where
  "portal_extra sv portal username nt minio_password s =
     (let extra = (if portal \<noteq> [] then Map.empty(''portal'' \<mapsto> portal) else Map.empty) in
      if portal = ''minio'' then
        (let pw0 = trim_space minio_password;
             pw = (if pw0 = [] then nt else pw0) in
         case mi_console_login (up_minio (sv_up sv)) of
           None \<Rightarrow> (extra, s)
         | Some login \<Rightarrow>
             (case io (ConsoleLogin username pw) (login username pw) s of
                (Inr jwt, s1) \<Rightarrow> (if jwt \<noteq> [] then extra(''minio_token'' \<mapsto> jwt) else extra, s1)
              | (Inl e, s1) \<Rightarrow>
                  (extra, log_at L1 ''cli_token.minio_prelogin_failed''
                     [AStr ''user'' username, AStr ''error'' (error_text e)] s1)))
      else (extra, s))"

definition code_ttl :: "config \<Rightarrow> int" where
  "code_ttl cfg = (if cf_cli_token_ttl cfg \<le> 0 then 60 * second else cf_cli_token_ttl cfg)"

definition cli_token_slot_state :: "'w server \<Rightarrow> gostring \<Rightarrow> 'w st \<Rightarrow> gostring option \<times> 'w st" where
  "cli_token_slot_state sv username s =
     (case up_store (sv_up sv) of
        None \<Rightarrow> (None, s)
      | Some ss \<Rightarrow>
          (case io_total (CachedState username) (ss_cached_state ss username) s of
             (st, s1) \<Rightarrow> (if blocked_state st then Some st else None, s1)))"

text \<open>The second half of the handler, once the caller and the slot state are known.\<close>

definition cli_issue ::
  "'w server \<Rightarrow> cli_token_request \<Rightarrow> gostring \<Rightarrow> gostring \<Rightarrow> 'w st \<Rightarrow> response \<times> 'w st" where
  "cli_issue sv req nt username s =
     (let next0 = trim_space (ct_next req);
          nxt = (if next0 = [] then ''/'' else next0);
          portal = to_lower (trim_space (ct_portal req));
          ttl = code_ttl (sv_cfg sv) in
      case portal_extra sv portal username nt (ct_minio_password req) s of
        (extra, s1) \<Rightarrow>
          (case magic_issue sv username nxt ttl extra s1 of
             (Inl e, s2) \<Rightarrow> (err_json 500 ''code mint failed'', s2)
           | (Inr code, s2) \<Rightarrow>
               (write_json 200
                  (JObj [(''code'', JStr code), (''ttl'', JNum (itoa (whole_seconds ttl)))]),
                log_at L1 ''cli_token.issued''
                  [AStr ''user'' username, AStr ''portal'' portal, AStr ''next'' nxt] s2)))"

definition handle_cli_token_post :: "'w server \<Rightarrow> request \<Rightarrow> 'w st \<Rightarrow> response \<times> 'w st" where
  "handle_cli_token_post sv r s =
     (let raw = read_limited body_limit r in
      if raw = [] then (err_json 400 ''missing request body'', s)
      else (case cli_token_request_of raw of
          None \<Rightarrow> (err_json 400 ''invalid JSON'', s)
        | Some req \<Rightarrow>
            (let nt = trim_space (ct_nomad_token req) in
             if nt = [] then (err_json 400 ''nomad_token required'', s)
             else
               (case io (LookupToken nt) (up_nomad (sv_up sv) nt) s of
                  (Inr (Some info), s1) \<Rightarrow>
                    (let raw_name = trim_space (nt_name info) in
                     if raw_name = []
                     then (err_json 401 ''could not determine username from token'', s1)
                     else
                       (let username = trim_prefix raw_name ''pool-'' in
                        case cli_token_slot_state sv username s1 of
                          (Some st, s2) \<Rightarrow> (err_json 403 (''slot is '' @ st), s2)
                        | (None, s2) \<Rightarrow> cli_issue sv req nt username s2))
                | (res, s1) \<Rightarrow>
                    (err_json 401 ''invalid or expired Nomad token'',
                     log_at L2 ''cli_token.auth_failed'' [AStr ''reason'' (err_reason res)] s1)))))"

section \<open>GET /auth/redeem\<close>

definition trusted_suffix :: gostring where
  "trusted_suffix = ''.abc-cluster.cloud''"

definition strip_scheme :: "gostring \<Rightarrow> gostring" where
  "strip_scheme raw =
     (if has_prefix raw ''https://'' then drop (length ''https://'') raw
      else if has_prefix raw ''http://'' then drop (length ''http://'') raw
      else raw)"

definition is_trusted_redirect :: "gostring \<Rightarrow> bool" where
  "is_trusted_redirect raw =
     (if raw = [] then False
      else if \<not> has_prefix raw ''http://'' \<and> \<not> has_prefix raw ''https://'' then False
      else has_suffix (takeWhile (\<lambda>c. c \<noteq> CHR ''/'') (strip_scheme raw)) trusted_suffix)"

definition extra_of :: "magic_code \<Rightarrow> gostring \<Rightarrow> gostring" where
  "extra_of entry k = (case mc_extra entry k of None \<Rightarrow> [] | Some v \<Rightarrow> v)"

definition redeem_destination :: "magic_code \<Rightarrow> gostring \<Rightarrow> gostring \<times> gostring" where
  "redeem_destination entry host =
     (if extra_of entry ''portal'' = ''grafana'' \<or> contains host ''grafana.''
      then (''/login'', ''grafana'')
      else if mc_next_url entry \<noteq> [] \<and> is_trusted_redirect (mc_next_url entry)
      then (mc_next_url entry, ''trusted_absolute'')
      else (safe_next (mc_next_url entry), ''safe_next''))"

definition handle_auth_redeem :: "'w server \<Rightarrow> request \<Rightarrow> 'w st \<Rightarrow> response \<times> 'w st" where
  "handle_auth_redeem sv r s =
     (let code = trim_space (value_of (rq_query r) ''code'') in
      if code = [] then (http_redirect r ''/auth/login?error=missing_code'', s)
      else (case magic_redeem sv code s of
          (None, s1) \<Rightarrow>
            (http_redirect r ''/auth/login?error=link_expired'',
             log_at L1 ''cli_token.redeem_failed'' [AStr ''reason'' ''invalid_or_expired''] s1)
        | (Some entry, s1) \<Rightarrow>
            (case redeem_destination entry (rq_host r) of
               (dest, reason) \<Rightarrow>
                 (let s2 = log_at L2 ''cli_token.redeem_decide''
                        [AStr ''user'' (mc_username entry),
                         AStr ''portal'' (extra_of entry ''portal''), AStr ''dest_reason'' reason,
                         AStr ''dest'' dest,
                         ABool ''has_minio_token'' (mc_extra entry ''minio_token'' \<noteq> None)] s1 in
                  case session_make sv (mc_username entry) (cf_session_ttl (sv_cfg sv)) s2 of
                    (tok, s3) \<Rightarrow>
                      (http_redirect_on [] [set_session_cookie (sv_cfg sv) tok] r dest,
                       log_at L1 ''cli_token.redeemed''
                         [AStr ''user'' (mc_username entry), AStr ''next'' dest] s3)))))"

section \<open>GET /auth/minio-login\<close>

definition minio_token_cookie :: "config \<Rightarrow> gostring \<Rightarrow> cookie" where
  "minio_token_cookie cfg jwt =
     \<lparr>ck_name = ''token'', ck_value = jwt, ck_path = ''/'', ck_domain = [], ck_max_age = 43200,
      ck_http_only = True, ck_same_site_lax = True, ck_secure = cf_cookie_secure cfg\<rparr>"

definition minio_jwt :: "'w server \<Rightarrow> magic_code \<Rightarrow> 'w st \<Rightarrow> gostring \<times> 'w st" where
  "minio_jwt sv entry s =
     (let jwt = extra_of entry ''minio_token'' in
      if jwt \<noteq> [] then (jwt, s)
      else (case mi_console_login (up_minio (sv_up sv)) of
          None \<Rightarrow> ([], s)
        | Some login \<Rightarrow>
            (case io (ConsoleLogin (mc_username entry) []) (login (mc_username entry) []) s of
               (Inr tok, s1) \<Rightarrow> (tok, s1)
             | (Inl e, s1) \<Rightarrow> ([], s1))))"

definition handle_auth_minio_login :: "'w server \<Rightarrow> request \<Rightarrow> 'w st \<Rightarrow> response \<times> 'w st" where
  "handle_auth_minio_login sv r s =
     (let code = trim_space (value_of (rq_query r) ''code'') in
      if code = [] then (http_redirect r ''/?error=missing_code'', s)
      else (case magic_redeem sv code s of
          (None, s1) \<Rightarrow>
            (http_redirect r ''/?error=link_expired'',
             log_at L1 ''minio_login.redeem_failed'' [AStr ''reason'' ''invalid_or_expired''] s1)
        | (Some entry, s1) \<Rightarrow>
            (case minio_jwt sv entry s1 of
               (jwt, s2) \<Rightarrow>
                 if jwt = []
                 then (http_redirect r ''/'',
                       log_at L1 ''minio_login.no_token'' [AStr ''user'' (mc_username entry)] s2)
                 else (http_redirect_on [] [minio_token_cookie (sv_cfg sv) jwt] r ''/'',
                       log_at L1 ''minio_login.ok'' [AStr ''user'' (mc_username entry)] s2))))"

section \<open>Redirects of the redemption\<close>

lemma redeem_destination_cases:
  "same_origin (fst (redeem_destination e h)) \<or> is_trusted_redirect (fst (redeem_destination e h))"
  using safe_next_rooted by (simp add: redeem_destination_def same_origin_def)

lemma redeem_location:
  "rs_header (fst (handle_auth_redeem sv r s)) ''Location'' = Some (redirect_location
     (if trim_space (value_of (rq_query r) ''code'') = [] then ''/auth/login?error=missing_code''
      else (case fst (magic_redeem sv (trim_space (value_of (rq_query r) ''code'')) s) of
              None \<Rightarrow> ''/auth/login?error=link_expired''
            | Some e \<Rightarrow> fst (redeem_destination e (rq_host r)))))"
  by (simp add: handle_auth_redeem_def Let_def split: option.split prod.split)


text \<open>What the trust check accepts: the text between the scheme and the first slash ends in the
  cluster's suffix.\<close>

lemma takeWhile_slash:
  "takeWhile (\<lambda>c. c \<noteq> d) s = h \<longleftrightarrow>
     (d \<notin> set h \<and> (s = h \<or> (\<exists>t. s = h @ d # t)))"
proof
  assume h: "takeWhile (\<lambda>c. c \<noteq> d) s = h"
  have "s = h @ dropWhile (\<lambda>c. c \<noteq> d) s" using h takeWhile_dropWhile_id by metis
  moreover have "dropWhile (\<lambda>c. c \<noteq> d) s = [] \<or> (\<exists>t. dropWhile (\<lambda>c. c \<noteq> d) s = d # t)"
    by (induction s) auto
  moreover have "d \<notin> set h" using h set_takeWhileD by metis
  ultimately show "d \<notin> set h \<and> (s = h \<or> (\<exists>t. s = h @ d # t))" by (metis append_Nil2)
next
  assume h: "d \<notin> set h \<and> (s = h \<or> (\<exists>t. s = h @ d # t))"
  then have all: "\<forall>c\<in>set h. c \<noteq> d" by auto
  then have "takeWhile (\<lambda>c. c \<noteq> d) (h @ d # t) = h" for t
    by (rule takeWhile_append_stop) simp
  moreover have "takeWhile (\<lambda>c. c \<noteq> d) h = h" using all by (simp add: takeWhile_eq_all_conv)
  ultimately show "takeWhile (\<lambda>c. c \<noteq> d) s = h" using h by blast
qed

lemma strip_scheme_simps:
  "strip_scheme (''http://'' @ v) = v" "strip_scheme (''https://'' @ v) = v"
  by (simp_all add: strip_scheme_def has_prefix_def)

lemma is_trusted_redirect_iff:
  "is_trusted_redirect u \<longleftrightarrow>
     (\<exists>h. CHR ''/'' \<notin> set h \<and> has_suffix h trusted_suffix
        \<and> (\<exists>p\<in>{''http://'', ''https://''}. u = p @ h \<or> (\<exists>t. u = p @ h @ CHR ''/'' # t)))"
  (is "_ = ?rhs")
proof
  assume tr: "is_trusted_redirect u"
  then obtain p v where p: "p \<in> {''http://'', ''https://''}" "u = p @ v" "strip_scheme u = v"
    unfolding is_trusted_redirect_def has_prefix_iff
    by (metis insertI1 insertI2 strip_scheme_simps(1,2))
  define h where "h = takeWhile (\<lambda>c. c \<noteq> CHR ''/'') v"
  have "has_suffix h trusted_suffix"
    using tr unfolding is_trusted_redirect_def p(3) h_def by (metis (no_types))
  moreover have "CHR ''/'' \<notin> set h \<and> (v = h \<or> (\<exists>t. v = h @ CHR ''/'' # t))"
    using takeWhile_slash h_def by metis
  ultimately show ?rhs using p by blast
next
  assume ?rhs
  then obtain h p where h: "CHR ''/'' \<notin> set h" "has_suffix h trusted_suffix"
    and p: "p \<in> {''http://'', ''https://''}" and u: "u = p @ h \<or> (\<exists>t. u = p @ h @ CHR ''/'' # t)"
    by blast
  from u obtain v where v: "u = p @ v" "takeWhile (\<lambda>c. c \<noteq> CHR ''/'') v = h"
    using h(1) takeWhile_slash by metis
  from p v(1) have st: "strip_scheme u = v" using strip_scheme_simps by blast
  from p v(1) have "u \<noteq> []" and "has_prefix u ''http://'' \<or> has_prefix u ''https://''"
    using has_prefix_append by blast+
  then show "is_trusted_redirect u"
    unfolding is_trusted_redirect_def st v(2) using h(2) by simp
qed

lemma trusted_redirect_foreign_host:
  "is_trusted_redirect ''https://evil.example?.abc-cluster.cloud''"
  by (simp add: is_trusted_redirect_def strip_scheme_def trusted_suffix_def has_suffix_def)

section \<open>What the redemption does to the session and to the code\<close>

definition code_of :: "request \<Rightarrow> gostring" where
  "code_of r = trim_space (value_of (rq_query r) ''code'')"

definition redeemable :: "'w server \<Rightarrow> gostring \<Rightarrow> 'w st \<Rightarrow> magic_code option" where
  "redeemable sv code s =
     (if code = [] then None
      else fst (codes_redeem code (fst (rt_now (sv_rt sv) (st_world s))) (st_codes s)))"

lemma session_make_state [simp]:
  "st_codes (snd (session_make sv u ttl s)) = st_codes s"
  "st_log (snd (session_make sv u ttl s)) = st_log s"
  by (simp_all add: session_make_def clock_def io_total_def split: prod.split)

lemma minio_jwt_state [simp]: "st_codes (snd (minio_jwt sv e s)) = st_codes s"
  by (simp add: minio_jwt_def io_def Let_def split: prod.split sum.split option.split)

lemma redeem_consumes:
  "st_codes (snd (handle_auth_redeem sv r s)) =
     (if code_of r = [] then st_codes s else (st_codes s)(code_of r := None))"
  using magic_redeem_codes [of sv "code_of r" s]
  by (auto simp: handle_auth_redeem_def code_of_def Let_def case_prod_beta split: option.split)

lemma minio_login_consumes:
  "st_codes (snd (handle_auth_minio_login sv r s)) =
     (if code_of r = [] then st_codes s else (st_codes s)(code_of r := None))"
  using magic_redeem_codes [of sv "code_of r" s]
  by (auto simp: handle_auth_minio_login_def code_of_def Let_def case_prod_beta split: option.split)

lemma redeem_cookies:
  "rs_cookies (fst (handle_auth_redeem sv r s)) =
     (case redeemable sv (code_of r) s of
        None \<Rightarrow> []
      | Some e \<Rightarrow>
          [set_session_cookie (sv_cfg sv)
             (session_token (rt_hmac_sha256 (sv_rt sv)) (cf_session_secret (sv_cfg sv)) (mc_username e)
               (unix_seconds (fst (rt_now (sv_rt sv) (snd (rt_now (sv_rt sv) (st_world s))))
                 + cf_session_ttl (sv_cfg sv))))])"
proof (cases "st_codes s (code_of r)")
  case None
  then show ?thesis
    by (simp add: handle_auth_redeem_def redeemable_def code_of_def Let_def magic_redeem_def codes_redeem_def)
next
  case (Some e)
  then show ?thesis
    by (simp add: handle_auth_redeem_def redeemable_def code_of_def Let_def magic_redeem_def
        codes_redeem_def session_make_def clock_def io_total_def log_at_def split: prod.split)
qed

lemma minio_login_no_cookie:
  "redeemable sv (code_of r) s = None \<Longrightarrow> rs_cookies (fst (handle_auth_minio_login sv r s)) = []"
  using magic_redeem_result [of sv "code_of r" s]
  by (auto simp: handle_auth_minio_login_def redeemable_def code_of_def Let_def
      split: option.splits prod.splits if_splits)

lemma redeemable_used: "st_codes s c = None \<Longrightarrow> redeemable sv c s = None"
  by (simp add: redeemable_def codes.take_absent)

text \<open>\<open>C8\<close>: \<^verbatim>\<open>/auth/redeem\<close> sets a session cookie exactly when the code is in the table and
  unexpired, the session is the one of the user the code was issued to, and the code is spent: the
  same code presented again, here or to \<^verbatim>\<open>/auth/minio-login\<close>, sets no cookie.\<close>

theorem redeem_session:
  "rs_cookies (fst (handle_auth_redeem sv r s)) =
     (case redeemable sv (code_of r) s of
        None \<Rightarrow> []
      | Some e \<Rightarrow>
          [set_session_cookie (sv_cfg sv)
             (session_token (rt_hmac_sha256 (sv_rt sv)) (cf_session_secret (sv_cfg sv)) (mc_username e)
               (unix_seconds (fst (rt_now (sv_rt sv) (snd (rt_now (sv_rt sv) (st_world s))))
                 + cf_session_ttl (sv_cfg sv))))])
   \<and> rs_cookies (fst (handle_auth_redeem sv (r2\<lparr>rq_query := rq_query r\<rparr>)
       (snd (handle_auth_redeem sv r s)))) = []
   \<and> rs_cookies (fst (handle_auth_minio_login sv (r2\<lparr>rq_query := rq_query r\<rparr>)
       (snd (handle_auth_redeem sv r s)))) = []
   \<and> rs_cookies (fst (handle_auth_redeem sv (r2\<lparr>rq_query := rq_query r\<rparr>)
       (snd (handle_auth_minio_login sv r s)))) = []"
proof -
  have c: "code_of (r2\<lparr>rq_query := rq_query r\<rparr>) = code_of r" by (simp add: code_of_def)
  have u1: "redeemable sv (code_of r) (snd (handle_auth_redeem sv r s)) = None"
    by (cases "code_of r = []") (simp_all add: redeemable_def redeem_consumes codes.take_absent)
  have u2: "redeemable sv (code_of r) (snd (handle_auth_minio_login sv r s)) = None"
    by (cases "code_of r = []") (simp_all add: redeemable_def minio_login_consumes codes.take_absent)
  show ?thesis
    by (intro conjI redeem_cookies)
      (simp_all add: redeem_cookies [of _ "r2\<lparr>rq_query := rq_query r\<rparr>"] c u1 u2 minio_login_no_cookie)
qed

section \<open>Who gets a code\<close>

definition cli_user :: "nomad_token_self \<Rightarrow> gostring" where
  "cli_user info = trim_prefix (trim_space (nt_name info)) ''pool-''"

text \<open>The slot state the gate sees, in the world the token lookup left.\<close>

definition cli_state :: "'w server \<Rightarrow> gostring \<Rightarrow> gostring \<Rightarrow> 'w st \<Rightarrow> gostring" where
  "cli_state sv nt u s =
     (case up_store (sv_up sv) of
        None \<Rightarrow> ''none''
      | Some ss \<Rightarrow> fst (ss_cached_state ss u (snd (up_nomad (sv_up sv) nt (st_world s)))))"

definition cli_next :: "cli_token_request \<Rightarrow> gostring" where
  "cli_next req = (if trim_space (ct_next req) = [] then ''/'' else trim_space (ct_next req))"

definition code_response :: "config \<Rightarrow> gostring \<Rightarrow> response" where
  "code_response cfg c =
     write_json 200
       (JObj [(''code'', JStr c), (''ttl'', JNum (itoa (whole_seconds (code_ttl cfg))))])"

definition cli_granted ::
  "'w server \<Rightarrow> request \<Rightarrow> 'w st \<Rightarrow> gostring \<Rightarrow> magic_code \<Rightarrow> int \<Rightarrow> bool" where
  "cli_granted sv r s c e now \<longleftrightarrow>
     (\<exists>req info nt. cli_token_request_of (read_limited body_limit r) = Some req
        \<and> nt = trim_space (ct_nomad_token req) \<and> nt \<noteq> []
        \<and> fst (up_nomad (sv_up sv) nt (st_world s)) = Inr (Some info)
        \<and> trim_space (nt_name info) \<noteq> []
        \<and> \<not> blocked_state (cli_state sv nt (cli_user info) s)
        \<and> mc_username e = cli_user info \<and> mc_next_url e = cli_next req
        \<and> mc_expiry e = now + code_ttl (sv_cfg sv)
        \<and> st_codes (snd (handle_cli_token_post sv r s)) = codes_issue c e now (st_codes s)
        \<and> fst (handle_cli_token_post sv r s) = code_response (sv_cfg sv) c)"

lemma portal_extra_codes [simp]: "st_codes (snd (portal_extra sv p u nt m s)) = st_codes s"
  by (simp add: portal_extra_def io_def Let_def split: prod.split sum.split option.split)

lemma cli_token_slot_state_codes [simp]:
  "st_codes (snd (cli_token_slot_state sv u s)) = st_codes s"
  by (simp add: cli_token_slot_state_def io_total_def split: prod.split option.split)

lemma cli_token_slot_state_result:
  assumes "io (LookupToken nt) (up_nomad (sv_up sv) nt) s = (res, s1)"
  shows "fst (cli_token_slot_state sv u s1) =
    (if blocked_state (cli_state sv nt u s) then Some (cli_state sv nt u s) else None)"
  using io_eqD(1) [OF assms]
  by (auto simp: cli_token_slot_state_def cli_state_def io_total_def blocked_state_def
      split: prod.split option.split)

lemma magic_issue_error_codes:
  "magic_issue sv u n ttl ex s = (Inl e, s') \<Longrightarrow> st_codes s' = st_codes s"
  by (auto simp: magic_issue_def io_def clock_def Let_def split: sum.splits prod.splits)

lemma cli_issue_cases:
  obtains "rs_status (fst (cli_issue sv req nt u s)) = 500"
      "st_codes (snd (cli_issue sv req nt u s)) = st_codes s"
  | c e now where "mc_username e = u" "mc_next_url e = cli_next req"
      "mc_expiry e = now + code_ttl (sv_cfg sv)"
      "st_codes (snd (cli_issue sv req nt u s)) = codes_issue c e now (st_codes s)"
      "fst (cli_issue sv req nt u s) = code_response (sv_cfg sv) c"
proof -
  define ex where
    "ex = portal_extra sv (to_lower (trim_space (ct_portal req))) u nt (ct_minio_password req) s"
  obtain rr s2 where mi:
    "magic_issue sv u (cli_next req) (code_ttl (sv_cfg sv)) (fst ex) (snd ex) = (rr, s2)" by force
  have codes: "st_codes (snd ex) = st_codes s" by (simp add: ex_def)
  note unf = cli_issue_def Let_def case_prod_beta ex_def [symmetric] cli_next_def [symmetric]
  show thesis
  proof (cases rr)
    case (Inl err)
    with mi codes magic_issue_error_codes have "st_codes s2 = st_codes s" by metis
    with Inl mi show thesis using that(1) unfolding unf by simp
  next
    case (Inr code)
    with mi codes obtain now where "st_codes s2 = codes_issue code
        \<lparr>mc_username = u, mc_expiry = now + code_ttl (sv_cfg sv), mc_next_url = cli_next req,
         mc_extra = fst ex\<rparr> now (st_codes s)" using magic_issue_codes by metis
    with Inr mi show thesis
      using that(2) [of "\<lparr>mc_username = u, mc_expiry = now + code_ttl (sv_cfg sv),
        mc_next_url = cli_next req, mc_extra = fst ex\<rparr>" now code]
      unfolding unf code_response_def by simp
  qed
qed

text \<open>\<open>C9\<close>: \<^verbatim>\<open>/auth/cli-token\<close> hands out a code only for a token that Nomad knows, to
  the user the token names, and only when that user's slot is neither suspended nor expired; then
  the table holds the code until the configured time. Every other outcome is an error that leaves the
  table as it was.\<close>

theorem cli_token_gate:
  "(rs_status (fst (handle_cli_token_post sv r s)) \<in> {400, 401, 403, 500}
      \<and> st_codes (snd (handle_cli_token_post sv r s)) = st_codes s)
   \<or> (\<exists>c e now. cli_granted sv r s c e now)"
proof -
  let ?raw = "read_limited body_limit r"
  show ?thesis
  proof (cases "?raw = [] \<or> cli_token_request_of ?raw = None")
    case True
    then show ?thesis by (auto simp: handle_cli_token_post_def Let_def)
  next
    case False
    then obtain req where raw: "?raw \<noteq> []" and req: "cli_token_request_of ?raw = Some req" by auto
    define nt where "nt = trim_space (ct_nomad_token req)"
    obtain res s1 where look: "io (LookupToken nt) (up_nomad (sv_up sv) nt) s = (res, s1)" by force
    note w = io_eqD [OF look]
    show ?thesis
    proof (cases "nt = [] \<or> (\<exists>e. res = Inl e) \<or> res = Inr None")
      case True
      with raw req look w(2) show ?thesis
        by (auto simp: handle_cli_token_post_def nt_def Let_def)
    next
      case False
      then obtain info where nt: "nt \<noteq> []" and res: "res = Inr (Some info)"
        by (metis option.exhaust sum.exhaust)
      show ?thesis
      proof (cases "trim_space (nt_name info) = [] \<or> blocked_state (cli_state sv nt (cli_user info) s)")
        case True
        with raw req look w(2) nt res cli_token_slot_state_result [OF look, of "cli_user info"]
        show ?thesis
          by (auto simp: handle_cli_token_post_def nt_def cli_user_def Let_def case_prod_beta)
      next
        case False
        with cli_token_slot_state_result [OF look]
        have "fst (cli_token_slot_state sv (cli_user info) s1) = None" by simp
        then obtain s2 where ok: "cli_token_slot_state sv (cli_user info) s1 = (None, s2)"
          by (cases "cli_token_slot_state sv (cli_user info) s1") simp
        then have codes: "st_codes s2 = st_codes s"
          using cli_token_slot_state_codes [of sv "cli_user info" s1] w(2) by simp
        have h: "handle_cli_token_post sv r s = cli_issue sv req nt (cli_user info) s2"
          using raw req look nt res False ok
          by (simp add: handle_cli_token_post_def nt_def cli_user_def)
        show ?thesis
          using False nt req nt_def w(1) res codes
          by (cases rule: cli_issue_cases [of sv req nt "cli_user info" s2])
            (simp_all add: h cli_granted_def, metis)
      qed
    qed
  qed
qed

end
