(* ===== verification/Identity.thy ===== *)
theory Identity
  imports Session
begin

text \<open>
  \<^verbatim>\<open>naming.go\<close>, \<^verbatim>\<open>identity.go\<close>, \<^verbatim>\<open>verify.go\<close> and the
  \<^verbatim>\<open>/auth/me\<close> handler of \<^verbatim>\<open>auth.go\<close>: who a Nomad token belongs to. The
  identity of \<^verbatim>\<open>/auth/me\<close> and the headers of \<^verbatim>\<open>/verify\<close> are two
  translations of the same lookup; the lemmas say where they agree.
\<close>

section \<open>Group names and namespaces\<close>

definition ns_prefix :: gostring where
  "ns_prefix = ''su-''"

definition namespace_for_group :: "gostring \<Rightarrow> gostring" where
  "namespace_for_group g = (if has_prefix g ns_prefix then g else ns_prefix @ g)"

lemma namespace_for_group_prefixed: "has_prefix (namespace_for_group g) ns_prefix"
  by (simp add: namespace_for_group_def)

lemma namespace_for_group_idem [simp]:
  "namespace_for_group (namespace_for_group g) = namespace_for_group g"
  by (simp add: namespace_for_group_def)

lemma namespace_for_group_eq_iff:
  "namespace_for_group g = namespace_for_group h \<longleftrightarrow>
     g = h \<or> (\<not> has_prefix g ns_prefix \<and> h = ns_prefix @ g)
           \<or> (\<not> has_prefix h ns_prefix \<and> g = ns_prefix @ h)"
  by (auto simp: namespace_for_group_def)

section \<open>The identity of a token\<close>

record identity =
  id_user :: gostring
  id_group :: gostring
  id_namespace :: gostring
  id_policies :: gostring

definition or_default :: "gostring \<Rightarrow> gostring \<Rightarrow> gostring" where
  "or_default s d = (if s = [] then d else s)"

definition namespace_guess :: "gostring \<Rightarrow> gostring" where
  "namespace_guess grp =
     (if has_prefix grp ''member-'' then drop (length ''member-'') grp
      else if has_suffix grp ''-pool'' then take (length grp - length ''-pool'') grp
      else if has_suffix grp ''-admin'' then take (length grp - length ''-admin'') grp
      else if has_suffix grp ''-member'' then take (length grp - length ''-member'') grp
      else grp)"

text \<open>The switch over policies and roles of \<^verbatim>\<open>nomadIdentity\<close>: grp and policy text.\<close>

definition identity_group :: "nomad_token_self \<Rightarrow> gostring \<times> gostring" where
  "identity_group info =
     (case nt_policies info of
        p # ps \<Rightarrow> (p, join_with '','' (p # ps))
      | [] \<Rightarrow>
          (case nt_roles info of
             r # rs \<Rightarrow> (trim_prefix (role_name r) ''r-'', ''role:'' @ role_name r)
           | [] \<Rightarrow> (''unknown'', [])))"

definition nomad_identity :: "nomad_token_self \<Rightarrow> identity" where
  "nomad_identity info =
     (let name = or_default (nt_name info) ''anonymous'';
          ttype = or_default (nt_type info) ''client'' in
      if ttype = ''management''
      then \<lparr>id_user = name, id_group = ''admin'', id_namespace = ''*'', id_policies = ''management''\<rparr>
      else (case identity_group info of
              (grp, policy_str) \<Rightarrow>
                \<lparr>id_user = name, id_group = grp,
                 id_namespace = or_default (nt_namespace info) (namespace_guess grp),
                 id_policies = policy_str\<rparr>))"

section \<open>Groups of a policy string\<close>

fun strip_first_suffix :: "gostring list \<Rightarrow> gostring \<Rightarrow> gostring" where
  "strip_first_suffix [] g = g"
| "strip_first_suffix (suf # sufs) g =
     (if has_suffix g suf then take (length g - length suf) g else strip_first_suffix sufs g)"

definition group_suffixes :: "gostring list" where
  "group_suffixes = [''-pool'', ''-admin'', ''-member'']"

definition clean_group :: "gostring \<Rightarrow> gostring" where
  "clean_group p =
     (let g = trim_prefix p ''member-'' in
      if has_prefix g ns_prefix then strip_first_suffix group_suffixes (trim_prefix g ns_prefix)
      else g)"

fun collect_groups :: "gostring list \<Rightarrow> gostring list \<Rightarrow> gostring list" where
  "collect_groups groups [] = groups"
| "collect_groups groups (q # qs) =
     (let p = trim_space q in
      if p = [] \<or> has_prefix p ''role:'' then collect_groups groups qs
      else (let g = clean_group p in
            if g \<noteq> [] \<and> g \<notin> set groups then collect_groups (groups @ [g]) qs
            else collect_groups groups qs))"

definition groups_from_policies :: "gostring \<Rightarrow> gostring list" where
  "groups_from_policies policy_str =
     (if policy_str = ''management'' then [''*'']
      else sort (collect_groups [] (split_on (CHR '','') policy_str)))"

definition policy_group :: "gostring \<Rightarrow> gostring option" where
  "policy_group q =
     (let p = trim_space q in
      if p = [] \<or> has_prefix p ''role:'' then None
      else if clean_group p = [] then None else Some (clean_group p))"

lemma collect_groups_set:
  "set (collect_groups gs qs) = set gs \<union> {g. \<exists>q\<in>set qs. policy_group q = Some g}"
  by (induction gs qs rule: collect_groups.induct)
    (auto simp: Let_def policy_group_def split: if_splits)

lemma collect_groups_distinct: "distinct gs \<Longrightarrow> distinct (collect_groups gs qs)"
  by (induction gs qs rule: collect_groups.induct) (auto simp: Let_def)

lemma policy_group_nonempty: "policy_group q = Some g \<Longrightarrow> g \<noteq> []"
  by (auto simp: policy_group_def Let_def split: if_splits)

lemma groups_from_policies_spec:
  assumes "s \<noteq> ''management''"
  shows "sorted (groups_from_policies s) \<and> distinct (groups_from_policies s)
    \<and> set (groups_from_policies s) = {g. \<exists>q\<in>set (split_on (CHR '','') s). policy_group q = Some g}"
  using assms collect_groups_distinct [of "[]"]
  by (simp add: groups_from_policies_def collect_groups_set)

section \<open>The headers of /verify\<close>

definition header_group :: "nomad_token_self \<Rightarrow> gostring \<times> gostring" where
  "header_group info =
     (case nt_policies info of
        p # ps \<Rightarrow> (p, join_with '','' (p # ps))
      | [] \<Rightarrow>
          (case nt_roles info of
             r # rs \<Rightarrow>
               (let role = or_default (role_name r) ''unknown'' in
                (if has_prefix role ''r-'' then drop 2 role else role, ''role:'' @ role))
           | [] \<Rightarrow> (''unknown'', [])))"

definition header_namespace_guess :: "gostring \<Rightarrow> gostring" where
  "header_namespace_guess grp =
     (if has_prefix grp ''member-'' then trim_prefix grp ''member-''
      else if has_suffix grp ''-pool'' then trim_suffix grp ''-pool''
      else if has_suffix grp ''-admin'' then trim_suffix grp ''-admin''
      else if has_suffix grp ''-member'' then trim_suffix grp ''-member''
      else grp)"

definition nomad_identity_headers :: "nomad_token_self \<Rightarrow> (gostring \<times> gostring) list" where
  "nomad_identity_headers info =
     (let name = or_default (nt_name info) ''anonymous'';
          ttype = or_default (nt_type info) ''client'';
          (grp, namespace, policy_str) =
            (if ttype = ''management'' then (''admin'', ''*'', ''management'')
             else (case header_group info of
                     (g, p) \<Rightarrow> (g, or_default (nt_namespace info) (header_namespace_guess g), p)))
      in [(''X-Auth-User'', name), (''X-Auth-Group'', grp), (''X-Auth-Namespace'', namespace),
          (''X-Auth-Policies'', policy_str), (''X-Auth-Type'', ttype)])"

fun set_headers ::
  "(gostring \<times> gostring) list \<Rightarrow> (gostring \<times> gostring) list \<Rightarrow> (gostring \<times> gostring) list" where
  "set_headers [] hs = hs"
| "set_headers ((k, v) # kvs) hs = set_headers kvs (set_header k v hs)"

definition handle_verify_nomad :: "'w server \<Rightarrow> request \<Rightarrow> 'w st \<Rightarrow> response \<times> 'w st" where
  "handle_verify_nomad sv r s =
     (let token = nomad_token_from_request r in
      case io (LookupToken token) (up_nomad (sv_up sv) token) s of
        (Inr (Some info), s1) \<Rightarrow>
          (mk_response 200
             (set_header ''Content-Type'' ''text/plain'' (set_headers (nomad_identity_headers info) []))
             [] (Text (''ok'' @ [chr_of 10])), s1)
      | (_, s1) \<Rightarrow>
          (mk_response 401 [(''Content-Type'', ''text/plain'')] []
             (Text (''unauthorized: missing or invalid token'' @ [chr_of 10])), s1))"

section \<open>/auth/me\<close>

definition handle_auth_me :: "'w server \<Rightarrow> request \<Rightarrow> 'w st \<Rightarrow> response \<times> 'w st" where
  "handle_auth_me sv r s =
     (let hs = set_header ''Access-Control-Allow-Origin'' ''*'' [];
          token = nomad_token_from_request r in
      if token = [] then (err_json_on hs 401 ''missing token'', s)
      else (case io (LookupToken token) (up_nomad (sv_up sv) token) s of
          (Inr (Some info), s1) \<Rightarrow>
            (let ident = nomad_identity info;
                 role_based = has_prefix (id_policies ident) ''role:'';
                 groups = groups_from_policies (id_policies ident);
                 primary = (if id_namespace ident = [] \<and> groups \<noteq> [] then hd groups
                            else id_namespace ident)
             in (write_json_on hs 200
                   (JObj [(''groups'', JArr (map JStr groups)), (''namespace'', JStr primary),
                          (''primary_group'', JStr primary), (''role_based'', JBool role_based),
                          (''user'', JStr (id_user ident))]), s1))
        | (_, s1) \<Rightarrow> (err_json_on hs 401 ''invalid token'', s1)))"

section \<open>Where the two translations agree\<close>

lemma namespace_guess_eq: "header_namespace_guess g = namespace_guess g"
  by (simp add: header_namespace_guess_def namespace_guess_def trim_prefix_def trim_suffix_def)

definition first_role_named :: "nomad_token_self \<Rightarrow> bool" where
  "first_role_named info \<longleftrightarrow>
     nt_policies info \<noteq> [] \<or> nt_roles info = [] \<or> role_name (hd (nt_roles info)) \<noteq> []"

lemma header_group_eq: "first_role_named info \<Longrightarrow> header_group info = identity_group info"
  by (auto simp: header_group_def identity_group_def first_role_named_def or_default_def
      trim_prefix_def Let_def numeral_2_eq_2 split: list.splits)

lemma headers_of_identity:
  assumes "first_role_named info \<or> nt_type info = ''management''"
  shows "nomad_identity_headers info =
    [(''X-Auth-User'', id_user (nomad_identity info)),
     (''X-Auth-Group'', id_group (nomad_identity info)),
     (''X-Auth-Namespace'', id_namespace (nomad_identity info)),
     (''X-Auth-Policies'', id_policies (nomad_identity info)),
     (''X-Auth-Type'', or_default (nt_type info) ''client'')]"
proof (cases "or_default (nt_type info) ''client'' = ''management''")
  case True
  then show ?thesis by (simp add: nomad_identity_headers_def nomad_identity_def Let_def)
next
  case False
  then have "nt_type info \<noteq> ''management''" by (auto simp: or_default_def)
  with assms have "header_group info = identity_group info" by (simp add: header_group_eq)
  with False show ?thesis
    by (simp add: nomad_identity_headers_def nomad_identity_def namespace_guess_eq
        split: prod.split)
qed

section \<open>The pool policy of a group reports the group\<close>

lemma clean_group_pool:
  "clean_group (ns_prefix @ g @ ''-pool'') = g"
proof -
  have "\<not> has_prefix (ns_prefix @ g @ ''-pool'') ''member-''" by (simp add: ns_prefix_def)
  moreover have "has_suffix (g @ ''-pool'') ''-pool''" by (rule has_suffix_append)
  ultimately show ?thesis by (simp add: clean_group_def group_suffixes_def)
qed

lemma groups_of_pool_policy:
  assumes "g \<noteq> []" and "\<not> has_prefix g ns_prefix" and "CHR '','' \<notin> set g"
    and "trim_space (ns_prefix @ g @ ''-pool'') = ns_prefix @ g @ ''-pool''"
  shows "groups_from_policies (namespace_for_group g @ ''-pool'') = [g]"
proof -
  let ?p = "ns_prefix @ g @ ''-pool''"
  have p: "namespace_for_group g @ ''-pool'' = ?p" using assms(2) by (simp add: namespace_for_group_def)
  have "CHR '','' \<notin> set ?p" using assms(3) by (simp add: ns_prefix_def)
  then have sp: "split_on (CHR '','') ?p = [?p]" by (rule split_on_no_sep)
  have "?p \<noteq> ''management''" and "?p \<noteq> []" and "\<not> has_prefix ?p ''role:''"
    by (simp_all add: ns_prefix_def)
  with assms sp show ?thesis
    unfolding p groups_from_policies_def by (simp add: clean_group_pool Let_def)
qed

section \<open>Properties\<close>

text \<open>The groups of a policy string other than \<^verbatim>\<open>management\<close> are exactly the cleaned,
  non-empty, non-role entries of its comma-separated list, sorted and without duplicates.\<close>

lemma groups_from_policies_sorted_set:
  "groups_from_policies s =
     (if s = ''management'' then [''*'']
      else sorted_list_of_set {g. \<exists>q\<in>set (split_on (CHR '','') s). policy_group q = Some g})"
proof (cases "s = ''management''")
  case True
  then show ?thesis by (simp add: groups_from_policies_def)
next
  case False
  have "sorted (groups_from_policies s)" and "distinct (groups_from_policies s)"
    using groups_from_policies_spec [OF False] by blast+
  then have "sorted_list_of_set (set (groups_from_policies s)) = groups_from_policies s"
    by (rule sorted_list_of_set.idem_if_sorted_distinct)
  with groups_from_policies_spec [OF False] False show ?thesis by simp
qed

lemma unnamed_role_disagrees:
  assumes "\<not> first_role_named info"
  shows "fst (header_group info) \<noteq> fst (identity_group info)"
  using assms
  by (auto simp: first_role_named_def header_group_def identity_group_def or_default_def
      trim_prefix_def Let_def split: list.splits)

text \<open>The headers of \<^verbatim>\<open>/verify\<close> carry the identity of \<^verbatim>\<open>/auth/me\<close>, for
  every token but one kind: a client token without policies whose first role has no name.\<close>

lemma verify_headers_identity_iff:
  "nomad_identity_headers info =
    [(''X-Auth-User'', id_user (nomad_identity info)),
     (''X-Auth-Group'', id_group (nomad_identity info)),
     (''X-Auth-Namespace'', id_namespace (nomad_identity info)),
     (''X-Auth-Policies'', id_policies (nomad_identity info)),
     (''X-Auth-Type'', or_default (nt_type info) ''client'')]
   \<longleftrightarrow> first_role_named info \<or> nt_type info = ''management''"
proof (cases "first_role_named info \<or> nt_type info = ''management''")
  case True
  with headers_of_identity show ?thesis by blast
next
  case False
  then have "or_default (nt_type info) ''client'' \<noteq> ''management''" by (auto simp: or_default_def)
  with False unnamed_role_disagrees [of info] show ?thesis
    by (auto simp: nomad_identity_headers_def nomad_identity_def Let_def case_prod_beta)
qed

text \<open>A member of a group's pool policy belongs to that group: the policy
  \<^verbatim>\<open>su-<group>-pool\<close> of a namespace yields the group name back.\<close>

lemma pool_policy_group:
  assumes "g \<noteq> []" and "\<not> has_prefix g ns_prefix" and "CHR '','' \<notin> set g"
    and "trim_space (ns_prefix @ g @ ''-pool'') = ns_prefix @ g @ ''-pool''"
  shows "groups_from_policies (namespace_for_group g @ ''-pool'') = [g]"
  using assms by (rule groups_of_pool_policy)

lemma pool_policy_group_witness:
  "groups_from_policies (namespace_for_group ''chem'' @ ''-pool'') = [''chem'']"
proof (rule pool_policy_group)
  show "trim_space (ns_prefix @ ''chem'' @ ''-pool'') = ns_prefix @ ''chem'' @ ''-pool''" by code_simp
qed (simp_all add: ns_prefix_def)

end
