(* ===== verification/Go_Text.thy ===== *)
theory Go_Text
  imports Upstreams
begin

text \<open>
  Text the standard library prints: UTC instants in the layouts PocketBase expects
  (\<^verbatim>\<open>Time.Format\<close>, over the proleptic Gregorian calendar), \<^verbatim>\<open>%q\<close>
  (\<^verbatim>\<open>strconv.Quote\<close>; which characters above ASCII are printable is the Unicode table, a
  parameter), and lines.
\<close>

section \<open>Lines\<close>

definition line :: "gostring \<Rightarrow> gostring" where
  "line s = s @ [chr_of 10]"

definition lines :: "gostring list \<Rightarrow> gostring" where
  "lines ls = concat (map line ls)"

section \<open>Calendar\<close>

text \<open>Year, month and day of a day number counted from 1970-01-01. Days are regrouped from 1 March of
  the year 0, in eras of 400 years.\<close>

definition civil_from_days :: "int \<Rightarrow> int \<times> int \<times> int" where
  "civil_from_days z0 =
     (let z = z0 + 719468;
          era = z div 146097;
          doe = z mod 146097;
          yoe = (doe - doe div 1460 + doe div 36524 - doe div 146096) div 365;
          doy = doe - (365 * yoe + yoe div 4 - yoe div 100);
          mp = (5 * doy + 2) div 153;
          d = doy - (153 * mp + 2) div 5 + 1;
          m = (if mp < 10 then mp + 3 else mp - 9)
      in (yoe + era * 400 + (if m \<le> 2 then 1 else 0), m, d))"

definition days_from_civil :: "int \<Rightarrow> int \<Rightarrow> int \<Rightarrow> int" where
  "days_from_civil y0 m d =
     (let y = (if m \<le> 2 then y0 - 1 else y0);
          era = y div 400;
          yoe = y mod 400;
          doy = (153 * (if m > 2 then m - 3 else m + 9) + 2) div 5 + d - 1;
          doe = yoe * 365 + yoe div 4 - yoe div 100 + doy
      in era * 146097 + doe - 719468)"

fun pad_left :: "nat \<Rightarrow> gostring \<Rightarrow> gostring" where
  "pad_left n s = replicate (n - length s) (CHR ''0'') @ s"

definition pad_int :: "nat \<Rightarrow> int \<Rightarrow> gostring" where
  "pad_int n k = pad_left n (itoa k)"

text \<open>\<^verbatim>\<open>2006-01-02 15:04:05\<close> in UTC, for an instant in nanoseconds.\<close>

definition format_date_time :: "int \<Rightarrow> gostring" where
  "format_date_time t =
     (let u = unix_seconds t; secs = u mod 86400 in
      case civil_from_days (u div 86400) of
        (y, m, d) \<Rightarrow>
          pad_int 4 y @ ''-'' @ pad_int 2 m @ ''-'' @ pad_int 2 d @ '' ''
          @ pad_int 2 (secs div 3600) @ '':'' @ pad_int 2 (secs div 60 mod 60) @ '':''
          @ pad_int 2 (secs mod 60))"

text \<open>\<^verbatim>\<open>nowPB\<close>: the milliseconds are the literal 000.\<close>

definition now_pb_text :: "int \<Rightarrow> gostring" where
  "now_pb_text t = format_date_time t @ ''.000Z''"

text \<open>The layout \<^verbatim>\<open>2006-01-02 15:04:05.000Z\<close>: a period and three zeros after the seconds
  stand for the milliseconds of the instant.\<close>

definition millis_text :: "int \<Rightarrow> gostring" where
  "millis_text t = format_date_time t @ ''.'' @ pad_int 3 (t div 1000000 mod 1000) @ ''Z''"

definition now_pb :: "'w server \<Rightarrow> 'w st \<Rightarrow> gostring \<times> 'w st" where
  "now_pb sv s = (case clock sv s of (t, s1) \<Rightarrow> (now_pb_text t, s1))"

lemma millis_zero: "''.'' @ pad_int 3 0 @ ''Z'' = ''.000Z''"
  by code_simp

lemma millis_text_whole_second: "t mod second < 1000000 \<Longrightarrow> millis_text t = now_pb_text t"
proof -
  assume "t mod second < 1000000"
  moreover have "t mod second = 1000000 * (t div 1000000 mod 1000) + t mod 1000000"
    using zmod_zmult2_eq [of 1000 t 1000000] by (simp add: second_def)
  moreover have "0 \<le> t mod 1000000" and "0 \<le> t div 1000000 mod 1000" by simp_all
  ultimately have "t div 1000000 mod 1000 = 0" by linarith
  then show "millis_text t = now_pb_text t"
    by (simp only: millis_text_def now_pb_text_def millis_zero)
qed

section \<open>Quoting\<close>

definition quote_rune :: "nat \<Rightarrow> gostring" where
  "quote_rune n =
     (if n < 65536 then chr_of 92 # ''u'' @ hex2 (n div 256) @ hex2 (n mod 256)
      else chr_of 92 # ''U00'' @ hex2 (n div 65536) @ hex2 (n div 256 mod 256) @ hex2 (n mod 256))"

definition quote_ascii :: "char \<Rightarrow> gostring" where
  "quote_ascii c =
     (let n = byte c in
      if n = 34 \<or> n = 92 then [chr_of 92, c]
      else if n = 7 then [chr_of 92, CHR ''a''] else if n = 8 then [chr_of 92, CHR ''b'']
      else if n = 12 then [chr_of 92, CHR ''f''] else if n = 10 then [chr_of 92, CHR ''n'']
      else if n = 13 then [chr_of 92, CHR ''r''] else if n = 9 then [chr_of 92, CHR ''t'']
      else if n = 11 then [chr_of 92, CHR ''v'']
      else if n < 32 \<or> n = 127 then chr_of 92 # ''x'' @ hex2 n
      else [c])"

function quote_body :: "(nat \<Rightarrow> bool) \<Rightarrow> gostring \<Rightarrow> gostring" where
  "quote_body pr s =
     (case s of
        [] \<Rightarrow> []
      | c # cs \<Rightarrow>
          if byte c < 128 then quote_ascii c @ quote_body pr cs
          else (let (n, w) = decode_rune s in
                (if n = 65533 \<and> w = 1 then chr_of 92 # ''x'' @ hex2 (byte c)
                 else if pr n then take w s else quote_rune n)
                @ quote_body pr (drop (max 1 w) s)))"
  by pat_completeness auto
termination
  by (relation "measure (\<lambda>(pr, s). length s)") auto

declare quote_body.simps [simp del]

definition go_quote :: "(nat \<Rightarrow> bool) \<Rightarrow> gostring \<Rightarrow> gostring" where
  "go_quote pr s = chr_of 34 # quote_body pr s @ [chr_of 34]"

end
