(* ===== verification/Mock_Upstreams.thy ===== *)
theory Mock_Upstreams
  imports Upstreams
begin

text \<open>
  The deterministic upstreams of \<^verbatim>\<open>--mock-upstreams\<close> (\<^verbatim>\<open>upstreams.go\<close>,
  \<^verbatim>\<open>minio.go\<close>, \<^verbatim>\<open>minio_admin.go\<close>), which ignore the world, and a sample
  runtime over a world that is just the time in nanoseconds. The two make the concrete server on
  which the properties with hypotheses are exercised.
\<close>

section \<open>The mocks of the repository\<close>

definition mock_nomad :: "gostring \<Rightarrow> ('w, nomad_token_self option) call" where
  "mock_nomad token w =
     (if token = [] \<or> token = ''invalid'' then (Inl ErrInvalidToken, w)
      else (Inr (Some \<lparr>nt_name = ''pool-calm_dassie'', nt_type = ''client'',
                        nt_namespace = ''su-mbhg-hostgen'', nt_policies = [], nt_roles = []\<rparr>), w))"

definition mock_nomad_admin :: "'w nomad_admin" where
  "mock_nomad_admin =
     \<lparr>na_var_get = (\<lambda>ns p w. (Inl ErrVarNotFound, w)),
      na_var_put = (\<lambda>ns p v w. (Inr (), w)),
      na_create_token = (\<lambda>slot role w. (Inr (''mock-accessor-'' @ slot, ''mock-secret-'' @ slot), w)),
      na_delete_token = (\<lambda>acc w. (Inr (), w)),
      na_get_role_id = (\<lambda>name w. (Inr ''mock-role'', w))\<rparr>"

definition mock_hub :: "'w hub" where
  "mock_hub =
     \<lparr>hub_mint = (\<lambda>user note expires_in w.
        (Inr \<lparr>jh_token_value = ''mock-jh-token-for-'' @ user, jh_id = ''mock-1'',
              jh_expires_at = ''2026-06-11T00:00:00Z'',
              jh_scopes = Some [''access:servers!user='' @ user], jh_note = note\<rparr>, w)),
      hub_user_exists = None, hub_stop_server = None\<rparr>"

definition blank_slot :: slot where
  "blank_slot =
     \<lparr>sl_id = [], sl_slot_name = [], sl_group = [], sl_group_name = [], sl_nomad_token_secret = [],
      sl_nomad_token_accessor = [], sl_minio_access_key = [], sl_minio_secret_key = [],
      sl_state = [], sl_cred_source = [], sl_opaque_token_hash = [], sl_config_yaml = [],
      sl_claim_code = [], sl_claimed_by_name = [], sl_claimed_by_email = [], sl_claimed_at = []\<rparr>"

definition mock_slot :: slot where
  "mock_slot = blank_slot
     \<lparr>sl_id := ''mock'', sl_slot_name := ''slot-calm_dassie'', sl_group_name := ''mbhg-hostgen'',
      sl_nomad_token_secret := ''mock-nomad-token-secret'', sl_minio_access_key := ''calm_dassie'',
      sl_minio_secret_key := ''mock-minio-secret-key'', sl_state := ''claimed'',
      sl_cred_source := ''seedling/v1''\<rparr>"

definition mock_manager :: "'w slot_manager" where
  "mock_manager =
     \<lparr>sm_get_slot = (\<lambda>i w. (Inr mock_slot, w)), sm_patch_slot = (\<lambda>i p w. (Inr (), w)),
      sm_invalidate = (\<lambda>u w. w), sm_list_slots = (\<lambda>f n w. (Inr [mock_slot], w))\<rparr>"

definition mock_store :: "'w slot_store" where
  "mock_store =
     \<lparr>ss_find_slot = (\<lambda>q w.
        if contains q ''opaque_token_hash='' \<or> contains q ''slot_name=''
        then (Inr (Some mock_slot), w) else (Inr None, w)),
      ss_group_name = (\<lambda>slot w. (sl_group_name slot, w)),
      ss_cached_state = (\<lambda>u w. (''none'', w)),
      ss_manager = Some mock_manager, ss_keys = None, ss_pb_get = None\<rparr>"

definition mock_minio :: "'w minio" where
  "mock_minio =
     \<lparr>mi_validate = (\<lambda>k p w. (Inr (k \<noteq> [] \<and> p \<noteq> [] \<and> p \<noteq> ''wrong''), w)),
      mi_console_login = Some (\<lambda>k p w.
        if k = [] \<or> p = [] \<or> p = ''wrong'' then (Inr [], w) else (Inr (''mock-jwt-'' @ k), w))\<rparr>"

definition mock_minio_admin :: "'w minio_admin" where
  "mock_minio_admin =
     \<lparr>ma_rotate_secret = (\<lambda>u w. (Inr (''mock-secret-for-'' @ u), w)),
      ma_set_enabled = (\<lambda>u b w. (Inr (), w))\<rparr>"

definition mock_upstreams :: "cluster_info \<Rightarrow> gostring \<Rightarrow> 'w upstreams" where
  "mock_upstreams cluster hub_url =
     \<lparr>up_nomad = mock_nomad, up_nomad_admin = Some mock_nomad_admin, up_hub = mock_hub,
      up_store = Some mock_store, up_minio = mock_minio, up_minio_admin = Some mock_minio_admin,
      up_cluster = cluster, up_hub_public_url = hub_url\<rparr>"

section \<open>A sample runtime and server\<close>

definition sample_cluster :: cluster_info where
  "sample_cluster =
     \<lparr>cl_name = ''c'', cl_nomad_endpoint = ''n'', cl_minio_endpoint = ''m'', cl_upload_endpoint = ''u'',
      cl_auth_endpoint = ''a'', cl_datacenter = ''d'', cl_head_pool = ''h'', cl_worker_pool = ''w''\<rparr>"

definition sample_runtime :: "int runtime" where
  "sample_runtime =
     \<lparr>rt_now = (\<lambda>w. (w, w + second)), rt_rand = (\<lambda>n w. (Inr (replicate n (CHR ''r'')), w)),
      rt_hmac_sha256 = (\<lambda>k m. k @ m), rt_sha256 = (\<lambda>m. m),
      rt_hkdf = (\<lambda>k salt info. Inr (take 32 (k @ info))),
      rt_gcm_seal = (\<lambda>k n aad p. p @ replicate 16 (CHR ''t'')),
      rt_gcm_open = (\<lambda>k n aad c.
        if 16 \<le> length c \<and> drop (length c - 16) c = replicate 16 (CHR ''t'')
        then Inr (take (length c - 16) c) else Inl (ErrText ''authentication failed'')),
      rt_age_identity = (\<lambda>w. (Inr (''AGE-SECRET'', ''age1recipient''), w)),
      rt_b64_error = (\<lambda>t. ''illegal base64 data''),
      rt_float = (\<lambda>t. if scan_number t = Some (t, []) then Some t else None),
      rt_is_print = (\<lambda>n. True),
      rt_mkdir_all = (\<lambda>d w. (Inr (), w)), rt_chmod = (\<lambda>f w. (Inr (), w)),
      rt_write_file = (\<lambda>f c w. (Inr (), w)), rt_remove = (\<lambda>f w. (Inr (), w))\<rparr>"

definition sample_config :: config where
  "sample_config =
     \<lparr>cf_session_secret = ''k'', cf_session_ttl = 3600 * second, cf_cookie_secure = True,
      cf_cookie_domain = [], cf_shadow_validate_url = [], cf_cli_token_ttl = 60 * second,
      cf_operator_token = ''op'', cf_root_mk_b64 = [], cf_log_level = 0,
      cf_jupyterhub_admin_token = ''jh'', cf_jupyterhub_api_url = ''http://hub'',
      cf_mock_upstreams = True\<rparr>"

definition sample_server :: "int server" where
  "sample_server =
     \<lparr>sv_cfg = sample_config, sv_up = mock_upstreams sample_cluster ''http://hub.public'',
      sv_rt = sample_runtime, sv_shadow = (\<lambda>url c u w. (Inr (200, []), w))\<rparr>"

definition sample_state :: "int st" where
  "sample_state =
     \<lparr>st_world = 0, st_codes = Map.empty, st_level = None, st_log = [], st_calls = []\<rparr>"

definition sample_request :: request where
  "sample_request =
     \<lparr>rq_method = ''GET'', rq_path = ''/'', rq_host = ''h'', rq_headers = [], rq_cookies = [],
      rq_query = [], rq_form = [], rq_slot = [], rq_body = []\<rparr>"

text \<open>The same for a world of any kind: a runtime that leaves it alone, a server on given upstreams,
  and a state to start from.\<close>

definition plain_runtime :: "'w runtime" where
  "plain_runtime =
     \<lparr>rt_now = (\<lambda>w. (0, w)), rt_rand = (\<lambda>n w. (Inr (replicate n (CHR ''r'')), w)),
      rt_hmac_sha256 = (\<lambda>k m. k @ m), rt_sha256 = (\<lambda>m. m), rt_hkdf = (\<lambda>k salt info. Inr k),
      rt_gcm_seal = (\<lambda>k n aad p. p), rt_gcm_open = (\<lambda>k n aad p. Inr p),
      rt_age_identity = (\<lambda>w. (Inr (''s'', ''r''), w)), rt_b64_error = (\<lambda>t. ''bad''),
      rt_float = (\<lambda>t. if scan_number t = Some (t, []) then Some t else None),
      rt_is_print = (\<lambda>n. True), rt_mkdir_all = (\<lambda>d w. (Inr (), w)),
      rt_chmod = (\<lambda>f w. (Inr (), w)), rt_write_file = (\<lambda>f x w. (Inr (), w)),
      rt_remove = (\<lambda>f w. (Inr (), w))\<rparr>"

definition plain_server :: "'w upstreams \<Rightarrow> 'w server" where
  "plain_server up =
     \<lparr>sv_cfg = sample_config, sv_up = up, sv_rt = plain_runtime,
      sv_shadow = (\<lambda>url x u w. (Inr (200, []), w))\<rparr>"

definition plain_state :: "'w \<Rightarrow> 'w st" where
  "plain_state w =
     \<lparr>st_world = w, st_codes = Map.empty, st_level = None, st_log = [], st_calls = []\<rparr>"

end
