(* ===== verification/Exchange.thy ===== *)
theory Exchange
  imports Identity Go_Text Mock_Upstreams
begin

text \<open>
  \<^verbatim>\<open>exchange.go\<close>: the credential broker. The caller presents an opaque token as a bearer;
  its hash selects a claimed slot, and the response carries the slot's Nomad and MinIO credentials.
\<close>

record creds_bundle =
  cb_whoami :: gostring
  cb_nomad_addr :: gostring
  cb_nomad_token :: gostring
  cb_nomad_namespace :: gostring
  cb_datacenters :: "gostring list"
  cb_head_pool :: gostring
  cb_worker_pool :: gostring
  cb_minio_endpoint :: gostring
  cb_access_key :: gostring
  cb_secret_key :: gostring

definition bundle_json :: "creds_bundle \<Rightarrow> json" where
  "bundle_json b =
     JObj [(''whoami'', JStr (cb_whoami b)), (''source'', JStr ''seedling/v1''),
           (''nomad'', JObj [(''addr'', JStr (cb_nomad_addr b)), (''token'', JStr (cb_nomad_token b)),
              (''namespace'', JStr (cb_nomad_namespace b)),
              (''datacenters'', JArr (map JStr (cb_datacenters b))),
              (''head_pool'', JStr (cb_head_pool b)), (''worker_pool'', JStr (cb_worker_pool b))]),
           (''minio'', JObj [(''endpoint'', JStr (cb_minio_endpoint b)),
              (''access_key'', JStr (cb_access_key b)), (''secret_key'', JStr (cb_secret_key b))])]"

definition bundle_of :: "cluster_info \<Rightarrow> slot \<Rightarrow> gostring \<Rightarrow> creds_bundle" where
  "bundle_of cl slot grp =
     \<lparr>cb_whoami = sl_slot_name slot, cb_nomad_addr = cl_nomad_endpoint cl,
      cb_nomad_token = sl_nomad_token_secret slot,
      cb_nomad_namespace = (if grp = [] then [] else namespace_for_group grp),
      cb_datacenters = [cl_datacenter cl], cb_head_pool = cl_head_pool cl,
      cb_worker_pool = cl_worker_pool cl, cb_minio_endpoint = cl_minio_endpoint cl,
      cb_access_key = sl_minio_access_key slot, cb_secret_key = sl_minio_secret_key slot\<rparr>"

definition opaque_filter :: "gostring \<Rightarrow> gostring" where
  "opaque_filter hash =
     eq_filter ''opaque_token_hash'' hash @ '' && '' @ eq_filter ''state'' ''claimed''"

definition handle_auth_exchange :: "'w server \<Rightarrow> request \<Rightarrow> 'w st \<Rightarrow> response \<times> 'w st" where
  "handle_auth_exchange sv r s =
     (case up_store (sv_up sv) of
        None \<Rightarrow> (err_json 500 ''internal_error'', log_at L1 ''exchange.no_store'' [] s)
      | Some ss \<Rightarrow>
          (case bearer_value (rq_header r ''Authorization'') of
             None \<Rightarrow> (err_json 401 ''missing_bearer_token'', s)
           | Some opaque \<Rightarrow>
               if opaque = [] then (err_json 401 ''empty_bearer_token'', s)
               else
                 (let q = opaque_filter (sha256_hex sv opaque) in
                  case io (FindSlot q) (ss_find_slot ss q) s of
                    (Inl e, s1) \<Rightarrow>
                      (err_json 500 ''internal_error'',
                       log_at L1 ''exchange.lookup_failed'' [AStr ''error'' (error_text e)] s1)
                  | (Inr None, s1) \<Rightarrow> (err_json 401 ''invalid_or_inactive_token'', s1)
                  | (Inr (Some slot), s1) \<Rightarrow>
                      if trim_space (sl_cred_source slot) \<noteq> ''seedling/v1''
                      then (err_json 409 ''slot_not_on_seedling_v1'',
                            log_at L1 ''exchange.wrong_cred_source''
                              [AStr ''slot'' (sl_slot_name slot),
                               AStr ''cred_source'' (sl_cred_source slot)] s1)
                      else (case io_total (GroupName (sl_id slot)) (ss_group_name ss slot) s1 of
                          (grp, s2) \<Rightarrow>
                            (write_json 200
                               (bundle_json (bundle_of (up_cluster (sv_up sv)) slot grp)),
                             log_at L1 ''exchange.ok'' [AStr ''slot'' (sl_slot_name slot)] s2)))))"

section \<open>Properties\<close>

definition exchange_grant ::
  "'w server \<Rightarrow> request \<Rightarrow> 'w st \<Rightarrow> gostring \<Rightarrow> slot \<Rightarrow> json \<Rightarrow> bool" where
  "exchange_grant sv r s opaque slot b \<longleftrightarrow>
     bearer_value (rq_header r ''Authorization'') = Some opaque \<and> opaque \<noteq> []
     \<and> trim_space (sl_cred_source slot) = ''seedling/v1''
     \<and> (\<exists>ss w. up_store (sv_up sv) = Some ss
          \<and> ss_find_slot ss (opaque_filter (sha256_hex sv opaque)) (st_world s) = (Inr (Some slot), w)
          \<and> b = bundle_json (bundle_of (up_cluster (sv_up sv)) slot (fst (ss_group_name ss slot w))))"

lemma exchange_cases:
  obtains opaque slot b where "exchange_grant sv r s opaque slot b"
      and "fst (handle_auth_exchange sv r s) = write_json 200 b"
  | "\<exists>c\<in>{401, 409, 500}. \<exists>m. fst (handle_auth_exchange sv r s) = err_json c m"
      and "\<nexists>opaque slot b. exchange_grant sv r s opaque slot b"
proof (cases "up_store (sv_up sv)")
  case None
  then show thesis using that(2)
    by (simp add: handle_auth_exchange_def exchange_grant_def err_json_inject)
next
  case (Some ss)
  show thesis
  proof (cases "bearer_value (rq_header r ''Authorization'')")
    case None
    with Some show thesis using that(2)
      by (simp add: handle_auth_exchange_def exchange_grant_def err_json_inject)
  next
    case (Some opaque)
    note store = \<open>up_store (sv_up sv) = Some ss\<close> and bearer = Some
    let ?q = "opaque_filter (sha256_hex sv opaque)"
    obtain res s1 where f: "io (FindSlot ?q) (ss_find_slot ss ?q) s = (res, s1)" by force
    note w = io_eqD(1) [OF f]
    consider "opaque = []" | "\<exists>e. res = Inl e" | "res = Inr None"
      | slot where "opaque \<noteq> []" "res = Inr (Some slot)"
      by (metis not_Some_eq sum.exhaust)
    then show thesis
    proof cases
      case (4 slot)
      show thesis
      proof (cases "trim_space (sl_cred_source slot) = ''seedling/v1''")
        case True
        with store bearer f w 4 show thesis
          using that(1) [of opaque slot]
          by (simp add: handle_auth_exchange_def exchange_grant_def io_total_def case_prod_beta)
      next
        case False
        with store bearer f w 4 show thesis
          using that(2) by (simp add: handle_auth_exchange_def exchange_grant_def err_json_inject)
      qed
    qed (use store bearer f w that(2) in
      \<open>auto simp: handle_auth_exchange_def exchange_grant_def Let_def err_json_inject\<close>)
  qed
qed

text \<open>The broker answers 200 exactly when the bearer's hash selects a slot whose credential
  source is the broker's, and then with that slot's bundle; every other answer is 401, 409 or 500
  with an error name only.\<close>

lemma exchange_outcome:
  "(\<exists>opaque slot b. exchange_grant sv r s opaque slot b
      \<and> fst (handle_auth_exchange sv r s) = write_json 200 b)
   \<or> (\<nexists>opaque slot b. exchange_grant sv r s opaque slot b)
      \<and> (\<exists>c\<in>{401, 409, 500}. \<exists>m. fst (handle_auth_exchange sv r s) = err_json c m)"
  by (cases rule: exchange_cases [of sv r s]) blast+

text \<open>Only the hash of an opaque token reaches the store, the log or the response: two
  requests whose bearers have the same hash are indistinguishable.\<close>

lemma exchange_only_hash:
  assumes "rt_sha256 (sv_rt sv) a = rt_sha256 (sv_rt sv) b" and "a \<noteq> []" and "b \<noteq> []"
    and "bearer_value (rq_header r ''Authorization'') = Some a"
    and "bearer_value (rq_header r' ''Authorization'') = Some b"
  shows "handle_auth_exchange sv r s = handle_auth_exchange sv r' s"
  using assms by (simp add: handle_auth_exchange_def sha256_hex_def split: option.split)

lemma exchange_only_hash_witness:
  "handle_auth_exchange (sample_server\<lparr>sv_rt := sample_runtime\<lparr>rt_sha256 := \<lambda>m. take 1 m\<rparr>\<rparr>)
     (sample_request\<lparr>rq_headers := [(''Authorization'', ''Bearer abco_1'')]\<rparr>) sample_state
   = handle_auth_exchange (sample_server\<lparr>sv_rt := sample_runtime\<lparr>rt_sha256 := \<lambda>m. take 1 m\<rparr>\<rparr>)
     (sample_request\<lparr>rq_headers := [(''Authorization'', ''bearer abco_2'')]\<rparr>) sample_state"
  by (rule exchange_only_hash [of _ "''abco_1''" "''abco_2''"]) code_simp+

text \<open>What PocketBase documents of the two filters' conjunction: a record it returns satisfies it.\<close>

definition opaque_query_sound :: "'w slot_store \<Rightarrow> bool" where
  "opaque_query_sound ss \<longleftrightarrow>
     (\<forall>h w slot w'. ss_find_slot ss (opaque_filter h) w = (Inr (Some slot), w')
        \<longrightarrow> sl_opaque_token_hash slot = h \<and> sl_state slot = ''claimed'')"


definition exchange_sample :: "int server" where
  "exchange_sample = sample_server\<lparr>sv_up := (mock_upstreams sample_cluster [])
     \<lparr>up_store := Some (mock_store\<lparr>ss_find_slot := \<lambda>q w.
        if q = opaque_filter (hex_encode ''abco_1'')
        then (Inr (Some (mock_slot\<lparr>sl_opaque_token_hash := hex_encode ''abco_1''\<rparr>)), w)
        else (Inr None, w)\<rparr>)\<rparr>\<rparr>"

lemma opaque_filter_inject: "opaque_filter a = opaque_filter b \<longleftrightarrow> a = b"
  by (simp add: opaque_filter_def eq_filter_def)


end
