(* ===== verification/Secrets.thy ===== *)
theory Secrets
  imports Exchange
begin

text \<open>
  \<^verbatim>\<open>secrets.go\<close>: the per-slot secrets kept in Nomad variables. A caller is the claimed slot
  its opaque token hashes to; a secret lives at \<^verbatim>\<open>abc/users/<slot>/<key>\<close> in the namespace
  of the slot's group.
\<close>

section \<open>The caller\<close>

definition secrets_auth_slot :: "'w server \<Rightarrow> request \<Rightarrow> 'w st \<Rightarrow> (response, slot) result \<times> 'w st" where
  "secrets_auth_slot sv r s =
     (case bearer_value (rq_header r ''Authorization'') of
        None \<Rightarrow> (Inl (err_json 401 ''missing_bearer_token''), s)
      | Some opaque \<Rightarrow>
          if opaque = [] then (Inl (err_json 401 ''empty_bearer_token''), s)
          else (case up_store (sv_up sv) of
              None \<Rightarrow> (Inl (err_json 500 ''store_not_configured''), s)
            | Some ss \<Rightarrow>
                (let q = opaque_filter (sha256_hex sv opaque) in
                 case io (FindSlot q) (ss_find_slot ss q) s of
                   (Inl e, s1) \<Rightarrow>
                     (Inl (err_json 500 ''internal_error''),
                      log_at L1 ''secrets.auth.lookup_failed'' [AStr ''error'' (error_text e)] s1)
                 | (Inr None, s1) \<Rightarrow> (Inl (err_json 401 ''invalid_or_inactive_token''), s1)
                 | (Inr (Some slot), s1) \<Rightarrow> (Inr slot, s1))))"

definition secrets_body :: "'w server \<Rightarrow> request \<Rightarrow> (gostring \<times> json) list option" where
  "secrets_body sv r =
     (let raw = read_limited body_limit r in
      if raw = [] then Some []
      else (case json_unmarshal raw of
          None \<Rightarrow> None
        | Some v \<Rightarrow>
            if any_in_range (rt_float (sv_rt sv)) v then struct_members v else None))"

section \<open>Where a secret lives\<close>

definition secret_path :: "gostring \<Rightarrow> gostring \<Rightarrow> gostring" where
  "secret_path slot_name key = ''abc/users/'' @ slot_name @ ''/'' @ key"

definition secrets_namespace_and_path ::
  "'w server \<Rightarrow> slot \<Rightarrow> gostring \<Rightarrow> gostring \<Rightarrow> 'w st \<Rightarrow> (gostring \<times> gostring) \<times> 'w st" where
  "secrets_namespace_and_path sv slot key group_override s =
     (let (group_name, s1) =
        (let g = trim_space group_override in
         if g = [] then
           (case up_store (sv_up sv) of
              None \<Rightarrow> (g, s)
            | Some ss \<Rightarrow> io_total (GroupName (sl_id slot)) (ss_group_name ss slot) s)
         else (g, s));
          nmsp = (if group_name = [] then ''default'' else namespace_for_group group_name)
      in ((nmsp, secret_path (sl_slot_name slot) key), s1))"

text \<open>\<^verbatim>\<open>stringify\<close>: strings as they are, null as nothing, the rest as compact JSON.\<close>

definition stringify :: "(gostring \<Rightarrow> gostring option) \<Rightarrow> json \<Rightarrow> gostring" where
  "stringify fl v =
     (case v of JStr x \<Rightarrow> x | JNull \<Rightarrow> [] | _ \<Rightarrow> json_encode (any_canon fl v))"

section \<open>POST /auth/secrets/put and POST /auth/secrets/get\<close>

text \<open>The tails of the two handlers, once the caller, the key and the Nomad client are known.\<close>

definition store_secret ::
  "'w server \<Rightarrow> 'w nomad_admin \<Rightarrow> slot \<Rightarrow> gostring \<Rightarrow> gostring \<Rightarrow> gostring \<Rightarrow> 'w st
   \<Rightarrow> response \<times> 'w st" where
  "store_secret sv na slot key group_override value s =
     (case secrets_namespace_and_path sv slot key group_override s of
        ((nmsp, path), s1) \<Rightarrow>
          (case io (VarPut nmsp path value) (na_var_put na nmsp path value) s1 of
             (Inl e, s2) \<Rightarrow>
               (err_json 500 ''store_failed'',
                log_at L1 ''secrets.put.store_failed''
                  [AStr ''slot'' (sl_slot_name slot), AStr ''key'' key, AStr ''ns'' nmsp,
                   AStr ''error'' (error_text e)] s2)
           | (Inr _, s2) \<Rightarrow>
               (write_json 200 (JObj [(''ok'', JBool True)]),
                log_at L1 ''secrets.put.ok''
                  [AStr ''slot'' (sl_slot_name slot), AStr ''key'' key, AStr ''ns'' nmsp] s2)))"

definition fetch_secret ::
  "'w server \<Rightarrow> 'w nomad_admin \<Rightarrow> slot \<Rightarrow> gostring \<Rightarrow> 'w st \<Rightarrow> response \<times> 'w st" where
  "fetch_secret sv na slot key s =
     (case secrets_namespace_and_path sv slot key [] s of
        ((nmsp, path), s1) \<Rightarrow>
          (case io (VarGet nmsp path) (na_var_get na nmsp path) s1 of
             (Inl e, s2) \<Rightarrow>
               if e = ErrVarNotFound then (err_json 404 ''not_found'', s2)
               else (err_json 500 ''read_failed'',
                     log_at L1 ''secrets.get.read_failed''
                       [AStr ''slot'' (sl_slot_name slot), AStr ''key'' key, AStr ''ns'' nmsp,
                        AStr ''error'' (error_text e)] s2)
           | (Inr val, s2) \<Rightarrow>
               (write_json 200 (JObj [(''value'', JStr val)]),
                log_at L1 ''secrets.get.ok''
                  [AStr ''slot'' (sl_slot_name slot), AStr ''key'' key, AStr ''ns'' nmsp] s2)))"

definition handle_secrets_put :: "'w server \<Rightarrow> request \<Rightarrow> 'w st \<Rightarrow> response \<times> 'w st" where
  "handle_secrets_put sv r s =
     (case secrets_auth_slot sv r s of
        (Inl resp, s1) \<Rightarrow> (resp, s1)
      | (Inr slot, s1) \<Rightarrow>
          (case secrets_body sv r of
             None \<Rightarrow> (err_json 400 ''bad_json'', s1)
           | Some body \<Rightarrow>
               (let key = trim_space (any_string (any_lookup body ''key''));
                    group_override = any_string (any_lookup body ''group'') in
                case any_lookup body ''value'' of
                  None \<Rightarrow> (err_json 400 ''key_and_value_required'', s1)
                | Some val \<Rightarrow>
                    if key = [] then (err_json 400 ''key_and_value_required'', s1)
                    else
                      (let value = stringify (rt_float (sv_rt sv)) val in
                       case up_nomad_admin (sv_up sv) of
                         None \<Rightarrow> (err_json 500 ''nomad_admin_not_configured'', s1)
                       | Some na \<Rightarrow> store_secret sv na slot key group_override value s1))))"

definition handle_secrets_get :: "'w server \<Rightarrow> request \<Rightarrow> 'w st \<Rightarrow> response \<times> 'w st" where
  "handle_secrets_get sv r s =
     (case secrets_auth_slot sv r s of
        (Inl resp, s1) \<Rightarrow> (resp, s1)
      | (Inr slot, s1) \<Rightarrow>
          (case secrets_body sv r of
             None \<Rightarrow> (err_json 400 ''bad_json'', s1)
           | Some body \<Rightarrow>
               (let key = trim_space (any_string (any_lookup body ''key'')) in
                if key = [] then (err_json 400 ''key_required'', s1)
                else (case up_nomad_admin (sv_up sv) of
                    None \<Rightarrow> (err_json 500 ''nomad_admin_not_configured'', s1)
                  | Some na \<Rightarrow> fetch_secret sv na slot key s1))))"

section \<open>Slots are separated\<close>

lemma split_first_slash:
  "CHR ''/'' \<notin> set a \<Longrightarrow> CHR ''/'' \<notin> set b \<Longrightarrow>
     a @ CHR ''/'' # k = b @ CHR ''/'' # l \<Longrightarrow> a = b \<and> k = l"
proof (induction a arbitrary: b)
  case Nil
  then show ?case by (cases b) auto
next
  case (Cons x a)
  then show ?case by (cases b) auto
qed

lemma secret_path_inject:
  assumes "CHR ''/'' \<notin> set a" and "CHR ''/'' \<notin> set b" and "secret_path a k = secret_path b l"
  shows "a = b \<and> k = l"
  using split_first_slash [OF assms(1,2), of k l] assms(3) by (simp add: secret_path_def)

lemma secrets_auth_slot_calls:
  "\<exists>cs. st_calls (snd (secrets_auth_slot sv r s)) = st_calls s @ cs
     \<and> fst ` set cs \<subseteq> range FindSlot"
  by (auto simp: secrets_auth_slot_def io_def Let_def
      split: option.split sum.split prod.split)

lemma secrets_namespace_and_path_result:
  "snd (fst (secrets_namespace_and_path sv slot key g s)) = secret_path (sl_slot_name slot) key"
  by (simp add: secrets_namespace_and_path_def Let_def case_prod_beta)

lemma secrets_namespace_and_path_calls:
  "\<exists>cs. st_calls (snd (secrets_namespace_and_path sv slot key g s)) = st_calls s @ cs
     \<and> fst ` set cs \<subseteq> range GroupName"
  by (auto simp: secrets_namespace_and_path_def io_total_def Let_def case_prod_beta
      split: option.split)

text \<open>The variables a request touches: those of the variable calls it adds.\<close>

definition var_path :: "upcall \<Rightarrow> gostring option" where
  "var_path c = (case c of VarGet ns p \<Rightarrow> Some p | VarPut ns p v \<Rightarrow> Some p | _ \<Rightarrow> None)"

definition new_calls :: "'w st \<Rightarrow> 'w st \<Rightarrow> upcall list" where
  "new_calls s s' = map fst (drop (length (st_calls s)) (st_calls s'))"

definition vars_touched :: "'w st \<Rightarrow> 'w st \<Rightarrow> gostring set" where
  "vars_touched s s' = {p. \<exists>c\<in>set (new_calls s s'). var_path c = Some p}"

lemma new_calls_append: "st_calls s' = st_calls s @ cs \<Longrightarrow> new_calls s s' = map fst cs"
  by (simp add: new_calls_def)

text \<open>How a request's calls compose: those of the authentication, the group lookup, the variable.\<close>

lemma vars_touched_reads:
  assumes "st_calls s' = st_calls s @ cs @ ds @ vs"
    and "fst ` set cs \<subseteq> range FindSlot" and "fst ` set ds \<subseteq> range GroupName"
  shows "vars_touched s s' = {p. \<exists>c\<in>fst ` set vs. var_path c = Some p}"
proof -
  have "\<forall>c\<in>fst ` (set cs \<union> set ds). var_path c = None"
    using assms(2,3) by (auto simp: var_path_def)
  with new_calls_append [OF assms(1)] show ?thesis
    by (auto simp: vars_touched_def image_Un) (metis UnCI fst_conv image_eqI option.distinct(1))+
qed

lemma vars_touched_none: "fst ` set cs \<subseteq> range FindSlot \<Longrightarrow> st_calls s' = st_calls s @ cs
    \<Longrightarrow> vars_touched s s' = {}"
  using vars_touched_reads [of s' s cs "[]" "[]"] by simp

definition own_paths :: "'w server \<Rightarrow> request \<Rightarrow> 'w st \<Rightarrow> gostring set" where
  "own_paths sv r s =
     (case fst (secrets_auth_slot sv r s) of
        Inl _ \<Rightarrow> {}
      | Inr slot \<Rightarrow> range (secret_path (sl_slot_name slot)))"

lemma store_secret_calls:
  "\<exists>ds n b. st_calls (snd (store_secret sv na slot key g v s)) =
     st_calls s @ ds @ [(VarPut n (secret_path (sl_slot_name slot) key) v, b)]
     \<and> fst ` set ds \<subseteq> range GroupName"
proof -
  obtain n s1 where ns: "secrets_namespace_and_path sv slot key g s =
      ((n, secret_path (sl_slot_name slot) key), s1)"
    using secrets_namespace_and_path_result [of sv slot key g s] by (metis prod.collapse)
  let ?p = "secret_path (sl_slot_name slot) key"
  obtain x s2 where io: "io (VarPut n ?p v) (na_var_put na n ?p v) s1 = (x, s2)" by force
  have "st_calls (snd (store_secret sv na slot key g v s)) = st_calls s2"
    by (simp add: store_secret_def ns io split: sum.split)
  with io_eqD(5) [OF io] secrets_namespace_and_path_calls [of sv slot key g s] ns show ?thesis
    by auto
qed

lemma fetch_secret_calls:
  "\<exists>ds n b. st_calls (snd (fetch_secret sv na slot key s)) =
     st_calls s @ ds @ [(VarGet n (secret_path (sl_slot_name slot) key), b)]
     \<and> fst ` set ds \<subseteq> range GroupName"
proof -
  obtain n s1 where ns: "secrets_namespace_and_path sv slot key [] s =
      ((n, secret_path (sl_slot_name slot) key), s1)"
    using secrets_namespace_and_path_result [of sv slot key "[]" s] by (metis prod.collapse)
  let ?p = "secret_path (sl_slot_name slot) key"
  obtain x s2 where io: "io (VarGet n ?p) (na_var_get na n ?p) s1 = (x, s2)" by force
  have "st_calls (snd (fetch_secret sv na slot key s)) = st_calls s2"
    by (simp add: fetch_secret_def ns io split: sum.split)
  with io_eqD(5) [OF io] secrets_namespace_and_path_calls [of sv slot key "[]" s] ns show ?thesis
    by auto
qed

lemma secrets_put_vars: "vars_touched s (snd (handle_secrets_put sv r s)) \<subseteq> own_paths sv r s"
proof -
  obtain a s1 where a: "secrets_auth_slot sv r s = (a, s1)" by force
  then obtain cs where cs: "st_calls s1 = st_calls s @ cs" "fst ` set cs \<subseteq> range FindSlot"
    using secrets_auth_slot_calls [of sv r s] by auto
  have "snd (handle_secrets_put sv r s) = s1
      \<or> (\<exists>slot na key g v. a = Inr slot
           \<and> handle_secrets_put sv r s = store_secret sv na slot key g v s1)"
    by (cases a) (auto simp: handle_secrets_put_def a Let_def split: option.split)
  then consider "snd (handle_secrets_put sv r s) = s1"
    | slot na key g v where "a = Inr slot" "handle_secrets_put sv r s = store_secret sv na slot key g v s1"
    by blast
  then show ?thesis
  proof cases
    case 1
    with vars_touched_none [OF cs(2,1)] show ?thesis by simp
  next
    case 2
    from store_secret_calls [of sv na slot key g v s1] obtain ds n b where
      "st_calls (snd (handle_secrets_put sv r s)) =
        st_calls s @ cs @ ds @ [(VarPut n (secret_path (sl_slot_name slot) key) v, b)]"
      and "fst ` set ds \<subseteq> range GroupName" unfolding 2(2) cs(1) by auto
    from vars_touched_reads [OF this(1) cs(2) this(2)] show ?thesis
      using a 2(1) by (auto simp: own_paths_def var_path_def)
  qed
qed

lemma secrets_get_vars: "vars_touched s (snd (handle_secrets_get sv r s)) \<subseteq> own_paths sv r s"
proof -
  obtain a s1 where a: "secrets_auth_slot sv r s = (a, s1)" by force
  then obtain cs where cs: "st_calls s1 = st_calls s @ cs" "fst ` set cs \<subseteq> range FindSlot"
    using secrets_auth_slot_calls [of sv r s] by auto
  have "snd (handle_secrets_get sv r s) = s1
      \<or> (\<exists>slot na key. a = Inr slot \<and> handle_secrets_get sv r s = fetch_secret sv na slot key s1)"
    by (cases a) (auto simp: handle_secrets_get_def a Let_def split: option.split)
  then consider "snd (handle_secrets_get sv r s) = s1"
    | slot na key where "a = Inr slot" "handle_secrets_get sv r s = fetch_secret sv na slot key s1"
    by blast
  then show ?thesis
  proof cases
    case 1
    with vars_touched_none [OF cs(2,1)] show ?thesis by simp
  next
    case 2
    from fetch_secret_calls [of sv na slot key s1] obtain ds n b where
      "st_calls (snd (handle_secrets_get sv r s)) =
        st_calls s @ cs @ ds @ [(VarGet n (secret_path (sl_slot_name slot) key), b)]"
      and "fst ` set ds \<subseteq> range GroupName" unfolding 2(2) cs(1) by auto
    from vars_touched_reads [OF this(1) cs(2) this(2)] show ?thesis
      using a 2(1) by (auto simp: own_paths_def var_path_def)
  qed
qed

text \<open>\<open>C24\<close>: a secrets request reads and writes variables only under \<^verbatim>\<open>abc/users/<slot>/\<close> of
  the slot its bearer authenticates, none at all if there is no such slot; and the paths of two slots
  whose names have no slash never coincide.\<close>

theorem secrets_stay_in_own_slot:
  "vars_touched s (snd (handle_secrets_put sv r s)) \<subseteq> own_paths sv r s
   \<and> vars_touched s (snd (handle_secrets_get sv r s)) \<subseteq> own_paths sv r s
   \<and> {(a, k, b, l). CHR ''/'' \<notin> set a \<and> CHR ''/'' \<notin> set b
        \<and> secret_path a k = secret_path b l} \<subseteq> {(a, k, b, l). a = b \<and> k = l}"
  using secrets_put_vars secrets_get_vars secret_path_inject by blast

end
