(* ===== verification/Operator.thy ===== *)
theory Operator
  imports Mock_Upstreams
begin

text \<open>
  The operator tier of \<^verbatim>\<open>manage.go\<close> and \<^verbatim>\<open>manage_list.go\<close>: the gate on
  \<^verbatim>\<open>X-Operator-Token\<close>, the slot lookup the handlers share, and the two read-only
  endpoints with their projection of a slot.
\<close>

section \<open>The gate\<close>

definition operator_ok :: "'w server \<Rightarrow> request \<Rightarrow> bool" where
  "operator_ok sv r \<longleftrightarrow>
     cf_operator_token (sv_cfg sv) \<noteq> []
     \<and> rq_header r ''X-Operator-Token'' = cf_operator_token (sv_cfg sv)"

definition require_operator :: "'w server \<Rightarrow> request \<Rightarrow> response option" where
  "require_operator sv r =
     (let token = rq_header r ''X-Operator-Token'' in
      if cf_operator_token (sv_cfg sv) = [] \<or> token \<noteq> cf_operator_token (sv_cfg sv)
      then Some (err_json 401 ''unauthorized'') else None)"

lemma require_operator_iff:
  "require_operator sv r = (if operator_ok sv r then None else Some (err_json 401 ''unauthorized''))"
  by (simp add: require_operator_def operator_ok_def)

section \<open>The slot a handler works on\<close>

text \<open>The prologue of the handlers that write: a writable store, the slot of that name.\<close>

definition find_managed ::
  "'w server \<Rightarrow> gostring \<Rightarrow> 'w st
   \<Rightarrow> (response, 'w slot_store \<times> 'w slot_manager \<times> slot) result \<times> 'w st" where
  "find_managed sv slot_name s =
     (case up_store (sv_up sv) of
        None \<Rightarrow> (Inl (err_json 500 ''store_not_writable''), s)
      | Some ss \<Rightarrow>
          (case ss_manager ss of
             None \<Rightarrow> (Inl (err_json 500 ''store_not_writable''), s)
           | Some mgr \<Rightarrow>
               (let q = eq_filter ''slot_name'' slot_name in
                case io (FindSlot q) (ss_find_slot ss q) s of
                  (Inl e, s1) \<Rightarrow> (Inl (err_json 500 ''internal_error''), s1)
                | (Inr None, s1) \<Rightarrow> (Inl (err_json 404 ''not_found''), s1)
                | (Inr (Some slot), s1) \<Rightarrow> (Inr (ss, mgr, slot), s1))))"

definition minio_user :: "slot \<Rightarrow> gostring \<Rightarrow> gostring" where
  "minio_user slot slot_name =
     (if sl_minio_access_key slot = [] then ''slot-'' @ slot_name else sl_minio_access_key slot)"

definition invalidate :: "'w slot_manager \<Rightarrow> gostring \<Rightarrow> 'w st \<Rightarrow> 'w st" where
  "invalidate mgr u s = snd (io_total (InvalidateState u) (\<lambda>w. ((), sm_invalidate mgr u w)) s)"

lemma find_managed_result:
  assumes "find_managed sv n s = (Inr (ss, mgr, slot), s1)"
  shows "up_store (sv_up sv) = Some ss" and "ss_manager ss = Some mgr"
    and "ss_find_slot ss (eq_filter ''slot_name'' n) (st_world s) = (Inr (Some slot), st_world s1)"
    and "st_calls s1 = st_calls s @ [(FindSlot (eq_filter ''slot_name'' n), True)]"
    and "st_log s1 = st_log s" and "st_codes s1 = st_codes s"
  using assms
  by (auto simp: find_managed_def io_def Let_def split: option.splits sum.splits prod.splits)

lemma find_managed_error:
  assumes "find_managed sv n s = (Inl resp, s1)"
  shows "rs_status resp \<in> {404, 500}" and "rs_cookies resp = []"
    and "\<exists>b. st_calls s1 = st_calls s @ b \<and> set b \<subseteq> {(FindSlot (eq_filter ''slot_name'' n), x) | x. True}"
  using assms
  by (auto simp: find_managed_def io_def Let_def split: option.splits sum.splits prod.splits)

section \<open>The public projection\<close>

definition omit_empty :: "gostring \<Rightarrow> gostring \<Rightarrow> (gostring \<times> json) list" where
  "omit_empty k v = (if v = [] then [] else [(k, JStr v)])"

definition to_public_slot :: "slot \<Rightarrow> json" where
  "to_public_slot sl =
     JObj ([(''id'', JStr (sl_id sl)), (''slot_name'', JStr (sl_slot_name sl))]
           @ omit_empty ''group'' (sl_group sl) @ omit_empty ''group_name'' (sl_group_name sl)
           @ [(''state'', JStr (sl_state sl))]
           @ omit_empty ''cred_source'' (sl_cred_source sl)
           @ omit_empty ''minio_access_key'' (sl_minio_access_key sl)
           @ omit_empty ''opaque_token_hash'' (sl_opaque_token_hash sl))"

text \<open>A slot without its secrets: tokens, secret keys, the rendered configuration, the claim data.\<close>

definition without_secrets :: "slot \<Rightarrow> slot" where
  "without_secrets sl = sl
     \<lparr>sl_nomad_token_secret := [], sl_nomad_token_accessor := [], sl_minio_secret_key := [],
      sl_config_yaml := [], sl_claim_code := [], sl_claimed_by_name := [],
      sl_claimed_by_email := [], sl_claimed_at := []\<rparr>"

lemma to_public_slot_without_secrets [simp]:
  "to_public_slot (without_secrets sl) = to_public_slot sl"
  by (simp add: to_public_slot_def without_secrets_def)

section \<open>GET /manage/slots and GET /manage/slots/{slot}\<close>

definition handle_manage_list_slots :: "'w server \<Rightarrow> request \<Rightarrow> 'w st \<Rightarrow> response \<times> 'w st" where
  "handle_manage_list_slots sv r s =
     (case require_operator sv r of
        Some resp \<Rightarrow> (resp, s)
      | None \<Rightarrow>
          (case manager_of sv of
             None \<Rightarrow> (err_json 500 ''store_not_writable'', s)
           | Some mgr \<Rightarrow>
               (case io (ListSlots [] 500) (sm_list_slots mgr [] 500) s of
                  (Inl e, s1) \<Rightarrow> (err_json 500 (error_text e), s1)
                | (Inr slots, s1) \<Rightarrow> (write_json 200 (JArr (map to_public_slot slots)), s1))))"

definition handle_manage_get_slot :: "'w server \<Rightarrow> request \<Rightarrow> 'w st \<Rightarrow> response \<times> 'w st" where
  "handle_manage_get_slot sv r s =
     (case require_operator sv r of
        Some resp \<Rightarrow> (resp, s)
      | None \<Rightarrow>
          if rq_slot r = [] then (err_json 400 ''missing_slot'', s)
          else (case up_store (sv_up sv) of
              None \<Rightarrow> (err_json 500 ''store_not_configured'', s)
            | Some ss \<Rightarrow>
                (let q = eq_filter ''slot_name'' (rq_slot r) in
                 case io (FindSlot q) (ss_find_slot ss q) s of
                   (Inl e, s1) \<Rightarrow>
                     (err_json 500 ''internal_error'',
                      log_at L1 ''manage.get_slot.lookup_failed''
                        [AStr ''slot'' (rq_slot r), AStr ''error'' (error_text e)] s1)
                 | (Inr None, s1) \<Rightarrow> (err_json 404 ''not_found'', s1)
                 | (Inr (Some slot), s1) \<Rightarrow> (write_json 200 (to_public_slot slot), s1))))"

section \<open>Properties\<close>

text \<open>The same server over a store whose records have had their secrets erased.\<close>

definition map_call :: "('a \<Rightarrow> 'b) \<Rightarrow> ('w, 'a) call \<Rightarrow> ('w, 'b) call" where
  "map_call f c = (\<lambda>w. case c w of (Inl e, w') \<Rightarrow> (Inl e, w') | (Inr x, w') \<Rightarrow> (Inr (f x), w'))"

definition hide_store :: "'w slot_store \<Rightarrow> 'w slot_store" where
  "hide_store ss = ss
     \<lparr>ss_find_slot := \<lambda>q. map_call (map_option without_secrets) (ss_find_slot ss q),
      ss_manager := map_option (\<lambda>m. m\<lparr>sm_list_slots := \<lambda>q n.
        map_call (map without_secrets) (sm_list_slots m q n)\<rparr>) (ss_manager ss)\<rparr>"

definition hide_secrets :: "'w server \<Rightarrow> 'w server" where
  "hide_secrets sv = sv\<lparr>sv_up := (sv_up sv)\<lparr>up_store := map_option hide_store (up_store (sv_up sv))\<rparr>\<rparr>"

lemma io_map_call:
  "io c (map_call f g) s =
     (case io c g s of (Inl e, s1) \<Rightarrow> (Inl e, s1) | (Inr x, s1) \<Rightarrow> (Inr (f x), s1))"
  by (simp add: io_def map_call_def split: prod.split sum.split)

text \<open>\<open>C39\<close>: the operator's read-only endpoints depend on no secret of a slot. Erasing every token,
  secret key, rendered configuration and claim field from what the store answers changes neither
  their responses nor their effects.\<close>

theorem manage_reads_hide_secrets:
  "handle_manage_list_slots (hide_secrets sv) r s = handle_manage_list_slots sv r s
   \<and> handle_manage_get_slot (hide_secrets sv) r s = handle_manage_get_slot sv r s"
proof -
  have op: "require_operator (hide_secrets sv) r = require_operator sv r"
    by (simp add: require_operator_def hide_secrets_def)
  have "handle_manage_list_slots (hide_secrets sv) r s = handle_manage_list_slots sv r s"
    unfolding handle_manage_list_slots_def op
    by (simp add: manager_of_def hide_secrets_def hide_store_def io_map_call comp_def
        split: option.split prod.split sum.split)
  moreover have "handle_manage_get_slot (hide_secrets sv) r s = handle_manage_get_slot sv r s"
    unfolding handle_manage_get_slot_def op
    by (simp add: hide_secrets_def hide_store_def io_map_call Let_def
        split: option.split prod.split sum.split)
  ultimately show ?thesis ..
qed

end
