(* ===== verification/Kek_Wrap.thy ===== *)
theory Kek_Wrap
  imports Mock_Upstreams
begin

text \<open>
  \<^verbatim>\<open>kekwrap.go\<close>: the envelope that keeps a group's private key at rest under the root
  master key. HKDF and AES-GCM are the runtime's; \<open>gcm_sound\<close> states what AES-GCM documents.
\<close>

definition kek_wrap_label :: gostring where
  "kek_wrap_label = ''abc-kek-wrap-v1''"

definition kek_wrap_alg :: gostring where
  "kek_wrap_alg = ''aes256-gcm-hkdf-sha256''"

definition mk_len :: nat where "mk_len = 32"
definition wrap_salt_len :: nat where "wrap_salt_len = 16"
definition gcm_nonce_size :: nat where "gcm_nonce_size = 12"

definition kek_wrap_aad :: "gostring \<Rightarrow> int \<Rightarrow> gostring" where
  "kek_wrap_aad kek_id version = kek_wrap_label @ ''|'' @ kek_id @ ''|'' @ itoa version"

text \<open>\<^verbatim>\<open>newGCM\<close>: AES takes keys of 16, 24 or 32 bytes.\<close>

definition new_gcm :: "gostring \<Rightarrow> (go_error, gostring) result" where
  "new_gcm key =
     (if length key \<in> {16, 24, 32} then Inr key
      else Inl (ErrText (''aes cipher: crypto/aes: invalid key size '' @ itoa (int (length key)))))"

definition wrapped :: "gostring \<Rightarrow> go_error \<Rightarrow> go_error" where
  "wrapped what e = ErrText (what @ '': '' @ error_text e)"

definition bad_mk :: "gostring \<Rightarrow> go_error" where
  "bad_mk mk =
     ErrText (''root MK must be '' @ itoa (int mk_len) @ '' bytes, got '' @ itoa (int (length mk)))"

text \<open>The key a wrap is sealed under.\<close>

definition wrap_key :: "'w runtime \<Rightarrow> gostring \<Rightarrow> gostring \<Rightarrow> gostring \<Rightarrow> (go_error, gostring) result" where
  "wrap_key rt mk salt aad =
     (case rt_hkdf rt mk salt aad of
        Inl e \<Rightarrow> Inl (wrapped ''hkdf'' e)
      | Inr k \<Rightarrow> new_gcm k)"

definition wrap_kek ::
  "'w server \<Rightarrow> gostring \<Rightarrow> gostring \<Rightarrow> int \<Rightarrow> gostring \<Rightarrow> 'w st
   \<Rightarrow> (go_error, gostring) result \<times> 'w st" where
  "wrap_kek sv mk kek_id version kek s =
     (if length mk \<noteq> mk_len then (Inl (bad_mk mk), s)
      else if kek = [] then (Inl (ErrText ''secret to wrap must not be empty''), s)
      else (case io (ReadRandom wrap_salt_len) (rt_rand (sv_rt sv) wrap_salt_len) s of
          (Inl e, s1) \<Rightarrow> (Inl (wrapped ''salt'' e), s1)
        | (Inr salt, s1) \<Rightarrow>
            (let aad = kek_wrap_aad kek_id version in
             case wrap_key (sv_rt sv) mk salt aad of
               Inl e \<Rightarrow> (Inl e, s1)
             | Inr k \<Rightarrow>
                 (case io (ReadRandom gcm_nonce_size) (rt_rand (sv_rt sv) gcm_nonce_size) s1 of
                    (Inl e, s2) \<Rightarrow> (Inl (wrapped ''nonce'' e), s2)
                  | (Inr nonce, s2) \<Rightarrow>
                      (Inr (b64_std_encode (salt @ nonce @ rt_gcm_seal (sv_rt sv) k nonce aad kek)),
                       s2)))))"

definition unwrap_kek ::
  "'w runtime \<Rightarrow> gostring \<Rightarrow> gostring \<Rightarrow> int \<Rightarrow> gostring \<Rightarrow> (go_error, gostring) result" where
  "unwrap_kek rt mk kek_id version text =
     (if length mk \<noteq> mk_len then Inl (bad_mk mk)
      else (case b64_std_decode text of
          None \<Rightarrow> Inl (ErrText (''decode wrapped KEK: '' @ rt_b64_error rt text))
        | Some blob \<Rightarrow>
            if length blob < wrap_salt_len then Inl (ErrText ''wrapped KEK too short'')
            else
              (let aad = kek_wrap_aad kek_id version;
                   salt = take wrap_salt_len blob;
                   rest = drop wrap_salt_len blob in
               case wrap_key rt mk salt aad of
                 Inl e \<Rightarrow> Inl e
               | Inr k \<Rightarrow>
                   if length rest < gcm_nonce_size + 1 then Inl (ErrText ''wrapped KEK too short'')
                   else (case rt_gcm_open rt k (take gcm_nonce_size rest) aad (drop gcm_nonce_size rest) of
                       Inl e \<Rightarrow> Inl (wrapped ''unwrap failed (wrong MK or tampered secret)'' e)
                     | Inr kek \<Rightarrow> Inr kek))))"

section \<open>The additional data determine the key id and the version\<close>

lemma kek_wrap_aad_inject: "kek_wrap_aad a v = kek_wrap_aad b w \<longleftrightarrow> a = b \<and> v = w"
proof
  assume "kek_wrap_aad a v = kek_wrap_aad b w"
  then have "a @ CHR ''|'' # itoa v = b @ CHR ''|'' # itoa w" by (simp add: kek_wrap_aad_def)
  then have "cut_last (CHR ''|'') (a @ CHR ''|'' # itoa v) = cut_last (CHR ''|'') (b @ CHR ''|'' # itoa w)"
    by simp
  then show "a = b \<and> v = w"
    using itoa_no_bar by (simp add: cut_last_append itoa_inject)
qed simp

section \<open>Wrapping and unwrapping\<close>

text \<open>What AES-GCM documents: opening succeeds exactly on what sealing produced under the same key,
  nonce and additional data, and a sealed text is 16 bytes longer than the plain text.\<close>

definition gcm_sound :: "'w runtime \<Rightarrow> bool" where
  "gcm_sound rt \<longleftrightarrow>
     (\<forall>k n a c p. rt_gcm_open rt k n a c = Inr p \<longleftrightarrow> c = rt_gcm_seal rt k n a p)
     \<and> (\<forall>k n a p. length (rt_gcm_seal rt k n a p) = length p + 16)"

lemma gcm_open_seal: "gcm_sound rt \<Longrightarrow> rt_gcm_open rt k n a (rt_gcm_seal rt k n a p) = Inr p"
  by (simp add: gcm_sound_def)

lemma gcm_seal_length: "gcm_sound rt \<Longrightarrow> length (rt_gcm_seal rt k n a p) = length p + 16"
  by (simp add: gcm_sound_def)

lemma unwrap_kek_iff:
  assumes "gcm_sound rt"
  shows "unwrap_kek rt mk i v text = Inr kek \<longleftrightarrow>
    length mk = mk_len
    \<and> (\<exists>salt nonce k. length salt = wrap_salt_len \<and> length nonce = gcm_nonce_size
         \<and> wrap_key rt mk salt (kek_wrap_aad i v) = Inr k
         \<and> b64_std_decode text
             = Some (salt @ nonce @ rt_gcm_seal rt k nonce (kek_wrap_aad i v) kek))"
proof
  assume u: "unwrap_kek rt mk i v text = Inr kek"
  then obtain blob k where b: "length mk = mk_len" "b64_std_decode text = Some blob"
    "wrap_key rt mk (take wrap_salt_len blob) (kek_wrap_aad i v) = Inr k"
    "wrap_salt_len \<le> length blob" "gcm_nonce_size < length (drop wrap_salt_len blob)"
    "rt_gcm_open rt k (take gcm_nonce_size (drop wrap_salt_len blob)) (kek_wrap_aad i v)
       (drop gcm_nonce_size (drop wrap_salt_len blob)) = Inr kek"
    by (auto simp: unwrap_kek_def Let_def split: if_splits option.splits sum.splits)
  define salt where "salt = take wrap_salt_len blob"
  define nonce where "nonce = take gcm_nonce_size (drop wrap_salt_len blob)"
  have "drop gcm_nonce_size (drop wrap_salt_len blob) = rt_gcm_seal rt k nonce (kek_wrap_aad i v) kek"
    using b(6) assms unfolding gcm_sound_def nonce_def by blast
  then have "blob = salt @ nonce @ rt_gcm_seal rt k nonce (kek_wrap_aad i v) kek"
    unfolding salt_def nonce_def by (metis append_take_drop_id)
  moreover have "length salt = wrap_salt_len" and "length nonce = gcm_nonce_size"
    using b(4,5) by (simp_all add: salt_def nonce_def)
  ultimately show "length mk = mk_len
    \<and> (\<exists>salt nonce k. length salt = wrap_salt_len \<and> length nonce = gcm_nonce_size
         \<and> wrap_key rt mk salt (kek_wrap_aad i v) = Inr k
         \<and> b64_std_decode text
             = Some (salt @ nonce @ rt_gcm_seal rt k nonce (kek_wrap_aad i v) kek))"
    using b(1,2) b(3) [folded salt_def] by blast
next
  assume "length mk = mk_len
    \<and> (\<exists>salt nonce k. length salt = wrap_salt_len \<and> length nonce = gcm_nonce_size
         \<and> wrap_key rt mk salt (kek_wrap_aad i v) = Inr k
         \<and> b64_std_decode text
             = Some (salt @ nonce @ rt_gcm_seal rt k nonce (kek_wrap_aad i v) kek))"
  then show "unwrap_kek rt mk i v text = Inr kek"
    using gcm_open_seal [OF assms] gcm_seal_length [OF assms] by (auto simp: unwrap_kek_def)
qed

text \<open>The randomness of the runtime delivers as many bytes as it is asked for.\<close>

definition rand_sound :: "'w runtime \<Rightarrow> bool" where
  "rand_sound rt \<longleftrightarrow> (\<forall>n w b w'. rt_rand rt n w = (Inr b, w') \<longrightarrow> length b = n)"

lemma kek_wrap_unwrap:
  assumes "gcm_sound (sv_rt sv)" and "rand_sound (sv_rt sv)"
    and "wrap_kek sv mk i v kek s = (Inr text, s')"
  shows "unwrap_kek (sv_rt sv) mk i v text = Inr kek"
proof -
  from assms(3) obtain salt nonce k w1 w2 where
    w: "length mk = mk_len" "wrap_key (sv_rt sv) mk salt (kek_wrap_aad i v) = Inr k"
      "text = b64_std_encode (salt @ nonce @ rt_gcm_seal (sv_rt sv) k nonce (kek_wrap_aad i v) kek)"
    and r: "rt_rand (sv_rt sv) wrap_salt_len (st_world s) = (Inr salt, w1)"
      "rt_rand (sv_rt sv) gcm_nonce_size w1 = (Inr nonce, w2)"
    by (auto simp: wrap_kek_def io_def Let_def split: if_splits sum.splits prod.splits)
  from r assms(2) have "length salt = wrap_salt_len" "length nonce = gcm_nonce_size"
    unfolding rand_sound_def by blast+
  with w show ?thesis
    by (auto simp: unwrap_kek_iff [OF assms(1)] b64std.dec_enc)
qed

text \<open>\<open>C25\<close>: what was wrapped under a master key, a key id and a version unwraps under these three.\<close>

theorem kek_round_trip:
  assumes "gcm_sound (sv_rt sv)" and "rand_sound (sv_rt sv)"
    and "wrap_kek sv mk i v kek s = (Inr text, s')"
  shows "unwrap_kek (sv_rt sv) mk i v text = Inr kek"
  using assms by (rule kek_wrap_unwrap)


lemma open_tag:
  "(if length t \<le> length c \<and> drop (length c - length t) c = t
    then Inr (take (length c - length t) c) else Inl e) = Inr p \<longleftrightarrow> c = p @ t"
proof (cases "length t \<le> length c \<and> drop (length c - length t) c = t")
  case True
  then have "c = take (length c - length t) c @ t" by (metis append_take_drop_id)
  with True show ?thesis by (metis Inr_inject append_same_eq)
next
  case False
  then have "c \<noteq> p @ t" by auto
  then show ?thesis unfolding if_not_P [OF False] by simp
qed

lemma gcm_sound_sample: "gcm_sound sample_runtime"
proof -
  define t where "t = replicate 16 (CHR ''t'')"
  have t: "length t = 16" by (simp add: t_def)
  show ?thesis
    unfolding gcm_sound_def sample_runtime_def t_def [symmetric] runtime.select_convs
    using open_tag [of t, unfolded t] t by (intro conjI allI) (assumption | simp only: length_append)+
qed

lemma rand_sound_sample: "rand_sound sample_runtime"
  by (simp add: rand_sound_def sample_runtime_def)

lemma kek_round_trip_witness:
  "unwrap_kek sample_runtime (replicate 32 (CHR ''m'')) ''group:chem'' 1
     (case fst (wrap_kek sample_server (replicate 32 (CHR ''m'')) ''group:chem'' 1 ''key'' sample_state)
      of Inr t \<Rightarrow> t | Inl e \<Rightarrow> []) = Inr ''key''"
proof -
  let ?w = "wrap_kek sample_server (replicate 32 (CHR ''m'')) ''group:chem'' 1 ''key'' sample_state"
  have rt: "sv_rt sample_server = sample_runtime" by (simp add: sample_server_def)
  have "\<exists>t. fst ?w = Inr t"
    by (simp add: wrap_kek_def mk_len_def wrap_key_def new_gcm_def io_def sample_server_def
        sample_runtime_def)
  then obtain t where t: "fst ?w = Inr t" ..
  then have "?w = (Inr t, snd ?w)" by (metis prod.collapse)
  with kek_round_trip [of sample_server] gcm_sound_sample rand_sound_sample t rt
  show ?thesis by simp
qed


end
