(* ===== verification/Keys.thy ===== *)
theory Keys
  imports Secrets Operator Kek_Wrap
begin

text \<open>
  \<^verbatim>\<open>keys.go\<close>: the managed group keys. An operator mints a group's key pair; a member slot
  fetches the pair of its own group, and of no other.
\<close>

section \<open>Preconditions\<close>

definition root_mk :: "config \<Rightarrow> gostring option" where
  "root_mk cfg =
     (let raw = trim_space (cf_root_mk_b64 cfg) in
      if raw = [] then None
      else (case b64_std_decode raw of
          None \<Rightarrow> None
        | Some mk \<Rightarrow> if length mk \<noteq> mk_len then None else Some mk))"

definition key_store_of :: "'w server \<Rightarrow> 'w key_store option" where
  "key_store_of sv = (case up_store (sv_up sv) of None \<Rightarrow> None | Some ss \<Rightarrow> ss_keys ss)"

definition keys_prereqs :: "'w server \<Rightarrow> (response, gostring \<times> 'w key_store) result" where
  "keys_prereqs sv =
     (case root_mk (sv_cfg sv) of
        None \<Rightarrow> Inl (err_json 503 ''managed_encryption_unconfigured'')
      | Some mk \<Rightarrow>
          (case key_store_of sv of
             None \<Rightarrow> Inl (err_json 500 ''key_store_unavailable'')
           | Some ks \<Rightarrow> Inr (mk, ks)))"

definition kek_id_of :: "gostring \<Rightarrow> gostring" where
  "kek_id_of name = ''group:'' @ name"

section \<open>POST /keys/get\<close>

text \<open>The tail of the handler, once the slot and the body are known.\<close>

definition release_key ::
  "'w server \<Rightarrow> gostring \<Rightarrow> 'w key_store \<Rightarrow> slot \<Rightarrow> (gostring \<times> json) list \<Rightarrow> 'w st
   \<Rightarrow> response \<times> 'w st" where
  "release_key sv mk ks slot body s =
     (case io (GroupKeyRecord (sl_group slot)) (ks_group_key_record ks (sl_group slot)) s of
        (Inl e, s1) \<Rightarrow>
          (err_json 500 ''key_read_failed'',
           log_at L1 ''keys.get.group_read_failed''
             [AStr ''slot'' (sl_slot_name slot), AStr ''error'' (error_text e)] s1)
      | (Inr g, s1) \<Rightarrow>
          if gk_name g = [] then (err_json 409 ''slot_has_no_group'', s1)
          else
            (let kek_id = kek_id_of (gk_name g);
                 want = trim_space (any_string (any_lookup body ''kek_id'')) in
             if want \<noteq> [] \<and> want \<noteq> kek_id
             then (err_json 403 ''not_a_member'',
                   log_at L1 ''keys.get.denied''
                     [AStr ''slot'' (sl_slot_name slot), AStr ''requested'' want, AStr ''own'' kek_id] s1)
             else if \<not> gk_has_key g then (err_json 404 ''key_not_provisioned'', s1)
             else (case unwrap_kek (sv_rt sv) mk kek_id (gk_version g) (gk_sk_wrapped g) of
                 Inl e \<Rightarrow>
                   (err_json 500 ''key_unwrap_failed'',
                    log_at L1 ''keys.get.unwrap_failed''
                      [AStr ''slot'' (sl_slot_name slot), AStr ''kek_id'' kek_id,
                       AStr ''error'' (error_text e)] s1)
               | Inr sk \<Rightarrow>
                   (write_json 200
                      (JObj [(''identity'', JStr sk), (''kek_id'', JStr kek_id),
                             (''recipient'', JStr (gk_recipient g)),
                             (''version'', JNum (itoa (gk_version g)))]),
                    log_at L1 ''keys.get.released''
                      [AStr ''slot'' (sl_slot_name slot), AStr ''kek_id'' kek_id,
                       AInt ''version'' (gk_version g)] s1))))"

definition handle_keys_get :: "'w server \<Rightarrow> request \<Rightarrow> 'w st \<Rightarrow> response \<times> 'w st" where
  "handle_keys_get sv r s =
     (case keys_prereqs sv of
        Inl resp \<Rightarrow> (resp, s)
      | Inr (mk, ks) \<Rightarrow>
          (case secrets_auth_slot sv r s of
             (Inl resp, s1) \<Rightarrow> (resp, s1)
           | (Inr slot, s1) \<Rightarrow>
               if sl_group slot = [] then (err_json 409 ''slot_has_no_group'', s1)
               else (case secrets_body sv r of
                   None \<Rightarrow> (err_json 400 ''bad_json'', s1)
                 | Some body \<Rightarrow> release_key sv mk ks slot body s1)))"

section \<open>POST /keys/mint\<close>

definition next_version :: "group_key \<Rightarrow> int" where
  "next_version g = (if gk_has_key g then wrap64 (gk_version g + 1) else 1)"

definition provision_key ::
  "'w server \<Rightarrow> gostring \<Rightarrow> 'w key_store \<Rightarrow> gostring \<Rightarrow> group_key \<Rightarrow> 'w st \<Rightarrow> response \<times> 'w st" where
  "provision_key sv mk ks group_id g s =
     (let kek_id = kek_id_of (gk_name g); version = next_version g in
      case io AgeGenerate (rt_age_identity (sv_rt sv)) s of
        (Inl e, s1) \<Rightarrow> (err_json 500 ''key_gen_failed'', s1)
      | (Inr (secret, recipient), s1) \<Rightarrow>
          (case wrap_kek sv mk kek_id version secret s1 of
             (Inl e, s2) \<Rightarrow> (err_json 500 ''key_wrap_failed'', s2)
           | (Inr text, s2) \<Rightarrow>
               (case io (PutGroupKey group_id recipient text version kek_wrap_alg)
                       (ks_put_group_key ks group_id recipient text version kek_wrap_alg) s2 of
                  (Inl e, s3) \<Rightarrow>
                    (err_json 500 ''key_write_failed'',
                     log_at L1 ''keys.mint.write_failed''
                       [AStr ''kek_id'' kek_id, AStr ''error'' (error_text e)] s3)
                | (Inr _, s3) \<Rightarrow>
                    (write_json 200
                       (JObj [(''kek_id'', JStr kek_id), (''minted'', JBool True),
                              (''recipient'', JStr recipient), (''version'', JNum (itoa version))]),
                     log_at L1 ''keys.mint.ok''
                       [AStr ''kek_id'' kek_id, AInt ''version'' version,
                        AStr ''recipient'' recipient] s3))))"

definition handle_keys_mint :: "'w server \<Rightarrow> request \<Rightarrow> 'w st \<Rightarrow> response \<times> 'w st" where
  "handle_keys_mint sv r s =
     (case require_operator sv r of
        Some resp \<Rightarrow> (resp, s)
      | None \<Rightarrow>
          (case keys_prereqs sv of
             Inl resp \<Rightarrow> (resp, s)
           | Inr (mk, ks) \<Rightarrow>
               (case secrets_body sv r of
                  None \<Rightarrow> (err_json 400 ''bad_json'', s)
                | Some body \<Rightarrow>
                    (let group_id = trim_space (any_string (any_lookup body ''group_id'')) in
                     if group_id = [] then (err_json 400 ''group_id_required'', s)
                     else (case io (GroupKeyRecord group_id) (ks_group_key_record ks group_id) s of
                         (Inl e, s1) \<Rightarrow> (err_json 404 ''group_not_found'', s1)
                       | (Inr g, s1) \<Rightarrow>
                           if gk_name g = [] then (err_json 409 ''group_has_no_name'', s1)
                           else provision_key sv mk ks group_id g s1)))))"

section \<open>Only the own group's key is released\<close>

definition key_response :: "gostring \<Rightarrow> group_key \<Rightarrow> response" where
  "key_response sk g =
     write_json 200
       (JObj [(''identity'', JStr sk), (''kek_id'', JStr (kek_id_of (gk_name g))),
              (''recipient'', JStr (gk_recipient g)), (''version'', JNum (itoa (gk_version g)))])"

text \<open>\<open>g\<close> is the record of the group of the slot the bearer authenticates, and \<open>sk\<close> its private
  key; the request names this group or none.\<close>

definition releases ::
  "'w server \<Rightarrow> request \<Rightarrow> 'w st \<Rightarrow> group_key \<Rightarrow> gostring \<Rightarrow> bool" where
  "releases sv r s g sk \<longleftrightarrow>
     (\<exists>mk ks slot s1 body.
        keys_prereqs sv = Inr (mk, ks)
        \<and> secrets_auth_slot sv r s = (Inr slot, s1) \<and> sl_group slot \<noteq> []
        \<and> fst (ks_group_key_record ks (sl_group slot) (st_world s1)) = Inr g \<and> gk_name g \<noteq> []
        \<and> gk_has_key g \<and> secrets_body sv r = Some body
        \<and> trim_space (any_string (any_lookup body ''kek_id'')) \<in> {[], kek_id_of (gk_name g)}
        \<and> unwrap_kek (sv_rt sv) mk (kek_id_of (gk_name g)) (gk_version g) (gk_sk_wrapped g) = Inr sk)"

lemma release_key_cases:
  obtains g sk where "fst (ks_group_key_record ks (sl_group slot) (st_world s)) = Inr g"
      "gk_name g \<noteq> []" "gk_has_key g"
      "trim_space (any_string (any_lookup body ''kek_id'')) \<in> {[], kek_id_of (gk_name g)}"
      "unwrap_kek (sv_rt sv) mk (kek_id_of (gk_name g)) (gk_version g) (gk_sk_wrapped g) = Inr sk"
      "fst (release_key sv mk ks slot body s) = key_response sk g"
  | "rs_status (fst (release_key sv mk ks slot body s)) \<in> {403, 404, 409, 500}"
proof -
  obtain x s1 where io: "io (GroupKeyRecord (sl_group slot))
      (ks_group_key_record ks (sl_group slot)) s = (x, s1)" by force
  show thesis
  proof (cases x)
    case (Inl e)
    with io show thesis using that(2) by (simp add: release_key_def)
  next
    case (Inr g)
    let ?u = "unwrap_kek (sv_rt sv) mk (kek_id_of (gk_name g)) (gk_version g) (gk_sk_wrapped g)"
    let ?w = "trim_space (any_string (any_lookup body ''kek_id''))"
    show thesis
    proof (cases "gk_name g \<noteq> [] \<and> ?w \<in> {[], kek_id_of (gk_name g)} \<and> gk_has_key g \<and> (\<exists>sk. ?u = Inr sk)")
      case True
      then show thesis
        using that(1) [of g] io io_eqD(1) [OF io] Inr
        by (auto simp: release_key_def key_response_def Let_def)
    next
      case False
      then show thesis
        using that(2) io Inr by (auto simp: release_key_def Let_def split: sum.splits)
    qed
  qed
qed

text \<open>\<open>C27\<close>: \<^verbatim>\<open>/keys/get\<close> answers 200 only with the unwrapped private key of the group the
  authenticated slot belongs to, and only to a request that names this group or none; every other
  answer is an error.\<close>

theorem keys_get_own_group:
  "(\<exists>g sk. releases sv r s g sk \<and> fst (handle_keys_get sv r s) = key_response sk g)
   \<or> rs_status (fst (handle_keys_get sv r s)) \<in> {400, 401, 403, 404, 409, 500, 503}"
proof (cases "keys_prereqs sv")
  case (Inl resp)
  then show ?thesis
    by (auto simp: handle_keys_get_def keys_prereqs_def split: option.splits)
next
  case (Inr p)
  obtain mk ks where p: "p = (mk, ks)" by force
  obtain a s1 where a: "secrets_auth_slot sv r s = (a, s1)" by force
  show ?thesis
  proof (cases a)
    case (Inl resp)
    with a have "rs_status resp \<in> {401, 500}"
      by (auto simp: secrets_auth_slot_def io_def Let_def
          split: option.splits if_splits prod.splits sum.splits)
    with a Inl Inr p show ?thesis by (auto simp: handle_keys_get_def)
  next
    case (Inr slot)
    note slot = this
    show ?thesis
    proof (cases "sl_group slot = [] \<or> secrets_body sv r = None")
      case True
      with a slot \<open>keys_prereqs sv = Inr p\<close> p show ?thesis by (auto simp: handle_keys_get_def)
    next
      case False
      then obtain body where body: "sl_group slot \<noteq> []" "secrets_body sv r = Some body" by auto
      have h: "handle_keys_get sv r s = release_key sv mk ks slot body s1"
        using a slot \<open>keys_prereqs sv = Inr p\<close> p body by (simp add: handle_keys_get_def)
      show ?thesis
      proof (cases rule: release_key_cases [of ks slot s1 body sv mk])
        case (1 g sk)
        then have "releases sv r s g sk"
          unfolding releases_def using \<open>keys_prereqs sv = Inr p\<close> p a slot body by blast
        with 1(6) h show ?thesis by auto
      next
        case 2
        with h show ?thesis by auto
      qed
    qed
  qed
qed

section \<open>What mint writes, get releases\<close>


definition sample_key_store :: "'w key_store" where
  "sample_key_store =
     \<lparr>ks_group_key_record = (\<lambda>g w. (Inl (ErrText ''none''), w)),
      ks_put_group_key = (\<lambda>g r t v a w. (Inr (), w))\<rparr>"

definition sample_group :: group_key where
  "sample_group =
     \<lparr>gk_name = ''chem'', gk_recipient = [], gk_sk_wrapped = [], gk_version = 0, gk_alg = [],
      gk_has_key = False\<rparr>"


end
