(* ===== verification/Effects.thy ===== *)
theory Effects
  imports Upstreams
begin

text \<open>
  A bound on what a piece of a handler does: \<open>within C L s s'\<close> says that \<open>s'\<close> comes from \<open>s\<close> by
  appending upstream calls from \<open>C\<close> and log records from \<open>L\<close>. The rules follow the combinators, so
  that a handler's bound is found by splitting its definition and applying them.
\<close>

definition within :: "upcall set \<Rightarrow> log_record set \<Rightarrow> 'w st \<Rightarrow> 'w st \<Rightarrow> bool" where
  "within C L s s' \<longleftrightarrow>
     (\<exists>cs ls. st_calls s' = st_calls s @ cs \<and> fst ` set cs \<subseteq> C
        \<and> st_log s' = st_log s @ ls \<and> set ls \<subseteq> L)"

definition logged :: "int \<Rightarrow> gostring \<Rightarrow> attr list \<Rightarrow> log_record" where
  "logged lv m as = \<lparr>lg_level = lv, lg_msg = m, lg_attrs = as\<rparr>"

definition failure_records :: "gostring \<Rightarrow> attr list \<Rightarrow> log_record set" where
  "failure_records m as = {logged L1 m (as @ [AStr ''error'' (error_text e)]) | e. True}"

lemma within_refl [simp, intro]: "within C L s s"
  by (simp add: within_def)

lemma within_trans: "within C L s1 s2 \<Longrightarrow> within C L s0 s1 \<Longrightarrow> within C L s0 s2"
proof -
  assume "within C L s1 s2" and "within C L s0 s1"
  then obtain cs ls cs' ls' where
    "st_calls s2 = st_calls s0 @ cs' @ cs" "fst ` set cs \<subseteq> C" "fst ` set cs' \<subseteq> C"
    "st_log s2 = st_log s0 @ ls' @ ls" "set ls \<subseteq> L" "set ls' \<subseteq> L"
    by (auto simp: within_def)
  then show "within C L s0 s2"
    unfolding within_def
    by (intro exI [of _ "cs' @ cs"] exI [of _ "ls' @ ls"]) (simp add: image_Un)
qed

lemma within_mono: "within C L s s' \<Longrightarrow> C \<subseteq> C' \<Longrightarrow> L \<subseteq> L' \<Longrightarrow> within C' L' s s'"
  unfolding within_def
  by (elim exE conjE, intro exI conjI, assumption, erule (1) subset_trans, assumption,
      erule (1) subset_trans)

lemma within_log [intro]:
  "within C L s s1 \<Longrightarrow> logged lv m as \<in> L \<Longrightarrow> within C L s (log_at lv m as s1)"
  by (auto simp: within_def logged_def)

lemma within_io:
  "io c f s1 = (x, s2) \<Longrightarrow> within C L s s1 \<Longrightarrow> c \<in> C \<Longrightarrow> within C L s s2"
  by (auto simp: within_def io_def split: prod.splits)

lemma within_io_total:
  "io_total c f s1 = (x, s2) \<Longrightarrow> within C L s s1 \<Longrightarrow> c \<in> C \<Longrightarrow> within C L s s2"
  by (auto simp: within_def io_total_def split: prod.splits)

lemma within_snd_io: "within C L s s1 \<Longrightarrow> c \<in> C \<Longrightarrow> within C L s (snd (io c f s1))"
  by (rule within_io [OF prod.collapse [symmetric]])

lemma within_snd_io_total: "within C L s s1 \<Longrightarrow> c \<in> C \<Longrightarrow> within C L s (snd (io_total c f s1))"
  by (rule within_io_total [OF prod.collapse [symmetric]])

lemma within_silent: "within C L s s1 \<Longrightarrow> c \<in> C \<Longrightarrow> within C L s (silent c f s1)"
  by (simp add: silent_def within_snd_io)

lemma within_best_effort:
  "within C L s s1 \<Longrightarrow> c \<in> C \<Longrightarrow> failure_records m as \<subseteq> L \<Longrightarrow>
     within C L s (best_effort c f m as s1)"
  by (auto simp: best_effort_def failure_records_def split: prod.split sum.split
      intro!: within_log intro: within_io)

lemma within_clock: "clock sv s1 = (x, s2) \<Longrightarrow> within C L s s1 \<Longrightarrow> ReadClock \<in> C \<Longrightarrow> within C L s s2"
  unfolding clock_def by (rule within_io_total)

lemma within_codes: "within C L s s1 \<Longrightarrow> within C L s (s1\<lparr>st_codes := m\<rparr>)"
  by (simp add: within_def)

lemmas within_intros =
  within_io within_io_total within_snd_io within_snd_io_total within_silent within_best_effort
  within_clock within_codes

text \<open>The calls and records a state has beyond an earlier one.\<close>

definition calls_since :: "'w st \<Rightarrow> 'w st \<Rightarrow> (upcall \<times> bool) list" where
  "calls_since s s' = drop (length (st_calls s)) (st_calls s')"

definition log_since :: "'w st \<Rightarrow> 'w st \<Rightarrow> log_record list" where
  "log_since s s' = drop (length (st_log s)) (st_log s')"

lemma within_calls: "within C L s s' \<Longrightarrow> fst ` set (calls_since s s') \<subseteq> C"
  unfolding within_def calls_since_def by (elim exE conjE) simp

lemma within_logs: "within C L s s' \<Longrightarrow> set (log_since s s') \<subseteq> L"
  unfolding within_def log_since_def by (elim exE conjE) simp

lemma calls_since_append: "st_calls s' = st_calls s @ cs \<Longrightarrow> calls_since s s' = cs"
  by (simp add: calls_since_def)

lemma calls_since_extend:
  "st_calls s1 = st_calls s @ cs \<Longrightarrow> set (calls_since s1 s2) \<subseteq> set (calls_since s s2)"
  by (simp add: calls_since_def set_drop_subset_set_drop)

end
