(* ===== verification/Render.thy ===== *)
theory Render
  imports Identity Go_Text Effects Mock_Upstreams
begin

text \<open>
  \<^verbatim>\<open>render.go\<close> and \<^verbatim>\<open>slots.go\<close>: the \<^verbatim>\<open>config.yaml\<close> of a slot, its
  persistence through the slot manager, and the \<^verbatim>\<open>/slots/me/config\<close> handler.
\<close>

section \<open>Rendering\<close>

definition renderer_version :: gostring where
  "renderer_version = ''abc-auth-svc/v3.0''"

definition cred_mode :: "gostring \<Rightarrow> gostring" where
  "cred_mode cs = to_lower (trim_space cs)"

lemma cred_mode_seedling [simp]: "cred_mode ''seedling/v1'' = ''seedling/v1''"
  by code_simp

definition local_yaml ::
  "cluster_info \<Rightarrow> gostring \<Rightarrow> gostring \<Rightarrow> gostring \<Rightarrow> gostring \<Rightarrow> gostring \<Rightarrow> gostring" where
  "local_yaml c slot_name nmsp nomad_token access_key secret_key = lines
     [''version: 1.0'',
      ''active_context: '' @ cl_name c,
      ''contexts:'',
      ''    '' @ cl_name c @ '':'',
      ''        access_token: '' @ nomad_token,
      ''        admin:'',
      ''            id: pool-'' @ slot_name,
      ''            services:'',
      ''                minio:'',
      ''                    access_key: '' @ access_key,
      ''                    endpoint: '' @ cl_minio_endpoint c,
      ''                    secret_key: '' @ secret_key,
      ''                nomad:'',
      ''                    addr: '' @ cl_nomad_endpoint c,
      ''                    datacenters:'',
      ''                        - '' @ cl_datacenter c,
      ''                    head_pool: '' @ cl_head_pool c,
      ''                    namespace: '' @ nmsp,
      ''                    token: '' @ nomad_token,
      ''                    worker_pool: '' @ cl_worker_pool c,
      ''                tools:'',
      ''                    endpoint: '' @ cl_minio_endpoint c,
      ''        auth:'',
      ''            whoami: '' @ slot_name,
      ''        cluster_type: abc-cluster'',
      ''        endpoint: '' @ cl_nomad_endpoint c,
      ''        upload_endpoint: '' @ cl_upload_endpoint c]"

definition opaque_yaml :: "cluster_info \<Rightarrow> gostring \<Rightarrow> gostring \<Rightarrow> gostring" where
  "opaque_yaml c slot_name opaque = lines
     [''version: 1.0'',
      ''active_context: '' @ cl_name c,
      ''contexts:'',
      ''    '' @ cl_name c @ '':'',
      ''        cred_source: seedling/v1'',
      ''        access_token: '' @ opaque,
      ''        auth:'',
      ''            whoami: '' @ slot_name,
      ''        auth_endpoint: '' @ cl_auth_endpoint c,
      ''        cluster_type: abc-cluster'',
      ''        endpoint: '' @ cl_nomad_endpoint c,
      ''        upload_endpoint: '' @ cl_upload_endpoint c]"

definition render_config_yaml ::
  "(nat \<Rightarrow> bool) \<Rightarrow> cluster_info \<Rightarrow> gostring \<Rightarrow> gostring \<Rightarrow> gostring \<Rightarrow> gostring \<Rightarrow> gostring
   \<Rightarrow> gostring \<Rightarrow> gostring \<Rightarrow> (go_error, gostring) result" where
  "render_config_yaml pr c slot_name group_name nomad_token access_key secret_key cred_source opaque =
     (let nmsp = namespace_for_group group_name; cs = cred_mode cred_source in
      if cs = [] \<or> cs = ''local''
      then Inr (local_yaml c slot_name nmsp nomad_token access_key secret_key)
      else if cs = ''seedling/v1'' then
        (if opaque = []
         then Inl (ErrText ''cred_source=seedling/v1 requires a non-empty opaque_token'')
         else Inr (opaque_yaml c slot_name opaque))
      else Inl (ErrText (''unsupported cred_source '' @ go_quote pr cred_source)))"

definition opaque_prefix :: gostring where
  "opaque_prefix = ''abco_''"

definition mint_opaque :: "'w server \<Rightarrow> 'w st \<Rightarrow> (go_error, gostring) result \<times> 'w st" where
  "mint_opaque sv s =
     (case io (ReadRandom 32) (rt_rand (sv_rt sv) 32) s of
        (Inl e, s1) \<Rightarrow> (Inl e, s1)
      | (Inr b, s1) \<Rightarrow> (Inr (opaque_prefix @ b64_rawurl_encode b), s1))"

section \<open>Persisting\<close>

definition config_patch :: "gostring \<Rightarrow> gostring \<Rightarrow> patch" where
  "config_patch yaml now =
     [(''config_yaml'', JStr yaml), (''config_yaml_at'', JStr now),
      (''config_yaml_renderer'', JStr renderer_version)]"

definition persist_slot_config ::
  "'w server \<Rightarrow> 'w slot_store \<Rightarrow> 'w slot_manager \<Rightarrow> gostring \<Rightarrow> gostring \<Rightarrow> 'w st
   \<Rightarrow> (go_error, gostring) result \<times> 'w st" where
  "persist_slot_config sv ss mgr slot_id opaque s =
     (case io (GetSlot slot_id) (sm_get_slot mgr slot_id) s of
        (Inl e, s1) \<Rightarrow> (Inl e, s1)
      | (Inr slot, s1) \<Rightarrow>
          (let cs = cred_mode (sl_cred_source slot) in
           if cs = ''seedling/v1'' \<and> opaque = [] then (Inr (sl_config_yaml slot), s1)
           else (case io_total (GroupName (sl_id slot)) (ss_group_name ss slot) s1 of
               (grp, s2) \<Rightarrow>
                 (case render_config_yaml (rt_is_print (sv_rt sv)) (up_cluster (sv_up sv))
                         (sl_slot_name slot) grp (sl_nomad_token_secret slot)
                         (sl_minio_access_key slot) (sl_minio_secret_key slot) cs opaque of
                    Inl e \<Rightarrow> (Inl e, s2)
                  | Inr yaml \<Rightarrow>
                      (case now_pb sv s2 of
                         (now, s3) \<Rightarrow>
                           (case io (PatchSlot slot_id (config_patch yaml now))
                                   (sm_patch_slot mgr slot_id (config_patch yaml now)) s3 of
                              (Inl e, s4) \<Rightarrow> (Inl e, s4)
                            | (Inr _, s4) \<Rightarrow> (Inr yaml, s4)))))))"

section \<open>GET /slots/me/config\<close>

definition config_disposition :: "gostring \<Rightarrow> gostring" where
  "config_disposition slot_name =
     ''attachment; filename='' @ [chr_of 34] @ ''abc-config-'' @ slot_name @ ''.yaml'' @ [chr_of 34]"

definition slots_config_response :: "gostring \<Rightarrow> gostring \<Rightarrow> response" where
  "slots_config_response slot_name blob =
     mk_response 200
       (set_header ''Cache-Control'' ''no-store''
          (set_header ''Content-Disposition'' (config_disposition slot_name)
             (set_header ''Content-Type'' ''text/yaml'' []))) [] (Text blob)"

definition slots_config_blob ::
  "'w server \<Rightarrow> 'w slot_store \<Rightarrow> slot \<Rightarrow> gostring \<Rightarrow> 'w st \<Rightarrow> response \<times> 'w st" where
  "slots_config_blob sv ss slot slot_name s =
     (let ok = (\<lambda>blob t. (slots_config_response slot_name blob,
                            log_at L1 ''slots.config.refresh'' [AStr ''slot'' slot_name] t)) in
      if sl_config_yaml slot \<noteq> [] then ok (sl_config_yaml slot) s
      else (case ss_manager ss of
          None \<Rightarrow> (err_json 500 ''config_render_failed'', s)
        | Some mgr \<Rightarrow>
            (case persist_slot_config sv ss mgr (sl_id slot) [] s of
               (Inl e, s1) \<Rightarrow>
                 (err_json 500 ''config_render_failed'',
                  log_at L1 ''slots.config.render_failed''
                    [AStr ''slot'' slot_name, AStr ''error'' (error_text e)] s1)
             | (Inr blob, s1) \<Rightarrow> ok blob s1)))"

definition caller_slot_name :: "nomad_token_self \<Rightarrow> gostring" where
  "caller_slot_name info = trim_space (trim_prefix (trim_space (nt_name info)) ''pool-'')"

definition handle_slots_me_config :: "'w server \<Rightarrow> request \<Rightarrow> 'w st \<Rightarrow> response \<times> 'w st" where
  "handle_slots_me_config sv r s =
     (let token = nomad_token_from_request r in
      if token = [] then (err_json 401 ''missing_token'', s)
      else (case io (LookupToken token) (up_nomad (sv_up sv) token) s of
          (Inr (Some info), s1) \<Rightarrow>
            (let slot_name = caller_slot_name info in
             if slot_name = [] then (err_json 401 ''could_not_determine_slot'', s1)
             else (case up_store (sv_up sv) of
                 None \<Rightarrow> (err_json 500 ''internal_error'', s1)
               | Some ss \<Rightarrow>
                   (let q = eq_filter ''slot_name'' slot_name in
                    case io (FindSlot q) (ss_find_slot ss q) s1 of
                      (Inl e, s2) \<Rightarrow>
                        (err_json 500 ''internal_error'',
                         log_at L1 ''slots.config.lookup_failed''
                           [AStr ''slot'' slot_name, AStr ''error'' (error_text e)] s2)
                    | (Inr None, s2) \<Rightarrow> (err_json 404 ''slot_not_found'', s2)
                    | (Inr (Some slot), s2) \<Rightarrow>
                        if sl_state slot \<noteq> ''claimed''
                        then (err_json 403
                                (''slot_'' @ (if sl_state slot = [] then ''unknown'' else sl_state slot)),
                              s2)
                        else slots_config_blob sv ss slot slot_name s2)))
        | (_, s1) \<Rightarrow> (err_json 401 ''invalid_or_expired_token'', s1)))"

section \<open>What persisting does\<close>

lemma within_now_pb:
  "now_pb sv s1 = (x, s2) \<Longrightarrow> within C L s s1 \<Longrightarrow> ReadClock \<in> C \<Longrightarrow> within C L s s2"
  by (auto simp: now_pb_def split: prod.splits intro: within_clock)

lemma within_mint_opaque:
  "mint_opaque sv s1 = (x, s2) \<Longrightarrow> within C L s s1 \<Longrightarrow> ReadRandom 32 \<in> C \<Longrightarrow> within C L s s2"
  by (auto simp: mint_opaque_def split: prod.splits sum.splits intro: within_io)

lemma within_persist:
  "persist_slot_config sv ss mgr i op s1 = (x, s2) \<Longrightarrow> within C L s s1 \<Longrightarrow>
     GetSlot i \<in> C \<Longrightarrow> ReadClock \<in> C \<Longrightarrow> (\<And>g. GroupName g \<in> C) \<Longrightarrow>
     (\<And>y n. PatchSlot i (config_patch y n) \<in> C) \<Longrightarrow> within C L s s2"
  by (auto simp: persist_slot_config_def Let_def
      split: prod.splits sum.splits if_splits elim!: within_io within_io_total within_now_pb)

text \<open>The four ways a persist ends: the slot is unreadable, its blob stays, it cannot be rendered, or
  the fresh rendering is written under the slot's id.\<close>

definition render_slot ::
  "'w server \<Rightarrow> slot \<Rightarrow> gostring \<Rightarrow> gostring \<Rightarrow> (go_error, gostring) result" where
  "render_slot sv slot grp op =
     render_config_yaml (rt_is_print (sv_rt sv)) (up_cluster (sv_up sv)) (sl_slot_name slot) grp
       (sl_nomad_token_secret slot) (sl_minio_access_key slot) (sl_minio_secret_key slot)
       (cred_mode (sl_cred_source slot)) op"

definition keeps_blob :: "slot \<Rightarrow> gostring \<Rightarrow> bool" where
  "keeps_blob slot op \<longleftrightarrow> cred_mode (sl_cred_source slot) = ''seedling/v1'' \<and> op = []"

lemma persist_cases:
  fixes sv ss mgr i op s
  defines "p \<equiv> persist_slot_config sv ss mgr i op s"
  obtains (unreadable) e where "fst (sm_get_slot mgr i (st_world s)) = Inl e" and "fst p = Inl e"
      and "st_calls (snd p) = st_calls s @ [(GetSlot i, False)]"
  | (stable) slot where "fst (sm_get_slot mgr i (st_world s)) = Inr slot" and "keeps_blob slot op"
      and "fst p = Inr (sl_config_yaml slot)" and "st_calls (snd p) = st_calls s @ [(GetSlot i, True)]"
  | (unrenderable) slot grp e where "fst (sm_get_slot mgr i (st_world s)) = Inr slot"
      and "\<not> keeps_blob slot op" and "render_slot sv slot grp op = Inl e" and "fst p = Inl e"
      and "st_calls (snd p) = st_calls s @ [(GetSlot i, True), (GroupName (sl_id slot), True)]"
  | (written) slot grp yaml now b where "fst (sm_get_slot mgr i (st_world s)) = Inr slot"
      and "\<not> keeps_blob slot op" and "render_slot sv slot grp op = Inr yaml"
      and "if b then fst p = Inr yaml else fst p \<in> range Inl"
      and "st_calls (snd p) = st_calls s @ [(GetSlot i, True), (GroupName (sl_id slot), True),
             (ReadClock, True), (PatchSlot i (config_patch yaml now), b)]"
proof -
  obtain x s1 where g: "io (GetSlot i) (sm_get_slot mgr i) s = (x, s1)" by force
  note gD = io_eqD [OF g]
  note unf = p_def persist_slot_config_def keeps_blob_def [symmetric] render_slot_def [symmetric] Let_def
  show thesis
  proof (cases x)
    case (Inl e)
    with g gD that(1) show thesis unfolding unf by simp
  next
    case slot: (Inr slot)
    show thesis
    proof (cases "keeps_blob slot op")
      case True
      with g gD slot that(2) show thesis unfolding unf by simp
    next
      case False
      obtain grp s2 where grp: "io_total (GroupName (sl_id slot)) (ss_group_name ss slot) s1 = (grp, s2)"
        by force
      note c2 = io_total_eqD(5) [OF grp]
      show thesis
      proof (cases "render_slot sv slot grp op")
        case (Inl e)
        with g gD slot False grp c2 that(3) [of slot grp e] show thesis unfolding unf by simp
      next
        case (Inr yaml)
        obtain now s3 where now: "now_pb sv s2 = (now, s3)" by force
        have c3: "st_calls s3 = st_calls s2 @ [(ReadClock, True)]"
          using now by (auto simp: now_pb_def clock_def io_total_def split: prod.splits)
        obtain z s4 where z: "io (PatchSlot i (config_patch yaml now))
            (sm_patch_slot mgr i (config_patch yaml now)) s3 = (z, s4)" by force
        note c4 = io_eqD(5) [OF z]
        from g slot False grp Inr now z have "p = (case z of Inl e \<Rightarrow> Inl e | Inr _ \<Rightarrow> Inr yaml, s4)"
          unfolding unf by (simp split: sum.split)
        with gD slot False c2 c3 c4 Inr that(4) [of slot grp yaml "is_ok z" now] show thesis
          by (cases z) simp_all
      qed
    qed
  qed
qed

section \<open>Properties\<close>

text \<open>The stable blob. A persist returns an unreadable slot's error; for a slot on the broker
  pathway without a fresh token it returns the blob as it stands and makes no call but the read;
  otherwise it renders the slot as read, and the write of that rendering is its last call, the
  result being the rendering exactly if the write succeeds.\<close>

lemma persist_stable_blob:
  "case fst (sm_get_slot mgr i (st_world s)) of
     Inl e \<Rightarrow> fst (persist_slot_config sv ss mgr i op s) = Inl e
   | Inr slot \<Rightarrow>
       (if keeps_blob slot op
        then fst (persist_slot_config sv ss mgr i op s) = Inr (sl_config_yaml slot)
           \<and> calls_since s (snd (persist_slot_config sv ss mgr i op s)) = [(GetSlot i, True)]
        else \<exists>grp. case render_slot sv slot grp op of
               Inl e \<Rightarrow> fst (persist_slot_config sv ss mgr i op s) = Inl e
             | Inr yaml \<Rightarrow> \<exists>now b.
                 last (calls_since s (snd (persist_slot_config sv ss mgr i op s)))
                   = (PatchSlot i (config_patch yaml now), b)
                 \<and> (if b then fst (persist_slot_config sv ss mgr i op s) = Inr yaml
                    else fst (persist_slot_config sv ss mgr i op s) \<in> range Inl))"
proof (cases rule: persist_cases [of mgr i s sv ss op])
  case (unrenderable slot grp e)
  then show ?thesis by (auto intro!: exI [of _ grp])
next
  case (written slot grp yaml now b)
  note c = calls_since_append [OF written(5)]
  show ?thesis
    unfolding written(1) sum.case if_not_P [OF written(2)]
    by (rule exI [of _ grp], unfold written(3) sum.case, intro exI conjI, unfold c)
      (simp, rule written(4))
qed (simp_all add: calls_since_append)

lemma contains_lines: "l \<in> set ls \<Longrightarrow> contains l t \<Longrightarrow> contains (lines ls) t"
proof -
  assume "l \<in> set ls" and t: "contains l t"
  then obtain xs ys where ls: "ls = xs @ l # ys" by (meson split_list)
  have "lines ls = lines xs @ l @ [chr_of 10] @ lines ys" by (simp add: ls lines_def line_def)
  then have "sublist l (lines ls)" by (metis sublist_appendI)
  with t show ?thesis unfolding contains_def by (meson sublist_order.order.trans)
qed

text \<open>Where the bare opaque token goes. A persist with a fresh token for a slot on the broker
  pathway, if it succeeds, has written to the store a configuration that contains the token itself;
  of the slot it holds the name only, no Nomad token and no MinIO key.\<close>

lemma persist_writes_bare_token:
  assumes "fst (sm_get_slot mgr i (st_world s)) = Inr slot"
    and "cred_mode (sl_cred_source slot) = ''seedling/v1''" and "op \<noteq> []"
    and "persist_slot_config sv ss mgr i op s = (Inr yaml, s')"
  shows "contains yaml op
    \<and> (\<exists>now. (PatchSlot i (config_patch yaml now), True) \<in> set (calls_since s s'))
    \<and> yaml = opaque_yaml (up_cluster (sv_up sv)) (sl_slot_name slot) op"
proof -
  have r: "render_slot sv slot grp op = Inr (opaque_yaml (up_cluster (sv_up sv)) (sl_slot_name slot) op)"
    for grp using assms(2,3) by (simp add: render_slot_def render_config_yaml_def)
  have "contains (''        access_token: '' @ op) op"
    unfolding contains_def by (metis sublist_append_leftI sublist_order.order.refl)
  then have y: "contains (opaque_yaml (up_cluster (sv_up sv)) (sl_slot_name slot) op) op"
    unfolding opaque_yaml_def by (rule contains_lines [rotated]) simp
  show ?thesis
  proof (cases rule: persist_cases [of mgr i s sv ss op])
    case (written slot' grp yaml' now b)
    then have "yaml' = opaque_yaml (up_cluster (sv_up sv)) (sl_slot_name slot) op"
      using assms(1) r by simp
    moreover have b: "b" "yaml = yaml'" using written(4) assms(4) by (auto split: if_splits)
    moreover have "(PatchSlot i (config_patch yaml' now), b) \<in> set (calls_since s s')"
      using calls_since_append [OF written(5)] assms(4) by simp
    ultimately show ?thesis using y by auto
  qed (use assms r in \<open>auto simp: keeps_blob_def\<close>)
qed

lemma persist_writes_bare_token_witness:
  "\<exists>yaml. contains yaml ''abco_x''
    \<and> yaml = opaque_yaml sample_cluster ''slot-calm_dassie'' ''abco_x''"
proof -
  let ?p = "persist_slot_config sample_server mock_store mock_manager ''mock'' ''abco_x'' sample_state"
  have m: "cred_mode (sl_cred_source mock_slot) = ''seedling/v1''" by (simp add: mock_slot_def)
  have g: "fst (sm_get_slot mock_manager ''mock'' (st_world sample_state)) = Inr mock_slot"
    by (simp add: mock_manager_def)
  have "\<exists>y. fst ?p = Inr y"
    by (simp add: persist_slot_config_def io_def io_total_def now_pb_def clock_def m mock_manager_def
        render_config_yaml_def Let_def case_prod_beta)
  then obtain y where "fst ?p = Inr y" ..
  then have "?p = (Inr y, snd ?p)" by (metis prod.collapse)
  from persist_writes_bare_token [OF g m _ this] show ?thesis
    by (auto simp: mock_slot_def sample_server_def mock_upstreams_def)
qed

end
