(* ===== verification/Claim.thy ===== *)
theory Claim
  imports Render Operator
begin

text \<open>
  \<^verbatim>\<open>claim.go\<close> and the credential-source flip of \<^verbatim>\<open>manage.go\<close>: how a slot gets
  its owner and how it moves between the two credential pathways. A claim runs its lookup and its
  patch under \<^verbatim>\<open>claimLock\<close>, so one claim is one step of the model.
\<close>

section \<open>POST /slots/claim\<close>

record claim_request =
  cq_claim_code :: gostring
  cq_name :: gostring
  cq_email :: gostring
  cq_cred_source :: gostring

definition claim_request_of :: "gostring \<Rightarrow> claim_request option" where
  "claim_request_of raw =
     (if raw = [] then Some \<lparr>cq_claim_code = [], cq_name = [], cq_email = [], cq_cred_source = []\<rparr>
      else (case json_unmarshal raw of
          None \<Rightarrow> None
        | Some v \<Rightarrow>
            (case struct_members v of
               None \<Rightarrow> None
             | Some ms \<Rightarrow>
                 (case (str_field ''claim_code'' ms, str_field ''name'' ms, str_field ''email'' ms,
                        str_field ''cred_source'' ms) of
                    (Some c, Some n, Some e, Some cs) \<Rightarrow>
                      Some \<lparr>cq_claim_code = c, cq_name = n, cq_email = e, cq_cred_source = cs\<rparr>
                  | _ \<Rightarrow> None))))"

definition claim_filter :: "gostring \<Rightarrow> gostring" where
  "claim_filter code = eq_filter ''claim_code'' code @ '' && '' @ eq_filter ''state'' ''unclaimed''"

text \<open>The code is pasted into the filter as it comes: a quote in it ends the literal, and what follows
  is part of the expression.\<close>

lemma claim_filter_pastes:
  "claim_filter (''x'' @ [chr_of 39] @ '' || state!='' @ [chr_of 39]) =
     eq_filter ''claim_code'' ''x'' @ '' || '' @ ''state!='' @ [chr_of 39, chr_of 39] @ '' && ''
       @ eq_filter ''state'' ''unclaimed''"
  by (simp add: claim_filter_def eq_filter_def)

definition lookup_group_cred_source_default ::
  "'w slot_store \<Rightarrow> gostring \<Rightarrow> 'w st \<Rightarrow> gostring \<times> 'w st" where
  "lookup_group_cred_source_default ss group_id s =
     (if group_id = [] then ([], s)
      else (case ss_pb_get ss of
          None \<Rightarrow> ([], s)
        | Some get \<Rightarrow>
            (let path = ''/api/collections/groups/records/'' @ group_id in
             case io (PbGet path) (get path) s of
               (Inl e, s1) \<Rightarrow> ([], s1)
             | (Inr rb, s1) \<Rightarrow>
                 (case json_unmarshal rb of
                    None \<Rightarrow> ([], s1)
                  | Some v \<Rightarrow>
                      (case struct_members v of
                         None \<Rightarrow> ([], s1)
                       | Some ms \<Rightarrow>
                           (case str_field ''cred_source_default'' ms of
                              None \<Rightarrow> ([], s1)
                            | Some d \<Rightarrow> (to_lower (trim_space d), s1)))))))"

definition effective_cred_source ::
  "'w slot_store \<Rightarrow> gostring \<Rightarrow> gostring \<Rightarrow> 'w st \<Rightarrow> gostring \<times> 'w st" where
  "effective_cred_source ss requested group_id s =
     (let (cs, s1) =
        (if requested = [] then lookup_group_cred_source_default ss group_id s else (requested, s))
      in (if cs = [] then ''local'' else cs, s1))"

definition claim_patch :: "claim_request \<Rightarrow> gostring \<Rightarrow> patch" where
  "claim_patch req claimed_at =
     [(''state'', JStr ''claimed''), (''claimed_by_name'', JStr (trim_space (cq_name req))),
      (''claimed_by_email'', JStr (trim_space (cq_email req))), (''claimed_at'', JStr claimed_at)]"

definition opaque_patch :: "'w server \<Rightarrow> gostring \<Rightarrow> patch" where
  "opaque_patch sv opaque =
     [(''cred_source'', JStr ''seedling/v1''), (''opaque_token_hash'', JStr (sha256_hex sv opaque))]"

definition claim_response :: "slot \<Rightarrow> gostring \<Rightarrow> response" where
  "claim_response slot blob =
     mk_response 200
       (set_header ''Cache-Control'' ''no-store''
          (set_header ''Content-Length'' (itoa (int (length blob)))
             (set_header ''Content-Disposition'' (config_disposition (sl_slot_name slot))
                (set_header ''Content-Type'' ''application/yaml'' [])))) [] (Text blob)"

text \<open>The opaque token of a claim: minted for \<^verbatim>\<open>seedling/v1\<close> only.\<close>

definition claim_opaque :: "'w server \<Rightarrow> gostring \<Rightarrow> 'w st \<Rightarrow> (go_error, gostring) result \<times> 'w st" where
  "claim_opaque sv cs s = (if cs = ''seedling/v1'' then mint_opaque sv s else (Inr [], s))"

text \<open>The claim of a slot that was found, under the lock.\<close>

definition claim_slot ::
  "'w server \<Rightarrow> 'w slot_store \<Rightarrow> 'w slot_manager \<Rightarrow> claim_request \<Rightarrow> gostring \<Rightarrow> slot \<Rightarrow> 'w st
   \<Rightarrow> response \<times> 'w st" where
  "claim_slot sv ss mgr req requested slot s =
     (case effective_cred_source ss requested (sl_group slot) s of
        (cs, s1) \<Rightarrow>
          (case clock sv s1 of
             (t, s2) \<Rightarrow>
               (case claim_opaque sv cs s2 of
                  (Inl e, s3) \<Rightarrow>
                    (err_json 500 ''opaque_mint_failed'',
                     log_at L1 ''claim.opaque_mint_failed'' [AStr ''error'' (error_text e)] s3)
                | (Inr opaque, s3) \<Rightarrow>
                    (let p = claim_patch req (millis_text t)
                             @ (if cs = ''seedling/v1'' then opaque_patch sv opaque else []) in
                     case io (PatchSlot (sl_id slot) p) (sm_patch_slot mgr (sl_id slot) p) s3 of
                       (Inl e, s4) \<Rightarrow>
                         (err_json 500 ''internal_error'',
                          log_at L1 ''claim.pb_patch_failed'' [AStr ''error'' (error_text e)] s4)
                     | (Inr _, s4) \<Rightarrow>
                         (case persist_slot_config sv ss mgr (sl_id slot) opaque s4 of
                            (Inl e, s5) \<Rightarrow>
                              (err_json 500 ''config_render_failed'',
                               log_at L1 ''claim.render_failed''
                                 [AStr ''slot'' (sl_slot_name slot), AStr ''error'' (error_text e)] s5)
                          | (Inr blob, s5) \<Rightarrow>
                              (claim_response slot blob,
                               log_at L1 ''claim.ok''
                                 [AStr ''slot'' (sl_slot_name slot), AStr ''cred_source'' cs,
                                  AStr ''name'' (trim_space (cq_name req))] s5))))))"

definition handle_slots_claim :: "'w server \<Rightarrow> request \<Rightarrow> 'w st \<Rightarrow> response \<times> 'w st" where
  "handle_slots_claim sv r s =
     (case claim_request_of (read_limited body_limit r) of
        None \<Rightarrow> (err_json 400 ''invalid_json'', s)
      | Some req \<Rightarrow>
          (let code = trim_space (cq_claim_code req);
               requested = cred_mode (cq_cred_source req) in
           if code = [] then (err_json 400 ''claim_code_required'', s)
           else if requested \<noteq> [] \<and> requested \<noteq> ''local'' \<and> requested \<noteq> ''seedling/v1''
           then (write_json 400
                   (JObj [(''allowed'', JArr [JStr ''local'', JStr ''seedling/v1'']),
                          (''error'', JStr ''invalid_cred_source''), (''requested'', JStr requested)]),
                 s)
           else (case up_store (sv_up sv) of
               None \<Rightarrow> (err_json 500 ''store_not_writable'', s)
             | Some ss \<Rightarrow>
                 (case ss_manager ss of
                    None \<Rightarrow> (err_json 500 ''store_not_writable'', s)
                  | Some mgr \<Rightarrow>
                      (case io (FindSlot (claim_filter code)) (ss_find_slot ss (claim_filter code)) s of
                         (Inl e, s1) \<Rightarrow>
                           (err_json 500 ''internal_error'',
                            log_at L1 ''claim.find_failed'' [AStr ''error'' (error_text e)] s1)
                       | (Inr None, s1) \<Rightarrow> (err_json 404 ''code_invalid_or_used'', s1)
                       | (Inr (Some slot), s1) \<Rightarrow> claim_slot sv ss mgr req requested slot s1)))))"

section \<open>POST /manage/slots/{slot}/cred-source\<close>

definition cred_source_json ::
  "gostring \<Rightarrow> bool \<Rightarrow> gostring \<Rightarrow> gostring \<Rightarrow> gostring \<Rightarrow> json" where
  "cred_source_json cs changed previous opaque note =
     JObj ([(''ok'', JBool True), (''cred_source'', JStr cs), (''changed'', JBool changed)]
           @ omit_empty ''previous_cred_source'' previous @ omit_empty ''opaque_token'' opaque
           @ omit_empty ''note'' note)"

definition opaque_note :: gostring where
  "opaque_note = ''This is the ONLY response containing the bare opaque. Hand it to the user and discard from logs.''"

definition current_cred_source :: "slot \<Rightarrow> gostring" where
  "current_cred_source slot =
     (let cs = cred_mode (sl_cred_source slot) in if cs = [] then ''local'' else cs)"

definition wanted_cred_source :: "gostring \<Rightarrow> gostring option" where
  "wanted_cred_source raw =
     (if raw = [] then Some (cred_mode [])
      else (case json_unmarshal raw of
          None \<Rightarrow> None
        | Some v \<Rightarrow>
            (case struct_members v of
               None \<Rightarrow> None
             | Some ms \<Rightarrow> map_option cred_mode (str_field ''cred_source'' ms))))"

definition local_patch :: patch where
  "local_patch = [(''cred_source'', JStr []), (''opaque_token_hash'', JStr [])]"

text \<open>The flip itself: the patch, the new rendering, and the bare token if one was minted.\<close>

definition flip_cred_source ::
  "'w server \<Rightarrow> 'w slot_store \<Rightarrow> 'w slot_manager \<Rightarrow> slot \<Rightarrow> gostring \<Rightarrow> 'w st
   \<Rightarrow> (response, gostring) result \<times> 'w st" where
  "flip_cred_source sv ss mgr slot want s =
     (let apply_patch = (\<lambda>p opaque t.
            case io (PatchSlot (sl_id slot) p) (sm_patch_slot mgr (sl_id slot) p) t of
              (Inl e, t1) \<Rightarrow> (Inl (err_json 500 ''patch_failed''), t1)
            | (Inr _, t1) \<Rightarrow>
                (case persist_slot_config sv ss mgr (sl_id slot) opaque t1 of
                   (Inl e, t2) \<Rightarrow> (Inl (err_json 500 ''render_failed''), t2)
                 | (Inr _, t2) \<Rightarrow> (Inr opaque, t2)))
      in if want = ''seedling/v1'' then
           (case mint_opaque sv s of
              (Inl e, s1) \<Rightarrow> (Inl (err_json 500 ''mint_failed''), s1)
            | (Inr opaque, s1) \<Rightarrow> apply_patch (opaque_patch sv opaque) opaque s1)
         else apply_patch local_patch [] s)"

definition handle_cred_source :: "'w server \<Rightarrow> request \<Rightarrow> 'w st \<Rightarrow> response \<times> 'w st" where
  "handle_cred_source sv r s =
     (case require_operator sv r of
        Some resp \<Rightarrow> (resp, s)
      | None \<Rightarrow>
          if rq_slot r = [] then (err_json 400 ''missing_slot'', s)
          else (case wanted_cred_source (read_limited body_limit r) of
              None \<Rightarrow> (err_json 400 ''bad_json_body'', s)
            | Some want \<Rightarrow>
                if want \<noteq> ''local'' \<and> want \<noteq> ''seedling/v1'' then (err_json 400 ''invalid_cred_source'', s)
                else (case find_managed sv (rq_slot r) s of
                    (Inl resp, s1) \<Rightarrow> (resp, s1)
                  | (Inr (ss, mgr, slot), s1) \<Rightarrow>
                      if sl_state slot \<noteq> ''claimed'' then (err_json 400 ''slot_not_claimed'', s1)
                      else
                        (let current = current_cred_source slot; muser = minio_user slot (rq_slot r) in
                         if want = current
                         then (write_json 200 (cred_source_json current False [] [] []), s1)
                         else (case flip_cred_source sv ss mgr slot want s1 of
                             (Inl resp, s2) \<Rightarrow> (resp, s2)
                           | (Inr opaque, s2) \<Rightarrow>
                               (write_json 200
                                  (cred_source_json want True current opaque
                                     (if want = ''seedling/v1'' then opaque_note else [])),
                                log_at L1 ''manage.cred_source.flip''
                                  [AStr ''slot'' (rq_slot r), AStr ''from'' current, AStr ''to'' want]
                                  (invalidate mgr muser s2)))))))"

section \<open>What a claim writes\<close>

lemma within_claim_opaque:
  "claim_opaque sv cs s1 = (x, s2) \<Longrightarrow> within C L s s1 \<Longrightarrow> ReadRandom 32 \<in> C \<Longrightarrow> within C L s s2"
  by (auto simp: claim_opaque_def split: if_splits elim!: within_mint_opaque)

lemma within_effective:
  "effective_cred_source ss q g s1 = (x, s2) \<Longrightarrow> within C L s s1 \<Longrightarrow> (\<And>p. PbGet p \<in> C) \<Longrightarrow>
     within C L s s2"
  by (auto simp: effective_cred_source_def lookup_group_cred_source_default_def Let_def
      split: if_splits option.splits prod.splits sum.splits elim!: within_io)

text \<open>The successful patch of a claim of slot \<open>i\<close>: it marks the slot claimed by the named person, and
  on the broker pathway it records the hash of the token that was minted.\<close>

definition claims_slot :: "'w server \<Rightarrow> claim_request \<Rightarrow> gostring \<Rightarrow> upcall \<times> bool \<Rightarrow> bool" where
  "claims_slot sv req i x \<longleftrightarrow>
     (\<exists>t p. x = (PatchSlot i (claim_patch req t @ p), True)
        \<and> (p = [] \<or> (\<exists>b. p = opaque_patch sv (opaque_prefix @ b64_rawurl_encode b))))"

lemma claim_slot_outcome:
  assumes "rs_status (fst (claim_slot sv ss mgr req q slot s)) = 200"
  shows "\<exists>x blob. claims_slot sv req (sl_id slot) x
    \<and> x \<in> set (calls_since s (snd (claim_slot sv ss mgr req q slot s)))
    \<and> fst (claim_slot sv ss mgr req q slot s) = claim_response slot blob"
proof -
  obtain cs s1 where e: "effective_cred_source ss q (sl_group slot) s = (cs, s1)" by force
  obtain t s2 where t: "clock sv s1 = (t, s2)" by force
  obtain y s3 where o: "claim_opaque sv cs s2 = (y, s3)" by force
  with e t assms obtain opaque where y: "y = Inr opaque" by (cases y) (simp_all add: claim_slot_def)
  let ?p = "claim_patch req (millis_text t) @ (if cs = ''seedling/v1'' then opaque_patch sv opaque else [])"
  obtain z s4 where p: "io (PatchSlot (sl_id slot) ?p) (sm_patch_slot mgr (sl_id slot) ?p) s3 = (z, s4)"
    by force
  with e t o y assms obtain u where z: "z = Inr u"
    by (cases z) (simp_all add: claim_slot_def)
  obtain v s5 where r: "persist_slot_config sv ss mgr (sl_id slot) opaque s4 = (v, s5)" by force
  with e t o y p z assms obtain blob where v: "v = Inr blob"
    by (cases v) (simp_all add: claim_slot_def)
  have h: "claim_slot sv ss mgr req q slot s = (claim_response slot blob,
      log_at L1 ''claim.ok'' [AStr ''slot'' (sl_slot_name slot), AStr ''cred_source'' cs,
        AStr ''name'' (trim_space (cq_name req))] s5)"
    using e t o y p z r v by (simp add: claim_slot_def)
  have "within UNIV UNIV s s3"
    using e t o by (auto elim!: within_claim_opaque within_clock within_effective)
  moreover have "within UNIV UNIV s4 s5" using r by (auto elim!: within_persist)
  ultimately have "(PatchSlot (sl_id slot) ?p, True) \<in> set (calls_since s s5)"
    using io_eqD(5) [OF p] z by (auto simp: within_def calls_since_def)
  moreover have "claims_slot sv req (sl_id slot) (PatchSlot (sl_id slot) ?p, True)"
    using o y by (auto simp: claims_slot_def claim_opaque_def mint_opaque_def
        split: if_splits prod.splits sum.splits)
  ultimately show ?thesis unfolding h by (auto simp: calls_since_def)
qed


section \<open>What is logged\<close>

definition claim_log :: "log_record set" where
  "claim_log =
     failure_records ''claim.find_failed'' [] \<union> failure_records ''claim.opaque_mint_failed'' []
     \<union> failure_records ''claim.pb_patch_failed'' []
     \<union> {rec. \<exists>n. rec \<in> failure_records ''claim.render_failed'' [AStr ''slot'' n]}
     \<union> {logged L1 ''claim.ok'' [AStr ''slot'' n, AStr ''cred_source'' c, AStr ''name'' p] | n c p. True}"

definition flip_log :: "log_record set" where
  "flip_log = {logged L1 ''manage.cred_source.flip''
     [AStr ''slot'' n, AStr ''from'' a, AStr ''to'' b] | n a b. b \<in> {''local'', ''seedling/v1''}}"

lemma claim_log_intros:
  "failure_records ''claim.find_failed'' [] \<subseteq> claim_log"
  "logged L1 ''claim.find_failed'' [AStr ''error'' (error_text e)] \<in> claim_log"
  "logged L1 ''claim.opaque_mint_failed'' [AStr ''error'' (error_text e)] \<in> claim_log"
  "logged L1 ''claim.pb_patch_failed'' [AStr ''error'' (error_text e)] \<in> claim_log"
  "logged L1 ''claim.render_failed'' [AStr ''slot'' n, AStr ''error'' (error_text e)] \<in> claim_log"
  "logged L1 ''claim.ok'' [AStr ''slot'' n, AStr ''cred_source'' c, AStr ''name'' p] \<in> claim_log"
  unfolding claim_log_def failure_records_def append_Nil append_Cons by blast+

lemma claim_slot_logs: "within UNIV claim_log s (snd (claim_slot sv ss mgr req q slot s))"
  by (auto simp: claim_slot_def Let_def split: prod.split sum.split
      intro!: within_log claim_log_intros
      elim!: within_io within_clock within_effective within_claim_opaque within_persist)

lemma flip_logs:
  "flip_cred_source sv ss mgr slot want s1 = (x, s2) \<Longrightarrow> within UNIV L s s1 \<Longrightarrow> within UNIV L s s2"
  by (auto simp: flip_cred_source_def Let_def split: prod.splits sum.splits if_splits
      elim!: within_io within_mint_opaque within_persist)

text \<open>The log of a claim and of a flip. A claim logs the slot, the credential source and the
  claimant's name, or an upstream's error; a flip logs the slot and the transition. No record carries
  a token, a hash, a configuration or a claim code.\<close>

lemma claim_and_flip_logs:
  "set (log_since s (snd (handle_slots_claim sv r s))) \<subseteq> claim_log
   \<and> set (log_since s (snd (handle_cred_source sv r s))) \<subseteq> flip_log"
proof
  have "within UNIV claim_log s (snd (handle_slots_claim sv r s))"
    using claim_slot_logs within_trans
    by (auto simp: handle_slots_claim_def Let_def split: option.split prod.split sum.split
        intro!: within_log claim_log_intros elim!: within_io intro: within_trans [OF claim_slot_logs])
  then show "set (log_since s (snd (handle_slots_claim sv r s))) \<subseteq> claim_log" by (rule within_logs)
next
  have fm: "within UNIV flip_log s s2" if "find_managed sv n s = (x, s2)" for n x s2
    using that by (auto simp: find_managed_def Let_def split: option.splits prod.splits sum.splits
        elim!: within_io)
  have rec: "logged L1 ''manage.cred_source.flip'' [AStr ''slot'' n, AStr ''from'' a, AStr ''to'' b]
      \<in> flip_log" if "\<not> (b \<noteq> ''local'' \<and> b \<noteq> ''seedling/v1'')" for n a b
    using that by (auto simp: flip_log_def)
  have inv: "within UNIV flip_log s (invalidate m u s2)" if "within UNIV flip_log s s2" for m u s2
    using that by (simp add: invalidate_def within_snd_io_total)
  have "within UNIV flip_log s (snd (handle_cred_source sv r s))"
    using fm by (auto simp: handle_cred_source_def Let_def split: option.split prod.split sum.split
        intro!: within_log inv rec elim!: flip_logs)
  then show "set (log_since s (snd (handle_cred_source sv r s))) \<subseteq> flip_log" by (rule within_logs)
qed

end
