(* ===== verification/Lifecycle.thy ===== *)
theory Lifecycle
  imports Claim
begin

text \<open>
  \<^verbatim>\<open>manage_lifecycle.go\<close>, \<^verbatim>\<open>manage_rotate.go\<close> and
  \<^verbatim>\<open>creds_files.go\<close>: suspension, reactivation and rotation of a slot, and the credential
  files they leave on the host.
\<close>

section \<open>Credential files\<close>

definition creds_dir :: gostring where
  "creds_dir = ''/etc/jupyterhub/minio-creds''"

definition abc_config_dir :: gostring where
  "abc_config_dir = ''/etc/jupyterhub/abc-configs''"

text \<open>\<^verbatim>\<open>filepath.Join\<close> of an absolute directory and a name.\<close>

definition path_join :: "gostring \<Rightarrow> gostring \<Rightarrow> gostring" where
  "path_join d n = clean_rooted (if n = [] then d else d @ ''/'' @ n)"

definition write_private_file ::
  "'w server \<Rightarrow> gostring \<Rightarrow> gostring \<Rightarrow> gostring \<Rightarrow> 'w st \<Rightarrow> (go_error, unit) result \<times> 'w st" where
  "write_private_file sv dir name content s =
     (case io (MkdirAll dir) (rt_mkdir_all (sv_rt sv) dir) s of
        (Inl e, s1) \<Rightarrow> (Inl e, s1)
      | (Inr _, s1) \<Rightarrow>
          (let s2 = silent (Chmod dir) (rt_chmod (sv_rt sv) dir) s1; path = path_join dir name in
           io (WriteFile path content) (rt_write_file (sv_rt sv) path content) s2))"

definition creds_content :: "gostring \<Rightarrow> gostring \<Rightarrow> gostring \<Rightarrow> gostring" where
  "creds_content access_key secret_key s3_endpoint = lines
     [''AWS_ACCESS_KEY_ID='' @ access_key, ''AWS_SECRET_ACCESS_KEY='' @ secret_key,
      ''S3_ENDPOINT_URL='' @ s3_endpoint]"

definition write_creds_file ::
  "'w server \<Rightarrow> gostring \<Rightarrow> gostring \<Rightarrow> gostring \<Rightarrow> gostring \<Rightarrow> 'w st
   \<Rightarrow> (go_error, unit) result \<times> 'w st" where
  "write_creds_file sv slot_name access_key secret_key s3_endpoint s =
     write_private_file sv creds_dir slot_name (creds_content access_key secret_key s3_endpoint) s"

definition write_abc_config_file ::
  "'w server \<Rightarrow> gostring \<Rightarrow> gostring \<Rightarrow> 'w st \<Rightarrow> (go_error, unit) result \<times> 'w st" where
  "write_abc_config_file sv slot_name blob s =
     write_private_file sv abc_config_dir slot_name blob s"

definition removal_error :: "(go_error, unit) result \<Rightarrow> go_error option" where
  "removal_error r = (case r of Inl (ErrNotExist t) \<Rightarrow> None | Inl e \<Rightarrow> Some e | Inr _ \<Rightarrow> None)"

definition remove_creds_files :: "'w server \<Rightarrow> gostring \<Rightarrow> 'w st \<Rightarrow> (go_error, unit) result \<times> 'w st" where
  "remove_creds_files sv slot_name s =
     (let p = path_join creds_dir slot_name; q = path_join abc_config_dir slot_name in
      case io (RemoveFile p) (rt_remove (sv_rt sv) p) s of
        (r1, s1) \<Rightarrow>
          (case io (RemoveFile q) (rt_remove (sv_rt sv) q) s1 of
             (r2, s2) \<Rightarrow>
               (case removal_error r1 of
                  Some e \<Rightarrow> (Inl e, s2)
                | None \<Rightarrow>
                    (case removal_error r2 of Some e \<Rightarrow> (Inl e, s2) | None \<Rightarrow> (Inr (), s2)))))"

text \<open>The idiom \<^verbatim>\<open>if err := f(); err != nil { log }\<close> for the helpers above.\<close>

definition log_failure :: "gostring \<Rightarrow> attr list \<Rightarrow> (go_error, 'a) result \<times> 'w st \<Rightarrow> 'w st" where
  "log_failure m as p =
     (case p of
        (Inl e, s) \<Rightarrow> log_at L1 m (as @ [AStr ''error'' (error_text e)]) s
      | (Inr _, s) \<Rightarrow> s)"

section \<open>Suspension\<close>

definition slot_accessor :: "slot \<Rightarrow> gostring" where
  "slot_accessor sl = sl_nomad_token_accessor sl"

definition suspend_minio :: "'w server \<Rightarrow> gostring \<Rightarrow> 'w st \<Rightarrow> 'w st" where
  "suspend_minio sv muser s =
     (case up_minio_admin (sv_up sv) of
        None \<Rightarrow> s
      | Some ma \<Rightarrow>
          best_effort (SetEnabled muser False) (ma_set_enabled ma muser False)
            ''suspend.minio_disable_failed'' [AStr ''user'' muser] s)"

definition suspend_token :: "'w server \<Rightarrow> slot \<Rightarrow> 'w st \<Rightarrow> 'w st" where
  "suspend_token sv slot s =
     (let acc = slot_accessor slot in
      if acc = [] then s
      else (case up_nomad_admin (sv_up sv) of
          None \<Rightarrow> s
        | Some na \<Rightarrow>
            best_effort (DeleteToken acc) (na_delete_token na acc)
              ''suspend.nomad_token_delete_failed'' [AStr ''accessor'' acc] s))"

definition stop_server :: "'w server \<Rightarrow> gostring \<Rightarrow> gostring \<Rightarrow> 'w st \<Rightarrow> 'w st" where
  "stop_server sv msg slot_name s =
     (case hub_stop_server (up_hub (sv_up sv)) of
        None \<Rightarrow> s
      | Some stop \<Rightarrow>
          best_effort (StopServer slot_name) (stop slot_name) msg [AStr ''slot'' slot_name] s)"

definition ok_true :: response where
  "ok_true = write_json 200 (JObj [(''ok'', JBool True)])"

definition suspend_patch :: patch where
  "suspend_patch = [(''state'', JStr ''suspended'')]"

definition suspend_slot ::
  "'w server \<Rightarrow> 'w slot_manager \<Rightarrow> gostring \<Rightarrow> slot \<Rightarrow> 'w st \<Rightarrow> response \<times> 'w st" where
  "suspend_slot sv mgr slot_name slot s =
     (let muser = minio_user slot slot_name;
          s1 = suspend_token sv slot (suspend_minio sv muser s);
          s2 = log_failure ''suspend.creds_remove_failed'' [AStr ''slot'' slot_name]
                 (remove_creds_files sv slot_name s1) in
      case io (PatchSlot (sl_id slot) suspend_patch) (sm_patch_slot mgr (sl_id slot) suspend_patch) s2 of
        (Inl e, s3) \<Rightarrow>
          (err_json 500 ''patch_failed'',
           log_at L1 ''suspend.pb_patch_failed''
             [AStr ''slot'' slot_name, AStr ''error'' (error_text e)] s3)
      | (Inr _, s3) \<Rightarrow>
          (ok_true,
           log_at L1 ''manage.suspend.ok'' [AStr ''slot'' slot_name]
             (stop_server sv ''suspend.jh_stop_failed'' slot_name (invalidate mgr muser s3))))"

definition handle_manage_suspend :: "'w server \<Rightarrow> request \<Rightarrow> 'w st \<Rightarrow> response \<times> 'w st" where
  "handle_manage_suspend sv r s =
     (case require_operator sv r of
        Some resp \<Rightarrow> (resp, s)
      | None \<Rightarrow>
          if rq_slot r = [] then (err_json 400 ''missing_slot'', s)
          else (case find_managed sv (rq_slot r) s of
              (Inl resp, s1) \<Rightarrow> (resp, s1)
            | (Inr (ss, mgr, slot), s1) \<Rightarrow>
                if sl_state slot \<noteq> ''claimed'' then (err_json 400 ''slot_not_claimed'', s1)
                else suspend_slot sv mgr (rq_slot r) slot s1))"

section \<open>Fresh credentials\<close>

definition role_name_of :: "gostring \<Rightarrow> gostring" where
  "role_name_of grp = ''r-su-'' @ grp @ ''-pool''"

definition role_id_of :: "'w nomad_admin \<Rightarrow> gostring \<Rightarrow> 'w st \<Rightarrow> gostring \<times> 'w st" where
  "role_id_of na role s =
     (case io (GetRoleID role) (na_get_role_id na role) s of
        (Inl e, s1) \<Rightarrow> ([], s1)
      | (Inr rid, s1) \<Rightarrow> (rid, s1))"

text \<open>The two mints both handlers make, the MinIO secret first; \<open>what\<close> names the handler in the log.\<close>

definition mint_credentials ::
  "gostring \<Rightarrow> 'w nomad_admin \<Rightarrow> 'w minio_admin \<Rightarrow> gostring \<Rightarrow> gostring \<Rightarrow> gostring \<Rightarrow> 'w st
   \<Rightarrow> (response, gostring \<times> gostring \<times> gostring) result \<times> 'w st" where
  "mint_credentials what na ma muser slot_name rid s =
     (case io (RotateSecret muser) (ma_rotate_secret ma muser) s of
        (Inl e, s1) \<Rightarrow>
          (Inl (err_json 500 ''minio_rotate_failed''),
           log_at L1 (what @ ''.minio_rotate_failed'')
             [AStr ''user'' muser, AStr ''error'' (error_text e)] s1)
      | (Inr secret, s1) \<Rightarrow>
          (case io (CreateToken slot_name rid) (na_create_token na slot_name rid) s1 of
             (Inl e, s2) \<Rightarrow>
               (Inl (err_json 500 ''nomad_token_create_failed''),
                log_at L1 (what @ ''.nomad_token_create_failed'')
                  [AStr ''slot'' slot_name, AStr ''error'' (error_text e)] s2)
           | (Inr (acc, tok), s2) \<Rightarrow> (Inr (secret, acc, tok), s2)))"

definition creds_patch :: "gostring \<Rightarrow> gostring \<Rightarrow> gostring \<Rightarrow> patch" where
  "creds_patch secret acc tok =
     [(''minio_secret_key'', JStr secret), (''nomad_token_accessor'', JStr acc),
      (''nomad_token_secret'', JStr tok)]"

section \<open>Reactivation\<close>

definition reactivate_patch :: "gostring \<Rightarrow> gostring \<Rightarrow> gostring \<Rightarrow> patch" where
  "reactivate_patch secret acc tok = (''state'', JStr ''claimed'') # creds_patch secret acc tok"

definition reactivate_slot ::
  "'w server \<Rightarrow> 'w slot_manager \<Rightarrow> 'w nomad_admin \<Rightarrow> 'w minio_admin \<Rightarrow> gostring \<Rightarrow> slot \<Rightarrow> gostring
   \<Rightarrow> 'w st \<Rightarrow> response \<times> 'w st" where
  "reactivate_slot sv mgr na ma slot_name slot grp s =
     (let muser = minio_user slot slot_name in
      case role_id_of na (role_name_of grp) s of
        (rid, s1) \<Rightarrow>
          (let s2 = best_effort (SetEnabled muser True) (ma_set_enabled ma muser True)
                      ''reactivate.minio_enable_failed'' [AStr ''user'' muser] s1 in
           case mint_credentials ''reactivate'' na ma muser slot_name rid s2 of
             (Inl resp, s3) \<Rightarrow> (resp, s3)
           | (Inr (secret, acc, tok), s3) \<Rightarrow>
               (let p = reactivate_patch secret acc tok in
                case io (PatchSlot (sl_id slot) p) (sm_patch_slot mgr (sl_id slot) p) s3 of
                  (Inl e, s4) \<Rightarrow>
                    (err_json 500 ''patch_failed'',
                     log_at L1 ''reactivate.pb_patch_failed''
                       [AStr ''slot'' slot_name, AStr ''error'' (error_text e)] s4)
                | (Inr _, s4) \<Rightarrow>
                    (let s5 = log_failure ''reactivate.creds_write_failed'' [AStr ''slot'' slot_name]
                           (write_creds_file sv slot_name muser secret
                              (cl_minio_endpoint (up_cluster (sv_up sv))) s4)
                     in (ok_true,
                         log_at L1 ''manage.reactivate.ok'' [AStr ''slot'' slot_name]
                           (invalidate mgr muser s5))))))"

definition handle_manage_reactivate :: "'w server \<Rightarrow> request \<Rightarrow> 'w st \<Rightarrow> response \<times> 'w st" where
  "handle_manage_reactivate sv r s =
     (case require_operator sv r of
        Some resp \<Rightarrow> (resp, s)
      | None \<Rightarrow>
          if rq_slot r = [] then (err_json 400 ''missing_slot'', s)
          else (case find_managed sv (rq_slot r) s of
              (Inl resp, s1) \<Rightarrow> (resp, s1)
            | (Inr (ss, mgr, slot), s1) \<Rightarrow>
                if sl_state slot \<noteq> ''suspended'' then (err_json 400 ''slot_not_suspended'', s1)
                else (case io_total (GroupName (sl_id slot)) (ss_group_name ss slot) s1 of
                    (grp, s2) \<Rightarrow>
                      (case (up_nomad_admin (sv_up sv), up_minio_admin (sv_up sv)) of
                         (Some na, Some ma) \<Rightarrow> reactivate_slot sv mgr na ma (rq_slot r) slot grp s2
                       | _ \<Rightarrow> (err_json 500 ''admin_clients_not_configured'', s2)))))"

section \<open>Rotation\<close>

definition rotate_old_token :: "'w nomad_admin \<Rightarrow> gostring \<Rightarrow> 'w st \<Rightarrow> 'w st" where
  "rotate_old_token na old s =
     (if old = [] then s
      else best_effort (DeleteToken old) (na_delete_token na old)
             ''rotate.old_token_delete_failed'' [AStr ''accessor'' old] s)"

definition rotate_config ::
  "'w server \<Rightarrow> 'w slot_store \<Rightarrow> 'w slot_manager \<Rightarrow> gostring \<Rightarrow> slot \<Rightarrow> 'w st \<Rightarrow> 'w st" where
  "rotate_config sv ss mgr slot_name slot s =
     (case persist_slot_config sv ss mgr (sl_id slot) [] s of
        (Inl e, s1) \<Rightarrow>
          log_at L1 ''rotate.persist_config_failed''
            [AStr ''slot'' slot_name, AStr ''error'' (error_text e)] s1
      | (Inr blob, s1) \<Rightarrow>
          log_failure ''rotate.abc_config_write_failed'' [AStr ''slot'' slot_name]
            (write_abc_config_file sv slot_name blob s1))"

definition rotate_slot ::
  "'w server \<Rightarrow> 'w slot_store \<Rightarrow> 'w slot_manager \<Rightarrow> 'w nomad_admin \<Rightarrow> 'w minio_admin \<Rightarrow> gostring
   \<Rightarrow> slot \<Rightarrow> gostring \<Rightarrow> 'w st \<Rightarrow> response \<times> 'w st" where
  "rotate_slot sv ss mgr na ma slot_name slot grp s =
     (let muser = minio_user slot slot_name; old = sl_nomad_token_accessor slot in
      case role_id_of na (role_name_of grp) s of
        (rid, s1) \<Rightarrow>
          (case mint_credentials ''rotate'' na ma muser slot_name rid s1 of
             (Inl resp, s2) \<Rightarrow> (resp, s2)
           | (Inr (secret, acc, tok), s2) \<Rightarrow>
               (let p = creds_patch secret acc tok in
                case io (PatchSlot (sl_id slot) p) (sm_patch_slot mgr (sl_id slot) p) s2 of
                  (Inl e, s3) \<Rightarrow>
                    (err_json 500 ''patch_failed'',
                     log_at L1 ''rotate.pb_patch_failed''
                       [AStr ''slot'' slot_name, AStr ''error'' (error_text e)] s3)
                | (Inr _, s3) \<Rightarrow>
                    (let s4 = rotate_old_token na old s3;
                         s5 = log_failure ''rotate.creds_write_failed'' [AStr ''slot'' slot_name]
                                (write_creds_file sv slot_name muser secret
                                   (cl_minio_endpoint (up_cluster (sv_up sv))) s4);
                         s6 = rotate_config sv ss mgr slot_name slot s5;
                         s7 = stop_server sv ''rotate.jh_stop_failed'' slot_name (invalidate mgr muser s6)
                     in (ok_true, log_at L1 ''manage.rotate.ok'' [AStr ''slot'' slot_name] s7)))))"

definition handle_manage_rotate :: "'w server \<Rightarrow> request \<Rightarrow> 'w st \<Rightarrow> response \<times> 'w st" where
  "handle_manage_rotate sv r s =
     (case require_operator sv r of
        Some resp \<Rightarrow> (resp, s)
      | None \<Rightarrow>
          if rq_slot r = [] then (err_json 400 ''missing_slot'', s)
          else (case find_managed sv (rq_slot r) s of
              (Inl resp, s1) \<Rightarrow> (resp, s1)
            | (Inr (ss, mgr, slot), s1) \<Rightarrow>
                if sl_state slot \<noteq> ''claimed'' \<and> sl_state slot \<noteq> ''suspended''
                then (err_json 400 ''slot_not_active'', s1)
                else (case io_total (GroupName (sl_id slot)) (ss_group_name ss slot) s1 of
                    (grp, s2) \<Rightarrow>
                      (case (up_nomad_admin (sv_up sv), up_minio_admin (sv_up sv)) of
                         (Some na, Some ma) \<Rightarrow> rotate_slot sv ss mgr na ma (rq_slot r) slot grp s2
                       | _ \<Rightarrow> (err_json 500 ''admin_clients_not_configured'', s2)))))"

section \<open>What the helpers do\<close>

fun file_call :: "upcall \<Rightarrow> bool" where
  "file_call (MkdirAll d) = True"
| "file_call (Chmod d) = True"
| "file_call (WriteFile p c) = True"
| "file_call (RemoveFile p) = True"
| "file_call _ = False"

lemma within_write_private_file:
  "write_private_file sv d n c s1 = (x, s2) \<Longrightarrow> within C L s s1 \<Longrightarrow>
     (\<And>u. file_call u \<Longrightarrow> u \<in> C) \<Longrightarrow> within C L s s2"
  by (auto simp: write_private_file_def Let_def split: prod.splits sum.splits
      elim!: within_io intro!: within_silent)

lemma within_remove_creds_files:
  "remove_creds_files sv n s1 = (x, s2) \<Longrightarrow> within C L s s1 \<Longrightarrow>
     (\<And>u. file_call u \<Longrightarrow> u \<in> C) \<Longrightarrow> within C L s s2"
  by (auto simp: remove_creds_files_def Let_def split: prod.splits option.splits elim!: within_io)

lemma within_log_failure:
  "within C L s (snd p) \<Longrightarrow> failure_records m as \<subseteq> L \<Longrightarrow> within C L s (log_failure m as p)"
  by (cases p) (auto simp: log_failure_def failure_records_def split: sum.split)

lemma within_creds_files:
  assumes "within C L s s1" and "\<And>u. file_call u \<Longrightarrow> u \<in> C"
  shows "within C L s (snd (write_creds_file sv n a b e s1))"
    and "within C L s (snd (write_abc_config_file sv n b s1))"
    and "within C L s (snd (remove_creds_files sv n s1))"
  using assms unfolding write_creds_file_def write_abc_config_file_def
  by (auto intro: within_write_private_file within_remove_creds_files prod.collapse [symmetric])

section \<open>The states of a slot\<close>

inductive lifecycle :: "gostring \<Rightarrow> gostring \<Rightarrow> bool" where
  claimed: "lifecycle ''unclaimed'' ''claimed''"
| suspended: "lifecycle ''claimed'' ''suspended''"
| reactivated: "lifecycle ''suspended'' ''claimed''"

code_pred lifecycle .

inductive_cases lifecycle_to_suspended: "lifecycle st ''suspended''"
inductive_simps lifecycle_from_claimed: "lifecycle ''claimed'' st"

lemma suspended_from_claimed: "lifecycle st ''suspended'' \<longleftrightarrow> st = ''claimed''"
  by (auto intro: lifecycle.intros elim: lifecycle_to_suspended)

text \<open>A patch written for a slot in state \<open>st\<close>: it leaves the state alone or moves it one step.\<close>

definition state_patch_ok :: "gostring \<Rightarrow> patch \<Rightarrow> bool" where
  "state_patch_ok st p \<longleftrightarrow>
     (case map_of p ''state'' of
        None \<Rightarrow> True
      | Some v \<Rightarrow> (case v of JStr t \<Rightarrow> lifecycle st t | _ \<Rightarrow> False))"

definition managed_call :: "slot option \<Rightarrow> upcall \<Rightarrow> bool" where
  "managed_call found c \<longleftrightarrow>
     (case c of
        PatchSlot i p \<Rightarrow>
          (case found of None \<Rightarrow> False | Some slot \<Rightarrow> i = sl_id slot \<and> state_patch_ok (sl_state slot) p)
      | _ \<Rightarrow> True)"

lemma managed_call_simps [simp]:
  "managed_call f (FindSlot q)" "managed_call f (GetSlot i)" "managed_call f (GroupName i)"
  "managed_call f ReadClock" "managed_call f (ReadRandom n)" "managed_call f (SetEnabled u b)"
  "managed_call f (RotateSecret u)" "managed_call f (CreateToken t q)"
  "managed_call f (DeleteToken a)" "managed_call f (GetRoleID q)" "managed_call f (StopServer t)"
  "managed_call f (InvalidateState u)"
  by (simp_all add: managed_call_def)

lemma managed_file_call: "file_call c \<Longrightarrow> managed_call f c"
  by (cases c) (simp_all add: managed_call_def)

lemma managed_patch:
  "managed_call (Some slot) (PatchSlot i p) \<longleftrightarrow> i = sl_id slot \<and> state_patch_ok (sl_state slot) p"
  by (simp add: managed_call_def)

lemma patches_ok:
  "state_patch_ok st (config_patch y n)" "state_patch_ok st (creds_patch a b c)"
  "state_patch_ok st local_patch" "state_patch_ok st (opaque_patch sv op)"
  "state_patch_ok ''claimed'' suspend_patch" "state_patch_ok ''suspended'' (reactivate_patch a b c)"
  by (simp_all add: state_patch_ok_def config_patch_def creds_patch_def local_patch_def
      opaque_patch_def suspend_patch_def reactivate_patch_def lifecycle.intros)

abbreviation managed :: "slot option \<Rightarrow> 'w st \<Rightarrow> 'w st \<Rightarrow> bool" where
  "managed f \<equiv> within {c. managed_call f c} UNIV"

lemma within_find_managed:
  "find_managed sv n s1 = (x, s2) \<Longrightarrow> within C L s s1 \<Longrightarrow> (\<And>q. FindSlot q \<in> C) \<Longrightarrow> within C L s s2"
  by (auto simp: find_managed_def Let_def split: option.splits prod.splits sum.splits elim!: within_io)

lemma within_invalidate:
  "within C L s s1 \<Longrightarrow> (\<And>u. InvalidateState u \<in> C) \<Longrightarrow> within C L s (invalidate mgr u s1)"
  by (simp add: invalidate_def within_snd_io_total)

lemma within_stop_server:
  "within C UNIV s s1 \<Longrightarrow> (\<And>n. StopServer n \<in> C) \<Longrightarrow> within C UNIV s (stop_server sv m n s1)"
  by (auto simp: stop_server_def split: option.split intro: within_best_effort)

lemma within_suspend_parts:
  "within C UNIV s s1 \<Longrightarrow> (\<And>u. SetEnabled u False \<in> C) \<Longrightarrow> within C UNIV s (suspend_minio sv u s1)"
  "within C UNIV s s1 \<Longrightarrow> (\<And>a. DeleteToken a \<in> C) \<Longrightarrow> within C UNIV s (suspend_token sv slot s1)"
  by (auto simp: suspend_minio_def suspend_token_def Let_def split: option.split
      intro: within_best_effort)

lemma within_role_id:
  "role_id_of na q s1 = (x, s2) \<Longrightarrow> within C L s s1 \<Longrightarrow> (\<And>q. GetRoleID q \<in> C) \<Longrightarrow> within C L s s2"
  by (auto simp: role_id_of_def split: prod.splits sum.splits elim!: within_io)

lemma within_mint_credentials:
  "mint_credentials w na ma u n q s1 = (x, s2) \<Longrightarrow> within C UNIV s s1 \<Longrightarrow>
     (\<And>u. RotateSecret u \<in> C) \<Longrightarrow> (\<And>n q. CreateToken n q \<in> C) \<Longrightarrow> within C UNIV s s2"
  by (auto simp: mint_credentials_def split: prod.splits sum.splits elim!: within_io)

lemma within_rotate_config:
  "within C UNIV s s1 \<Longrightarrow> GetSlot (sl_id slot) \<in> C \<Longrightarrow> ReadClock \<in> C \<Longrightarrow> (\<And>g. GroupName g \<in> C) \<Longrightarrow>
     (\<And>y n. PatchSlot (sl_id slot) (config_patch y n) \<in> C) \<Longrightarrow> (\<And>u. file_call u \<Longrightarrow> u \<in> C) \<Longrightarrow>
     within C UNIV s (rotate_config sv ss mgr n slot s1)"
  by (auto simp: rotate_config_def split: prod.split sum.split
      intro!: within_log_failure within_creds_files(2) elim!: within_persist)

lemmas lifecycle_intros =
  within_log within_best_effort within_log_failure within_creds_files within_invalidate
  within_stop_server within_suspend_parts within_rotate_config

lemmas lifecycle_elims =
  within_io within_io_total within_role_id within_mint_credentials within_persist
  within_find_managed within_mint_opaque

lemma suspend_managed:
  "sl_state slot = ''claimed'' \<Longrightarrow> managed (Some slot) s s1 \<Longrightarrow>
     managed (Some slot) s (snd (suspend_slot sv mgr n slot s1))"
  using managed_file_call patches_ok(5)
  by (auto simp: suspend_slot_def Let_def managed_patch split: prod.split sum.split
      intro!: lifecycle_intros elim!: lifecycle_elims)

lemma reactivate_managed:
  "sl_state slot = ''suspended'' \<Longrightarrow> managed (Some slot) s s1 \<Longrightarrow>
     managed (Some slot) s (snd (reactivate_slot sv mgr na ma n slot g s1))"
  using managed_file_call patches_ok(6)
  by (auto simp: reactivate_slot_def Let_def managed_patch split: prod.split sum.split
      intro!: lifecycle_intros elim!: lifecycle_elims)

lemma rotate_managed:
  "managed (Some slot) s s1 \<Longrightarrow> managed (Some slot) s (snd (rotate_slot sv ss mgr na ma n slot g s1))"
  using managed_file_call patches_ok(1,2)
  by (auto simp: rotate_slot_def rotate_old_token_def Let_def managed_patch split: prod.split sum.split
      intro!: lifecycle_intros elim!: lifecycle_elims)

lemma flip_managed:
  "flip_cred_source sv ss mgr slot want s1 = (x, s2) \<Longrightarrow> managed (Some slot) s s1 \<Longrightarrow>
     managed (Some slot) s s2"
  using patches_ok(1,3,4)
  by (auto simp: flip_cred_source_def Let_def managed_patch split: prod.splits sum.splits if_splits
      elim!: lifecycle_elims)

definition found_slot :: "'w server \<Rightarrow> request \<Rightarrow> 'w st \<Rightarrow> slot option" where
  "found_slot sv r s =
     (case fst (find_managed sv (rq_slot r) s) of Inr (ss, mgr, slot) \<Rightarrow> Some slot | Inl _ \<Rightarrow> None)"

lemma found_managed:
  "find_managed sv (rq_slot r) s = (x, s1) \<Longrightarrow> managed f s s1"
  by (auto elim!: within_find_managed)


section \<open>The order of a rotation\<close>

definition deletes :: "upcall \<Rightarrow> bool" where
  "deletes c = (case c of DeleteToken a \<Rightarrow> True | _ \<Rightarrow> False)"

definition commits :: "upcall \<times> bool \<Rightarrow> bool" where
  "commits x =
     (case x of
        (PatchSlot i p, ok) \<Rightarrow> ok \<and> map_of p ''nomad_token_secret'' \<noteq> None
          \<and> map_of p ''minio_secret_key'' \<noteq> None
      | _ \<Rightarrow> False)"

text \<open>Read left to right, no token is deleted before new credentials are committed.\<close>

fun revoked_after_commit :: "bool \<Rightarrow> (upcall \<times> bool) list \<Rightarrow> bool" where
  "revoked_after_commit committed [] = True"
| "revoked_after_commit committed (x # xs) =
     ((deletes (fst x) \<longrightarrow> committed) \<and> revoked_after_commit (committed \<or> commits x) xs)"

lemma revoked_committed [simp]: "revoked_after_commit True xs"
  by (induction xs) simp_all

lemma revoked_none: "\<forall>c\<in>fst ` set xs. \<not> deletes c \<Longrightarrow> revoked_after_commit b xs"
  by (induction xs arbitrary: b) auto

lemma revoked_append:
  "revoked_after_commit b (xs @ ys) \<longleftrightarrow>
     revoked_after_commit b xs \<and> revoked_after_commit (b \<or> (\<exists>x\<in>set xs. commits x)) ys"
  by (induction xs arbitrary: b) (auto simp: disj_assoc)

lemma within_extends: "within C L s s' \<Longrightarrow> st_calls s' = st_calls s @ calls_since s s'"
  by (auto simp: within_def calls_since_def)

abbreviation harmless :: "'w st \<Rightarrow> 'w st \<Rightarrow> bool" where
  "harmless \<equiv> within {c. \<not> deletes c} UNIV"

lemma harmless_revoked: "harmless s s' \<Longrightarrow> revoked_after_commit b (calls_since s s')"
  using within_calls [of "{c. \<not> deletes c}" UNIV s s'] by (intro revoked_none) blast

lemma file_call_harmless: "file_call c \<Longrightarrow> \<not> deletes c"
  by (cases c) (simp_all add: deletes_def)

lemma rotate_commit_or_harmless:
  assumes "harmless s0 s"
  shows "harmless s0 (snd (rotate_slot sv ss mgr na ma n slot g s))
    \<or> (\<exists>xs ys x. calls_since s0 (snd (rotate_slot sv ss mgr na ma n slot g s)) = xs @ x # ys
          \<and> (\<forall>c\<in>fst ` set xs. \<not> deletes c) \<and> commits x)"
proof -
  let ?u = "minio_user slot n"
  obtain rid s1 where r: "role_id_of na (role_name_of g) s = (rid, s1)" by force
  have h1: "harmless s0 s1" using assms r by (auto simp: deletes_def elim!: within_role_id)
  obtain x s2 where m: "mint_credentials ''rotate'' na ma ?u n rid s1 = (x, s2)" by force
  have h2: "harmless s0 s2" using h1 m by (auto simp: deletes_def elim!: within_mint_credentials)
  show ?thesis
  proof (cases x)
    case (Inl resp)
    with r m h2 show ?thesis by (simp add: rotate_slot_def)
  next
    case (Inr t)
    obtain sec acc tok where t: "t = (sec, acc, tok)" by (metis prod.exhaust)
    let ?p = "creds_patch sec acc tok"
    obtain y s3 where p: "io (PatchSlot (sl_id slot) ?p) (sm_patch_slot mgr (sl_id slot) ?p) s2 = (y, s3)"
      by force
    show ?thesis
    proof (cases y)
      case (Inl e)
      have "harmless s0 s3" using h2 p by (auto simp: deletes_def elim!: within_io)
      with r m p Inl \<open>x = Inr t\<close> t show ?thesis by (auto simp: rotate_slot_def)
    next
      case (Inr _)
      have c: "commits (PatchSlot (sl_id slot) ?p, True)" by (simp add: commits_def creds_patch_def)
      have "within UNIV UNIV s3 (snd (rotate_slot sv ss mgr na ma n slot g s))"
        using r m p Inr \<open>x = Inr t\<close> t
        by (auto simp: rotate_slot_def rotate_old_token_def Let_def intro!: lifecycle_intros)
      then obtain ys where "st_calls (snd (rotate_slot sv ss mgr na ma n slot g s))
          = (st_calls s0 @ calls_since s0 s2) @ (PatchSlot (sl_id slot) ?p, True) # ys"
        using io_eqD(5) [OF p] Inr within_extends [OF h2] by (auto dest: within_extends)
      then have "calls_since s0 (snd (rotate_slot sv ss mgr na ma n slot g s))
          = calls_since s0 s2 @ (PatchSlot (sl_id slot) ?p, True) # ys"
        by (intro calls_since_append) simp
      with c within_calls [OF h2] show ?thesis by blast
    qed
  qed
qed

lemma commit_revoked:
  "(\<forall>c\<in>fst ` set xs. \<not> deletes c) \<Longrightarrow> commits x \<Longrightarrow> revoked_after_commit b (xs @ x # ys)"
  by (simp add: revoked_append revoked_none) (auto simp: commits_def deletes_def split: upcall.splits)

text \<open>\<open>C19\<close>: a rotation never leaves the slot without a working credential by its own order: the old
  Nomad token is deleted only after the patch with the new secret and the new token has succeeded,
  whatever fails along the way.\<close>

theorem rotate_revokes_after_commit:
  "revoked_after_commit False (calls_since s (snd (handle_manage_rotate sv r s)))"
proof -
  have rot: "revoked_after_commit False
      (calls_since s (snd (rotate_slot sv ss mgr na ma (rq_slot r) slot g s2)))"
    if "harmless s s2" for ss mgr na ma slot g s2
    using rotate_commit_or_harmless [OF that, of sv ss mgr na ma "rq_slot r" slot g]
    by (elim disjE exE conjE) (auto intro: harmless_revoked commit_revoked)
  obtain x s1 where x: "find_managed sv (rq_slot r) s = (x, s1)" by force
  have s1: "harmless s s1" using x by (auto simp: deletes_def elim!: within_find_managed)
  have g: "harmless s s2" if "io_total (GroupName i) f s1 = (y, s2)" for i f s2 and y :: gostring
    using that s1 by (auto simp: deletes_def elim!: within_io_total)
  show ?thesis
    using s1 g by (auto simp: handle_manage_rotate_def x split: option.split sum.split prod.split
        intro: rot harmless_revoked)
qed

section \<open>What a suspension leaves behind\<close>

text \<open>The calls of a suspension that came through: it tried to disable the MinIO user and to delete the
  Nomad token, then set the state, and the very next call flushed the state cache.\<close>

definition cut_off ::
  "'w server \<Rightarrow> slot \<Rightarrow> gostring \<Rightarrow> (upcall \<times> bool) list \<Rightarrow> bool" where
  "cut_off sv slot n cs \<longleftrightarrow>
     (\<exists>xs ys. cs = xs @ (PatchSlot (sl_id slot) suspend_patch, True)
                     # (InvalidateState (minio_user slot n), True) # ys
        \<and> (up_minio_admin (sv_up sv) = None \<or> SetEnabled (minio_user slot n) False \<in> fst ` set xs)
        \<and> (up_nomad_admin (sv_up sv) = None \<or> slot_accessor slot = []
           \<or> DeleteToken (slot_accessor slot) \<in> fst ` set xs))"

lemma within_calls_mono: "within C L s s' \<Longrightarrow> set (st_calls s) \<subseteq> set (st_calls s')"
  by (auto simp: within_def)

lemma suspend_parts_calls:
  "up_minio_admin (sv_up sv) = None
     \<or> SetEnabled u False \<in> fst ` set (calls_since s (suspend_token sv slot (suspend_minio sv u s)))"
  "up_nomad_admin (sv_up sv) = None \<or> slot_accessor slot = []
     \<or> DeleteToken (slot_accessor slot)
        \<in> fst ` set (calls_since s (suspend_token sv slot (suspend_minio sv u s)))"
  by (auto simp: suspend_token_def suspend_minio_def Let_def calls_since_def io_simps
      split: option.split)

lemma suspend_slot_outcome:
  "if rs_status (fst (suspend_slot sv mgr n slot s)) = 200
   then cut_off sv slot n (calls_since s (snd (suspend_slot sv mgr n slot s)))
   else \<forall>i p. (PatchSlot i p, True) \<notin> set (calls_since s (snd (suspend_slot sv mgr n slot s)))"
proof -
  let ?u = "minio_user slot n"
  define s1 where "s1 = suspend_token sv slot (suspend_minio sv ?u s)"
  define s2 where "s2 = log_failure ''suspend.creds_remove_failed'' [AStr ''slot'' n]
      (remove_creds_files sv n s1)"
  obtain x s3 where p: "io (PatchSlot (sl_id slot) suspend_patch)
      (sm_patch_slot mgr (sl_id slot) suspend_patch) s2 = (x, s3)" by force
  let ?C = "{c. \<forall>i p. c \<noteq> PatchSlot i p}"
  have w1: "within ?C UNIV s s1" by (auto simp: s1_def intro: within_suspend_parts)
  have w2: "within ?C UNIV s1 s2" by (auto simp: s2_def intro!: lifecycle_intros)
  have c: "st_calls s3 = st_calls s @ (calls_since s s1 @ calls_since s1 s2)
      @ [(PatchSlot (sl_id slot) suspend_patch, is_ok x)]"
    using io_eqD(5) [OF p] within_extends [OF w1] within_extends [OF w2] by simp
  have h: "suspend_slot sv mgr n slot s = (case x of
      Inl e \<Rightarrow> (err_json 500 ''patch_failed'', log_at L1 ''suspend.pb_patch_failed''
             [AStr ''slot'' n, AStr ''error'' (error_text e)] s3)
    | Inr _ \<Rightarrow> (ok_true, log_at L1 ''manage.suspend.ok'' [AStr ''slot'' n]
             (stop_server sv ''suspend.jh_stop_failed'' n (invalidate mgr ?u s3))))"
    by (simp add: suspend_slot_def Let_def s1_def [symmetric] s2_def [symmetric] p split: sum.split)
  show ?thesis
  proof (cases x)
    case (Inl e)
    then have "calls_since s (snd (suspend_slot sv mgr n slot s))
        = (calls_since s s1 @ calls_since s1 s2) @ [(PatchSlot (sl_id slot) suspend_patch, False)]"
      using c by (intro calls_since_append) (simp add: h)
    with Inl within_calls [OF w1] within_calls [OF w2] show ?thesis by (fastforce simp: h)
  next
    case (Inr u)
    let ?t = "stop_server sv ''suspend.jh_stop_failed'' n (invalidate mgr ?u s3)"
    have "within UNIV UNIV (invalidate mgr ?u s3) ?t" by (auto intro: within_stop_server)
    then have t: "st_calls ?t = st_calls (invalidate mgr ?u s3) @ calls_since (invalidate mgr ?u s3) ?t"
      by (rule within_extends)
    have "calls_since s (snd (suspend_slot sv mgr n slot s))
        = (calls_since s s1 @ calls_since s1 s2) @ (PatchSlot (sl_id slot) suspend_patch, True)
          # (InvalidateState ?u, True) # calls_since (invalidate mgr ?u s3) ?t"
      using c t Inr by (intro calls_since_append) (simp add: h invalidate_def io_simps)
    with suspend_parts_calls [where sv = sv and u = ?u and s = s and slot = slot] have "cut_off sv slot n
        (calls_since s (snd (suspend_slot sv mgr n slot s)))"
      unfolding cut_off_def s1_def [symmetric]
      by (intro exI [of _ "calls_since s s1 @ calls_since s1 s2"]
          exI [of _ "calls_since (invalidate mgr ?u s3) ?t"]) auto
    with Inr show ?thesis by (simp add: h ok_true_def)
  qed
qed

lemma cut_off_prefix: "cut_off sv slot n cs \<Longrightarrow> cut_off sv slot n (ds @ cs)"
  unfolding cut_off_def by (elim exE conjE, rule_tac x = "ds @ xs" in exI) auto

text \<open>\<open>C20\<close>: \<^verbatim>\<open>POST /manage/slots/{slot}/suspend\<close> answers 200 only for a claimed slot, and
  then it has tried to disable the MinIO user and to delete the recorded Nomad token before it
  marked the slot suspended, and has flushed the state cache right after; on any other answer no
  patch of the store has succeeded.\<close>

theorem suspend_cuts_off:
  "if rs_status (fst (handle_manage_suspend sv r s)) = 200
   then \<exists>slot. found_slot sv r s = Some slot \<and> sl_state slot = ''claimed''
        \<and> cut_off sv slot (rq_slot r) (calls_since s (snd (handle_manage_suspend sv r s)))
   else \<forall>i p. (PatchSlot i p, True) \<notin> set (calls_since s (snd (handle_manage_suspend sv r s)))"
proof -
  let ?C = "{c. \<forall>i p. c \<noteq> PatchSlot i p}"
  have none: "\<forall>i p. (PatchSlot i p, True) \<notin> set (calls_since s s')" if "within ?C UNIV s s'" for s'
    using within_calls [OF that] by fastforce
  obtain x s1 where x: "find_managed sv (rq_slot r) s = (x, s1)" by force
  have s1: "within ?C UNIV s s1" using x by (auto elim!: within_find_managed)
  show ?thesis
  proof (cases "\<exists>ss mgr slot. x = Inr (ss, mgr, slot) \<and> sl_state slot = ''claimed''
      \<and> operator_ok sv r \<and> rq_slot r \<noteq> []")
    case True
    then obtain ss mgr slot where y: "x = Inr (ss, mgr, slot)" "sl_state slot = ''claimed''"
      "operator_ok sv r" "rq_slot r \<noteq> []" by blast
    have h: "handle_manage_suspend sv r s = suspend_slot sv mgr (rq_slot r) slot s1"
      using x y by (simp add: handle_manage_suspend_def require_operator_iff)
    have f: "found_slot sv r s = Some slot" using x y by (simp add: found_slot_def)
    have "within UNIV UNIV s1 (snd (suspend_slot sv mgr (rq_slot r) slot s1))"
      by (auto simp: suspend_slot_def Let_def split: prod.split sum.split
          intro!: lifecycle_intros elim!: lifecycle_elims)
    then have c: "calls_since s (snd (suspend_slot sv mgr (rq_slot r) slot s1))
        = calls_since s s1 @ calls_since s1 (snd (suspend_slot sv mgr (rq_slot r) slot s1))"
      using within_extends [OF s1] by (intro calls_since_append) (simp add: within_extends)
    show ?thesis
      using suspend_slot_outcome [of sv mgr "rq_slot r" slot s1] none [OF s1] f y(2)
      unfolding h c by (auto intro: cut_off_prefix split: if_splits)
  next
    case False
    with x s1 find_managed_error(1) [of sv "rq_slot r" s]
    have "rs_status (fst (handle_manage_suspend sv r s)) \<noteq> 200
        \<and> within ?C UNIV s (snd (handle_manage_suspend sv r s))"
      by (auto simp: handle_manage_suspend_def require_operator_iff split: sum.split prod.split)
    with none show ?thesis by auto
  qed
qed

section \<open>What a reactivation does not do\<close>

definition keeps_config :: "upcall \<Rightarrow> bool" where
  "keeps_config c \<longleftrightarrow>
     (case c of
        PatchSlot i p \<Rightarrow> map_of p ''config_yaml'' = None \<and> map_of p ''nomad_token_secret'' \<noteq> None
      | GetSlot i \<Rightarrow> False
      | _ \<Rightarrow> True)"

lemma keeps_config_calls:
  "keeps_config (FindSlot q)" "keeps_config (GroupName i)" "keeps_config (GetRoleID q)"
  "keeps_config (SetEnabled u b)" "keeps_config (RotateSecret u)" "keeps_config (CreateToken t q)"
  "keeps_config (InvalidateState u)" "keeps_config (PatchSlot i (reactivate_patch s a t))"
  by (simp_all add: keeps_config_def reactivate_patch_def creds_patch_def)

lemma keeps_config_file: "file_call c \<Longrightarrow> keeps_config c"
  by (cases c) (simp_all add: keeps_config_def)

text \<open>A reactivation writes new credentials into the slot but never its rendered
  configuration: no patch it attempts has a \<^verbatim>\<open>config_yaml\<close> field, and it never reads the
  slot back to render it. The configuration served after it is the one from before the suspension.\<close>

lemma reactivate_keeps_config:
  "fst ` set (calls_since s (snd (handle_manage_reactivate sv r s))) \<subseteq> {c. keeps_config c}"
proof -
  let ?C = "{c. keeps_config c}"
  obtain x s1 where x: "find_managed sv (rq_slot r) s = (x, s1)" by force
  have s1: "within ?C UNIV s s1" using x by (auto simp: keeps_config_calls elim!: within_find_managed)
  have "within ?C UNIV s (snd (handle_manage_reactivate sv r s))"
    using s1 keeps_config_file
    by (auto simp: handle_manage_reactivate_def reactivate_slot_def x Let_def keeps_config_calls
        split: option.split sum.split prod.split
        intro!: lifecycle_intros elim!: lifecycle_elims)
  then show ?thesis by (rule within_calls)
qed

end
