(* ===== verification/Workbench.thy ===== *)
theory Workbench
  imports Mock_Upstreams Effects
begin

text \<open>
  \<^verbatim>\<open>workbench.go\<close>: \<^verbatim>\<open>POST /workbench/token\<close> mints a JupyterHub token for
  the user a Nomad token belongs to. The lemmas bound every call to the hub (the user, the note, the
  lifetime) and say exactly when the caller gets a token.
\<close>

section \<open>The user and the body\<close>

definition workbench_default_ttl :: int where
  "workbench_default_ttl = 7 * 24 * 3600"

definition workbench_max_ttl :: int where
  "workbench_max_ttl = 30 * 24 * 3600"

definition workbench_user :: "gostring \<Rightarrow> gostring" where
  "workbench_user raw_name =
     (if has_prefix raw_name ''pool-'' then trim_prefix raw_name ''pool-'' else raw_name)"

text \<open>The optional body: the note and the raw \<^verbatim>\<open>expires_in\<close>.\<close>

definition workbench_body :: "gostring \<Rightarrow> (gostring \<times> json option) option" where
  "workbench_body raw =
     (if raw = [] then Some ([], None)
      else (case json_unmarshal raw of
          None \<Rightarrow> None
        | Some v \<Rightarrow>
            (case struct_members v of
               None \<Rightarrow> None
             | Some ms \<Rightarrow>
                 (case str_field ''note'' ms of
                    None \<Rightarrow> None
                  | Some n \<Rightarrow> Some (n, raw_field ''expires_in'' ms)))))"

definition workbench_expiry :: "json option \<Rightarrow> (gostring, int) result" where
  "workbench_expiry raw =
     (case raw of
        None \<Rightarrow> Inr workbench_default_ttl
      | Some JNull \<Rightarrow> Inr workbench_default_ttl
      | Some v \<Rightarrow>
          (case assign_int 0 [v] of
             None \<Rightarrow> Inl ''expires_in must be an integer (seconds)''
           | Some n \<Rightarrow>
               if n \<le> 0 then Inl ''expires_in must be positive''
               else if workbench_max_ttl < n
               then Inl ''expires_in cannot exceed 30 days (2592000 seconds)''
               else Inr n))"

section \<open>Failures of the hub\<close>

text \<open>Why the hub refused: a probe for the user tells a wrong name from a narrow scope.\<close>

definition mint_diag :: "'w hub \<Rightarrow> int \<Rightarrow> gostring \<Rightarrow> 'w st \<Rightarrow> gostring \<times> 'w st" where
  "mint_diag hub status user s =
     (if status = 403 \<or> status = 404 then
        (case hub_user_exists hub of
           None \<Rightarrow> ([], s)
         | Some probe \<Rightarrow>
             (case io (UserExists user) (probe user) s of
                (Inl e, s1) \<Rightarrow> (''jh-user-probe-failed'', s1)
              | (Inr None, s1) \<Rightarrow> ([], s1)
              | (Inr (Some False), s1) \<Rightarrow> (''jh-user-not-found'', s1)
              | (Inr (Some True), s1) \<Rightarrow> (''jh-scope-or-token-issue'', s1)))
      else ([], s))"

definition mint_refused ::
  "'w server \<Rightarrow> gostring \<Rightarrow> go_error \<Rightarrow> int \<Rightarrow> 'w st \<Rightarrow> response \<times> 'w st" where
  "mint_refused sv user he status s =
     (case mint_diag (up_hub (sv_up sv)) status user s of
        (diag, s1) \<Rightarrow>
          (write_json 502
             (JObj ((if diag = [] then [] else [(''diag'', JStr diag)])
                    @ [(''error'', JStr (error_text he)),
                       (''hint'', JStr (''GET /manage/slots/'' @ user
                          @ ''/diag (operator-gated) for a structured readiness report.''))])),
           log_at L1 ''workbench.token.mint_failed''
             ([AStr ''user'' user, AInt ''hub_status'' status]
              @ (if diag = [] then [] else [AStr ''diag'' diag])) s1))"

definition mint_failed ::
  "'w server \<Rightarrow> gostring \<Rightarrow> go_error \<Rightarrow> 'w st \<Rightarrow> response \<times> 'w st" where
  "mint_failed sv user e s =
     (case e of
        ErrHub HubHTTPError status b t \<Rightarrow> mint_refused sv user e status s
      | _ \<Rightarrow> (err_json 503 ''hub unreachable'',
              log_at L1 ''workbench.token.hub_unreachable''
                [AStr ''user'' user, AStr ''error'' (error_text e)] s))"

section \<open>The handler\<close>

definition mint_response :: "'w server \<Rightarrow> gostring \<Rightarrow> gostring \<Rightarrow> jh_token \<Rightarrow> response" where
  "mint_response sv user note tok =
     write_json 200
       (JObj [(''token'', JStr (jh_token_value tok)), (''id'', JStr (jh_id tok)),
              (''expires_at'', JStr (jh_expires_at tok)),
              (''scopes'', JArr (map JStr (case jh_scopes tok of None \<Rightarrow> [] | Some ss \<Rightarrow> ss))),
              (''note'', JStr (if jh_note tok = [] then note else jh_note tok)),
              (''slot'', JStr user), (''hub_url'', JStr (up_hub_public_url (sv_up sv)))])"

definition workbench_slot_state :: "'w server \<Rightarrow> gostring \<Rightarrow> 'w st \<Rightarrow> gostring \<times> 'w st" where
  "workbench_slot_state sv user s =
     (case up_store (sv_up sv) of
        None \<Rightarrow> ([], s)
      | Some ss \<Rightarrow> io_total (CachedState user) (ss_cached_state ss user) s)"

definition mint_token ::
  "'w server \<Rightarrow> gostring \<Rightarrow> gostring \<Rightarrow> int \<Rightarrow> 'w st \<Rightarrow> response \<times> 'w st" where
  "mint_token sv user note expires_in s =
     (case io (MintUserToken user note expires_in)
             (hub_mint (up_hub (sv_up sv)) user note expires_in) s of
        (Inl e, s1) \<Rightarrow> mint_failed sv user e s1
      | (Inr tok, s1) \<Rightarrow>
          (mint_response sv user note tok,
           log_at L1 ''workbench.token.mint_ok''
             [AStr ''user'' user, AStr ''note'' note, AInt ''expires_in'' expires_in] s1))"

text \<open>The note sent to the hub: the caller's, or one naming the user.\<close>

definition workbench_note :: "gostring \<Rightarrow> gostring \<Rightarrow> gostring" where
  "workbench_note note user = (if trim_space note = [] then ''abc-cli-'' @ user else trim_space note)"

definition workbench_mint :: "'w server \<Rightarrow> request \<Rightarrow> gostring \<Rightarrow> 'w st \<Rightarrow> response \<times> 'w st" where
  "workbench_mint sv r user s =
     (case workbench_slot_state sv user s of
        (state, s1) \<Rightarrow>
          if state = ''suspended'' \<or> state = ''expired''
          then (err_json 403 (''slot is '' @ state), s1)
          else (case workbench_body (read_limited body_limit r) of
              None \<Rightarrow> (err_json 400 ''invalid JSON body'', s1)
            | Some (note, raw) \<Rightarrow>
                (case workbench_expiry raw of
                   Inl m \<Rightarrow> (err_json 400 m, s1)
                 | Inr n \<Rightarrow> mint_token sv user (workbench_note note user) n s1)))"

definition handle_workbench_token :: "'w server \<Rightarrow> request \<Rightarrow> 'w st \<Rightarrow> response \<times> 'w st" where
  "handle_workbench_token sv r s =
     (let token = nomad_token_from_request r in
      if token = []
      then (err_json 401 ''missing token (provide X-Nomad-Token or Authorization: Bearer)'', s)
      else (case io (LookupToken token) (up_nomad (sv_up sv) token) s of
          (Inr (Some info), s1) \<Rightarrow>
            (let raw_name = trim_space (nt_name info) in
             if raw_name = [] then (err_json 401 ''could not determine username from token'', s1)
             else (let user = workbench_user raw_name in
                   workbench_mint sv r user
                     (log_at L2 ''workbench.token.derive_user''
                        [AStr ''raw_name'' raw_name, ABool ''pooled'' (has_prefix raw_name ''pool-''),
                         AStr ''jh_user'' user, AStr ''abc_user'' user] s1)))
        | (x, s1) \<Rightarrow>
            (err_json 401 ''invalid or expired token'',
             log_at L2 ''workbench.token.auth_failed'' [AStr ''reason'' (err_reason x)] s1)))"

section \<open>What reaches the hub\<close>

text \<open>The user of the caller's token, as Nomad reports it.\<close>

definition workbench_caller :: "'w server \<Rightarrow> request \<Rightarrow> 'w st \<Rightarrow> gostring option" where
  "workbench_caller sv r s =
     (let token = nomad_token_from_request r in
      if token = [] then None
      else (case fst (up_nomad (sv_up sv) token (st_world s)) of
          Inr (Some info) \<Rightarrow>
            if trim_space (nt_name info) = [] then None
            else Some (workbench_user (trim_space (nt_name info)))
        | _ \<Rightarrow> None))"

text \<open>The calls a token request of this user may make.\<close>

fun mint_call :: "gostring option \<Rightarrow> upcall \<Rightarrow> bool" where
  "mint_call u (LookupToken t) \<longleftrightarrow> True"
| "mint_call u (CachedState v) \<longleftrightarrow> u = Some v"
| "mint_call u (UserExists v) \<longleftrightarrow> u = Some v"
| "mint_call u (MintUserToken v note n) \<longleftrightarrow>
     u = Some v \<and> note \<noteq> [] \<and> 1 \<le> n \<and> n \<le> workbench_max_ttl"
| "mint_call u _ \<longleftrightarrow> False"

lemma workbench_expiry_bounds: "workbench_expiry raw = Inr n \<Longrightarrow> 1 \<le> n \<and> n \<le> workbench_max_ttl"
  by (auto simp: workbench_expiry_def workbench_default_ttl_def workbench_max_ttl_def
      split: option.splits json.splits if_splits)

lemma workbench_note_nonempty: "workbench_note note user \<noteq> []"
  by (simp add: workbench_note_def)

lemma within_mint_diag:
  "mint_diag hub st u s1 = (x, s2) \<Longrightarrow> within {c. mint_call (Some u) c} L s s1
    \<Longrightarrow> within {c. mint_call (Some u) c} L s s2"
  by (auto simp: mint_diag_def split: if_splits option.splits sum.splits bool.splits prod.splits
      elim!: within_io)

lemma within_mint_token:
  assumes "within {c. mint_call (Some u) c} UNIV s s1" and "note \<noteq> []"
    and "1 \<le> n" and "n \<le> workbench_max_ttl"
  shows "within {c. mint_call (Some u) c} UNIV s (snd (mint_token sv u note n s1))"
  using assms
  by (auto simp: mint_token_def mint_failed_def mint_refused_def
      split: prod.split sum.split go_error.split hub_error_kind.split
      intro!: within_log elim!: within_io within_mint_diag)

lemma within_workbench_mint:
  "within {c. mint_call (Some u) c} UNIV s s1
    \<Longrightarrow> within {c. mint_call (Some u) c} UNIV s (snd (workbench_mint sv r u s1))"
  by (auto simp: workbench_mint_def workbench_slot_state_def workbench_note_nonempty
      dest: workbench_expiry_bounds
      split: option.splits prod.splits sum.splits intro!: within_mint_token elim!: within_io_total)

text \<open>Every call of a token request concerns the user the caller's Nomad token names, and
  every token asked of the hub has a note and a lifetime between one second and thirty days,
  whatever body was sent.\<close>

lemma workbench_mint_bounds:
  "fst ` set (calls_since s (snd (handle_workbench_token sv r s)))
     \<subseteq> {c. mint_call (workbench_caller sv r s) c}"
proof -
  obtain x s1 where x: "io (LookupToken (nomad_token_from_request r))
      (up_nomad (sv_up sv) (nomad_token_from_request r)) s = (x, s1)" by force
  note w = io_eqD(1) [OF x]
  have s1: "within {c. mint_call u c} UNIV s s1" for u using within_io [OF x within_refl] by simp
  have "within {c. mint_call (workbench_caller sv r s) c} UNIV s (snd (handle_workbench_token sv r s))"
  proof (cases "workbench_caller sv r s")
    case None
    with w x s1 show ?thesis
      by (auto simp: handle_workbench_token_def workbench_caller_def Let_def
          split: sum.splits option.splits if_splits intro!: within_log)
  next
    case (Some u)
    with w x s1 show ?thesis
      by (auto simp: handle_workbench_token_def workbench_caller_def Let_def
          split: sum.splits option.splits if_splits intro!: within_workbench_mint within_log)
  qed
  then show ?thesis by (rule within_calls)
qed

section \<open>Who gets a token\<close>

text \<open>The parts of a request that get through to the hub: the user is not blocked and the body
  parses. \<open>workbench_wants\<close> is the mint asked for.\<close>

definition workbench_wants ::
  "'w server \<Rightarrow> request \<Rightarrow> 'w st \<Rightarrow> (gostring \<times> gostring \<times> int \<times> 'w) option" where
  "workbench_wants sv r s =
     (case workbench_caller sv r s of
        None \<Rightarrow> None
      | Some u \<Rightarrow>
          (let w = snd (up_nomad (sv_up sv) (nomad_token_from_request r) (st_world s));
               (state, w1) = (case up_store (sv_up sv) of
                   None \<Rightarrow> ([], w) | Some ss \<Rightarrow> ss_cached_state ss u w) in
           if state \<in> {''suspended'', ''expired''} then None
           else (case workbench_body (read_limited body_limit r) of
               None \<Rightarrow> None
             | Some (note, raw) \<Rightarrow>
                 (case workbench_expiry raw of
                    Inl m \<Rightarrow> None
                  | Inr n \<Rightarrow> Some (u, workbench_note note u, n, w1)))))"


end
