(* ===== verification/Http_Client.thy ===== *)
theory Http_Client
  imports Upstreams
begin

text \<open>
  \<^verbatim>\<open>net/http\<close> as the upstream clients use it. A client is the transport, a parameter, and
  what building a request reports for a URL; a reply is read as far as the connection gives it.
  Below are the pieces of \<^verbatim>\<open>encoding/json\<close> that only the clients use: the streaming
  decoder, which reads one value and ignores what follows, and marshalling a map, whose keys are
  sorted.
\<close>

section \<open>Requests and replies\<close>

record http_request =
  hq_method :: gostring
  hq_url :: gostring
  hq_headers :: "(gostring \<times> gostring) list"
  hq_body :: "gostring option"

record http_reply =
  hr_status :: int
  hr_cookies :: "(gostring \<times> gostring) list"
  hr_body :: gostring

text \<open>\<open>hc_new\<close> is the error \<^verbatim>\<open>http.NewRequest\<close> reports for a URL, \<open>hc_do\<close> is
  \<^verbatim>\<open>Client.Do\<close> with the body read, \<open>hc_json_error\<close> the error that decoding a text
  reports.\<close>

record 'w http_client =
  hc_new :: "gostring \<Rightarrow> go_error option"
  hc_do :: "http_request \<Rightarrow> ('w, http_reply) call"
  hc_json_error :: "gostring \<Rightarrow> go_error"

definition http_call :: "'w http_client \<Rightarrow> http_request \<Rightarrow> ('w, http_reply) call" where
  "http_call h rq w =
     (case hc_new h (hq_url rq) of Some e \<Rightarrow> (Inl e, w) | None \<Rightarrow> hc_do h rq w)"

definition status_ok :: "int \<Rightarrow> bool" where
  "status_ok st \<longleftrightarrow> 200 \<le> st \<and> st < 300"

definition trim_slashes :: "gostring \<Rightarrow> gostring" where
  "trim_slashes s = rev (dropWhile (\<lambda>c. c = CHR ''/'') (rev s))"

section \<open>Decoding and encoding\<close>

definition json_decode_first :: "gostring \<Rightarrow> json option" where
  "json_decode_first s = map_option fst (parse_value (2 * length s + 2) max_depth s)"

definition struct_of :: "'w http_client \<Rightarrow> gostring \<Rightarrow> json option
    \<Rightarrow> (go_error, (gostring \<times> json) list) result" where
  "struct_of h t v =
     (case Option.bind v struct_members of None \<Rightarrow> Inl (hc_json_error h t) | Some ms \<Rightarrow> Inr ms)"

definition marshal_map :: "(gostring \<times> json) list \<Rightarrow> gostring" where
  "marshal_map ms = json_encode (JObj (sort_key fst ms))"

text \<open>Several \<^verbatim>\<open>string\<close> fields of a struct at once.\<close>

definition str_fields :: "gostring list \<Rightarrow> (gostring \<times> json) list \<Rightarrow> gostring list option" where
  "str_fields names ms = those (map (\<lambda>n. str_field n ms) names)"

text \<open>A slice field: each element decoded in turn. A JSON object the upstreams send has no key
  twice.\<close>

fun assign_list :: "(json \<Rightarrow> 'a option) \<Rightarrow> 'a list \<Rightarrow> json list \<Rightarrow> 'a list option" where
  "assign_list f cur [] = Some cur"
| "assign_list f cur (JArr js # vs) =
     (case those (map f js) of None \<Rightarrow> None | Some xs \<Rightarrow> assign_list f xs vs)"
| "assign_list f cur (JNull # vs) = assign_list f [] vs"
| "assign_list f cur (v # vs) = None"

definition list_field :: "(json \<Rightarrow> 'a option) \<Rightarrow> gostring \<Rightarrow> (gostring \<times> json) list \<Rightarrow> 'a list option" where
  "list_field f name ms = assign_list f [] (field_values name ms)"

definition json_string :: "json \<Rightarrow> gostring option" where
  "json_string v = assign_str [] [v]"

lemma str_fields_length: "str_fields ns ms = Some xs \<Longrightarrow> length xs = length ns"
  by (induction ns arbitrary: xs) (auto simp: str_fields_def split: option.splits)

end
