(* ===== verification/Upstream_Clients.thy ===== *)
theory Upstream_Clients
  imports Http_Client
begin

text \<open>
  The real clients of Nomad (\<^verbatim>\<open>nomad.go\<close>, \<^verbatim>\<open>nomad_admin.go\<close>), JupyterHub
  (\<^verbatim>\<open>jupyterhub.go\<close>) and MinIO (\<^verbatim>\<open>minio.go\<close>,
  \<^verbatim>\<open>minio_admin.go\<close>): which request each method sends and what it makes of the reply. The
  transport and the \<^verbatim>\<open>mcli\<close> process are parameters.
\<close>

section \<open>Nomad: who a token belongs to\<close>

record 'w nomad_client =
  nc_addr :: gostring
  nc_http :: "'w http_client"

definition role_of_json :: "json \<Rightarrow> nomad_role option" where
  "role_of_json v =
     Option.bind (struct_members v) (\<lambda>ms.
       case (str_field ''ID'' ms, str_field ''Name'' ms) of
         (Some i, Some n) \<Rightarrow> Some \<lparr>role_id = i, role_name = n\<rparr>
       | _ \<Rightarrow> None)"

definition token_self_of :: "(gostring \<times> json) list \<Rightarrow> nomad_token_self option" where
  "token_self_of ms =
     (case (str_field ''Name'' ms, str_field ''Type'' ms, str_field ''Namespace'' ms,
            list_field json_string ''Policies'' ms, list_field role_of_json ''Roles'' ms) of
        (Some n, Some t, Some ns, Some ps, Some rs) \<Rightarrow>
          Some \<lparr>nt_name = n, nt_type = t, nt_namespace = ns, nt_policies = ps, nt_roles = rs\<rparr>
      | _ \<Rightarrow> None)"

definition token_self_request :: "'w nomad_client \<Rightarrow> gostring \<Rightarrow> http_request" where
  "token_self_request c token =
     \<lparr>hq_method = ''GET'', hq_url = trim_slashes (nc_addr c) @ ''/v1/acl/token/self'',
      hq_headers = [(''X-Nomad-Token'', token)], hq_body = None\<rparr>"

definition lookup_token_self :: "'w nomad_client \<Rightarrow> gostring \<Rightarrow> ('w, nomad_token_self option) call" where
  "lookup_token_self c token w =
     (if trim_space token = [] then (Inl ErrInvalidToken, w)
      else (case http_call (nc_http c) (token_self_request c token) w of
          (Inl e, w1) \<Rightarrow> (Inl e, w1)
        | (Inr rep, w1) \<Rightarrow>
            if hr_status rep \<noteq> 200 then (Inl ErrInvalidToken, w1)
            else (case struct_of (nc_http c) (hr_body rep) (json_decode_first (hr_body rep)) of
                Inl e \<Rightarrow> (Inl e, w1)
              | Inr ms \<Rightarrow>
                  (case token_self_of ms of
                     None \<Rightarrow> (Inl (hc_json_error (nc_http c) (hr_body rep)), w1)
                   | Some info \<Rightarrow> (Inr (Some info), w1)))))"

section \<open>Nomad: variables and tokens\<close>

record 'w admin_client =
  ac_nomad :: "'w nomad_client"
  ac_token :: gostring

definition admin_do ::
  "'w admin_client \<Rightarrow> gostring \<Rightarrow> gostring \<Rightarrow> gostring option \<Rightarrow> ('w, gostring \<times> int) call" where
  "admin_do c meth path bdy w =
     (case http_call (nc_http (ac_nomad c))
             \<lparr>hq_method = meth, hq_url = trim_slashes (nc_addr (ac_nomad c)) @ path,
              hq_headers = (''X-Nomad-Token'', ac_token c)
                # (if bdy = None then [] else [(''Content-Type'', ''application/json'')]),
              hq_body = bdy\<rparr> w of
        (Inl e, w1) \<Rightarrow> (Inl e, w1)
      | (Inr rep, w1) \<Rightarrow> (Inr (take 1048576 (hr_body rep), hr_status rep), w1))"

definition http_failure :: "gostring \<Rightarrow> int \<Rightarrow> go_error" where
  "http_failure what st = ErrText (what @ '': HTTP '' @ itoa st)"

text \<open>A \<^verbatim>\<open>map[string]string\<close>: a \<open>null\<close> member is the empty string.\<close>

definition string_member :: "gostring \<times> json \<Rightarrow> (gostring \<times> gostring) option" where
  "string_member m = map_option (Pair (fst m)) (json_string (snd m))"

fun assign_map :: "(gostring \<times> gostring) list \<Rightarrow> json list \<Rightarrow> (gostring \<times> gostring) list option" where
  "assign_map cur [] = Some cur"
| "assign_map cur (JObj ms # vs) =
     (case those (map string_member ms) of None \<Rightarrow> None | Some kvs \<Rightarrow> assign_map (cur @ kvs) vs)"
| "assign_map cur (JNull # vs) = assign_map [] vs"
| "assign_map cur (v # vs) = None"

definition var_items :: "gostring \<Rightarrow> (gostring \<times> gostring) list option" where
  "var_items rb =
     Option.bind (json_unmarshal rb)
       (\<lambda>v. Option.bind (struct_members v) (\<lambda>ms. assign_map [] (field_values ''Items'' ms)))"

definition var_path :: "gostring \<Rightarrow> gostring \<Rightarrow> gostring" where
  "var_path ns path = ''/v1/var/'' @ path_escape path @ ''?namespace='' @ query_escape ns"

definition var_get :: "'w admin_client \<Rightarrow> gostring \<Rightarrow> gostring \<Rightarrow> ('w, gostring) call" where
  "var_get c ns path w =
     (case admin_do c ''GET'' (var_path ns path) None w of
        (Inl e, w1) \<Rightarrow> (Inl e, w1)
      | (Inr (rb, st), w1) \<Rightarrow>
          if st = 404 then (Inl ErrVarNotFound, w1)
          else if \<not> status_ok st then (Inl (http_failure ''nomad var get'' st), w1)
          else (case var_items rb of
              None \<Rightarrow> (Inl (hc_json_error (nc_http (ac_nomad c)) rb), w1)
            | Some kvs \<Rightarrow>
                (case map_of (rev kvs) ''value'' of
                   None \<Rightarrow> (Inl ErrVarNotFound, w1)
                 | Some v \<Rightarrow> (Inr v, w1))))"

definition var_body :: "gostring \<Rightarrow> gostring \<Rightarrow> gostring \<Rightarrow> gostring" where
  "var_body ns path v =
     json_encode (JObj [(''Path'', JStr path), (''Namespace'', JStr ns),
                        (''Items'', JObj [(''value'', JStr v)])])"

definition var_put :: "'w admin_client \<Rightarrow> gostring \<Rightarrow> gostring \<Rightarrow> gostring \<Rightarrow> ('w, unit) call" where
  "var_put c ns path v w =
     (case admin_do c ''PUT'' (var_path ns path) (Some (var_body ns path v)) w of
        (Inl e, w1) \<Rightarrow> (Inl e, w1)
      | (Inr (rb, st), w1) \<Rightarrow>
          if \<not> status_ok st then (Inl (http_failure ''nomad var put'' st), w1) else (Inr (), w1))"

definition token_create_body :: "gostring \<Rightarrow> gostring \<Rightarrow> gostring" where
  "token_create_body slot_name role =
     marshal_map [(''Name'', JStr (''pool-'' @ slot_name)), (''Type'', JStr ''client''),
       (''Policies'', JArr []),
       (''Roles'', JArr (if role = [] then [] else [JObj [(''ID'', JStr role)]]))]"

definition create_token :: "'w admin_client \<Rightarrow> gostring \<Rightarrow> gostring \<Rightarrow> ('w, gostring \<times> gostring) call" where
  "create_token c slot_name role w =
     (case admin_do c ''POST'' ''/v1/acl/token'' (Some (token_create_body slot_name role)) w of
        (Inl e, w1) \<Rightarrow> (Inl e, w1)
      | (Inr (rb, st), w1) \<Rightarrow>
          if \<not> status_ok st then (Inl (http_failure ''nomad token create'' st), w1)
          else (case Option.bind (json_unmarshal rb) (\<lambda>v. Option.bind (struct_members v)
                       (str_fields [''AccessorID'', ''SecretID''])) of
              Some [acc, sec] \<Rightarrow> (Inr (acc, sec), w1)
            | _ \<Rightarrow> (Inl (hc_json_error (nc_http (ac_nomad c)) rb), w1)))"

definition delete_token :: "'w admin_client \<Rightarrow> gostring \<Rightarrow> ('w, unit) call" where
  "delete_token c acc w =
     (if acc = [] then (Inr (), w)
      else (case admin_do c ''DELETE'' (''/v1/acl/token/'' @ path_escape acc) None w of
          (Inl e, w1) \<Rightarrow> (Inl e, w1)
        | (Inr (rb, st), w1) \<Rightarrow>
            if \<not> status_ok st then (Inl (http_failure ''nomad token delete'' st), w1)
            else (Inr (), w1)))"

fun role_named :: "gostring \<Rightarrow> nomad_role list \<Rightarrow> gostring" where
  "role_named n [] = []"
| "role_named n (r # rs) = (if role_name r = n then role_id r else role_named n rs)"

definition get_role_id :: "'w admin_client \<Rightarrow> gostring \<Rightarrow> ('w, gostring) call" where
  "get_role_id c n w =
     (case admin_do c ''GET'' ''/v1/acl/roles'' None w of
        (Inl e, w1) \<Rightarrow> (Inl e, w1)
      | (Inr (rb, st), w1) \<Rightarrow>
          if \<not> status_ok st then (Inl (http_failure ''nomad acl roles'' st), w1)
          else (case Option.bind (json_unmarshal rb) (\<lambda>v. assign_list role_of_json [] [v]) of
              None \<Rightarrow> (Inl (hc_json_error (nc_http (ac_nomad c)) rb), w1)
            | Some rs \<Rightarrow> (Inr (role_named n rs), w1)))"

definition nomad_admin_of :: "'w admin_client \<Rightarrow> 'w nomad_admin" where
  "nomad_admin_of c =
     \<lparr>na_var_get = var_get c, na_var_put = var_put c, na_create_token = create_token c,
      na_delete_token = delete_token c, na_get_role_id = get_role_id c\<rparr>"

section \<open>JupyterHub\<close>

record 'w hub_client =
  hc_api_url :: gostring
  hc_admin_token :: gostring
  hc_http :: "'w http_client"

definition no_hub_token :: gostring where
  "no_hub_token = ''JUPYTERHUB_API_TOKEN not configured''"

definition hub_user_url :: "'w hub_client \<Rightarrow> gostring \<Rightarrow> gostring" where
  "hub_user_url c user = trim_slashes (hc_api_url c) @ ''/users/'' @ path_escape user"

definition hub_authorization :: "'w hub_client \<Rightarrow> gostring \<times> gostring" where
  "hub_authorization c = (''Authorization'', ''token '' @ hc_admin_token c)"

definition mint_payload :: "gostring \<Rightarrow> int \<Rightarrow> gostring" where
  "mint_payload nt expires_in =
     marshal_map ((if nt = [] then [] else [(''note'', JStr nt)])
                  @ (if 0 < expires_in then [(''expires_in'', JNum (itoa expires_in))] else []))"

definition mint_http_request :: "'w hub_client \<Rightarrow> gostring \<Rightarrow> gostring \<Rightarrow> int \<Rightarrow> http_request" where
  "mint_http_request c user nt expires_in =
     \<lparr>hq_method = ''POST'', hq_url = hub_user_url c user @ ''/tokens'',
      hq_headers = [hub_authorization c, (''Content-Type'', ''application/json''),
                    (''Accept'', ''application/json'')],
      hq_body = Some (mint_payload nt expires_in)\<rparr>"

text \<open>A slice that stays \<open>nil\<close> when the field is absent or \<open>null\<close>.\<close>

definition opt_list_field ::
  "(json \<Rightarrow> 'a option) \<Rightarrow> gostring \<Rightarrow> (gostring \<times> json) list \<Rightarrow> 'a list option option" where
  "opt_list_field f name ms =
     (case field_values name ms of
        [] \<Rightarrow> Some None
      | v # vs \<Rightarrow> map_option (\<lambda>xs. if last (v # vs) = JNull then None else Some xs) (list_field f name ms))"

definition jh_token_of :: "(gostring \<times> json) list \<Rightarrow> jh_token option" where
  "jh_token_of ms =
     (case (str_field ''token'' ms, str_field ''id'' ms, str_field ''expires_at'' ms,
            opt_list_field json_string ''scopes'' ms, str_field ''note'' ms) of
        (Some t, Some i, Some x, Some ss, Some nt) \<Rightarrow>
          Some \<lparr>jh_token_value = t, jh_id = i, jh_expires_at = x, jh_scopes = ss, jh_note = nt\<rparr>
      | _ \<Rightarrow> None)"

definition mint_user_token ::
  "'w hub_client \<Rightarrow> gostring \<Rightarrow> gostring \<Rightarrow> int \<Rightarrow> ('w, jh_token) call" where
  "mint_user_token c user nt expires_in w =
     (if trim_space (hc_admin_token c) = [] then (Inl (ErrHub HubUnreachable 0 [] no_hub_token), w)
      else (case hc_new (hc_http c) (hub_user_url c user @ ''/tokens'') of
          Some e \<Rightarrow> (Inl e, w)
        | None \<Rightarrow>
            (case hc_do (hc_http c) (mint_http_request c user nt expires_in) w of
               (Inl e, w1) \<Rightarrow> (Inl (ErrHub HubUnreachable 0 [] (error_text e)), w1)
             | (Inr rep, w1) \<Rightarrow>
                 (let rb = take 1048576 (hr_body rep) in
                  if \<not> status_ok (hr_status rep)
                  then (Inl (ErrHub HubHTTPError (hr_status rep) rb []), w1)
                  else (case Option.bind (json_unmarshal rb)
                               (\<lambda>v. Option.bind (struct_members v) jh_token_of) of
                      None \<Rightarrow> (Inl (hc_json_error (hc_http c) rb), w1)
                    | Some t \<Rightarrow> (Inr t, w1))))))"

definition stop_user_server :: "'w hub_client \<Rightarrow> gostring \<Rightarrow> ('w, unit) call" where
  "stop_user_server c user w =
     (if trim_space (hc_admin_token c) = [] then (Inl (ErrText no_hub_token), w)
      else (case http_call (hc_http c)
               \<lparr>hq_method = ''DELETE'', hq_url = hub_user_url c user @ ''/server'',
                hq_headers = [hub_authorization c], hq_body = None\<rparr> w of
          (Inl e, w1) \<Rightarrow> (Inl e, w1)
        | (Inr rep, w1) \<Rightarrow>
            if hr_status rep \<in> {200, 202, 204, 404} then (Inr (), w1)
            else (Inl (http_failure ''jh stop-server'' (hr_status rep)), w1)))"

definition user_exists :: "'w hub_client \<Rightarrow> gostring \<Rightarrow> ('w, bool option) call" where
  "user_exists c user w =
     (if trim_space (hc_admin_token c) = [] then (Inl (ErrText no_hub_token), w)
      else (case http_call (hc_http c)
               \<lparr>hq_method = ''GET'', hq_url = hub_user_url c user,
                hq_headers = [hub_authorization c, (''Accept'', ''application/json'')],
                hq_body = None\<rparr> w of
          (Inl e, w1) \<Rightarrow> (Inl e, w1)
        | (Inr rep, w1) \<Rightarrow>
            if hr_status rep = 200 then (Inr (Some True), w1)
            else if hr_status rep = 404 then (Inr (Some False), w1)
            else (Inl (ErrText (''jh user probe HTTP '' @ itoa (hr_status rep))), w1)))"

definition hub_of :: "'w hub_client \<Rightarrow> 'w hub" where
  "hub_of c =
     \<lparr>hub_mint = mint_user_token c, hub_user_exists = Some (user_exists c),
      hub_stop_server = Some (stop_user_server c)\<rparr>"

section \<open>MinIO\<close>

record 'w console_validator =
  cv_url :: gostring
  cv_http :: "'w http_client"

definition console_request :: "'w console_validator \<Rightarrow> gostring \<Rightarrow> gostring \<Rightarrow> http_request" where
  "console_request c access secret =
     \<lparr>hq_method = ''POST'', hq_url = trim_slashes (cv_url c) @ ''/api/v1/login'',
      hq_headers = [(''Content-Type'', ''application/json'')],
      hq_body = Some (marshal_map [(''accessKey'', JStr access), (''secretKey'', JStr secret)])\<rparr>"

definition validate_credential :: "'w console_validator \<Rightarrow> gostring \<Rightarrow> gostring \<Rightarrow> ('w, bool) call" where
  "validate_credential c access secret w =
     (case http_call (cv_http c) (console_request c access secret) w of
        (Inl e, w1) \<Rightarrow> (Inl e, w1)
      | (Inr rep, w1) \<Rightarrow>
          if hr_status rep = 200 \<or> hr_status rep = 204 then (Inr True, w1)
          else if hr_status rep = 401 \<or> hr_status rep = 403 then (Inr False, w1)
          else (Inl (http_failure ''minio console login'' (hr_status rep)), w1))"

definition console_login :: "'w console_validator \<Rightarrow> gostring \<Rightarrow> gostring \<Rightarrow> ('w, gostring) call" where
  "console_login c access secret w =
     (case http_call (cv_http c) (console_request c access secret) w of
        (Inl e, w1) \<Rightarrow> (Inl e, w1)
      | (Inr rep, w1) \<Rightarrow>
          if hr_status rep = 200 \<or> hr_status rep = 204
          then (case find (\<lambda>(n, v). n = ''token'' \<and> v \<noteq> []) (hr_cookies rep) of
              Some (n, v) \<Rightarrow> (Inr v, w1)
            | None \<Rightarrow> (Inl (ErrText ''minio console login: no token cookie in 2xx response''), w1))
          else if hr_status rep = 401 \<or> hr_status rep = 403 then (Inr [], w1)
          else (Inl (http_failure ''minio console login'' (hr_status rep)), w1))"

definition minio_of :: "'w console_validator \<Rightarrow> 'w minio" where
  "minio_of c = \<lparr>mi_validate = validate_credential c, mi_console_login = Some (console_login c)\<rparr>"

text \<open>The \<^verbatim>\<open>mcli\<close> wrapper: \<open>mc_exec\<close> runs a program and gives its combined output and,
  if it failed, the error.\<close>

record 'w mc_admin =
  mc_binary :: gostring
  mc_alias :: gostring
  mc_exec :: "gostring \<Rightarrow> gostring list \<Rightarrow> 'w \<Rightarrow> (gostring \<times> gostring option) \<times> 'w"
  mc_rand :: "nat \<Rightarrow> ('w, gostring) call"

definition gen_secret :: "'w mc_admin \<Rightarrow> ('w, gostring) call" where
  "gen_secret m w =
     (case mc_rand m 32 w of (Inl e, w1) \<Rightarrow> (Inl e, w1) | (Inr b, w1) \<Rightarrow> (Inr (b64_rawurl_encode b), w1))"

definition mc_bin :: "'w mc_admin \<Rightarrow> gostring" where
  "mc_bin m = (if mc_binary m \<noteq> [] then mc_binary m else ''mcli'')"

definition mc_alias_name :: "'w mc_admin \<Rightarrow> gostring" where
  "mc_alias_name m = (if mc_alias m \<noteq> [] then mc_alias m else ''sdroot'')"

definition mc_failure :: "gostring \<Rightarrow> gostring \<Rightarrow> gostring \<Rightarrow> gostring \<Rightarrow> go_error" where
  "mc_failure action user err out =
     ErrText (''mcli admin user '' @ action @ '' '' @ user @ '': '' @ err @ '': '' @ trim_space out)"

definition rotate_secret :: "'w mc_admin \<Rightarrow> gostring \<Rightarrow> ('w, gostring) call" where
  "rotate_secret m user w =
     (case gen_secret m w of
        (Inl e, w1) \<Rightarrow> (Inl e, w1)
      | (Inr secret, w1) \<Rightarrow>
          (case mc_exec m (mc_bin m)
                  [''admin'', ''user'', ''add'', mc_alias_name m, user, secret] w1 of
             ((out, Some err), w2) \<Rightarrow> (Inl (mc_failure ''add'' user err out), w2)
           | ((out, None), w2) \<Rightarrow> (Inr secret, w2)))"

definition set_enabled :: "'w mc_admin \<Rightarrow> gostring \<Rightarrow> bool \<Rightarrow> ('w, unit) call" where
  "set_enabled m user enabled w =
     (let action = (if enabled then ''enable'' else ''disable'') in
      case mc_exec m (mc_bin m) [''admin'', ''user'', action, mc_alias_name m, user] w of
        ((out, Some err), w1) \<Rightarrow> (Inl (mc_failure action user err out), w1)
      | ((out, None), w1) \<Rightarrow> (Inr (), w1))"

definition minio_admin_of :: "'w mc_admin \<Rightarrow> 'w minio_admin" where
  "minio_admin_of m = \<lparr>ma_rotate_secret = rotate_secret m, ma_set_enabled = set_enabled m\<rparr>"

section \<open>The two console checks agree\<close>

text \<open>The browser login checks a credential by its status alone, the magic-link flow fetches
  the console's session for it. On the same answer of the console the two agree: the check fails with
  an error exactly when the fetch fails with the same one, it refuses exactly when the fetch returns
  no session, and where it accepts the fetch returns a session or reports that the console set
  none.\<close>

lemma console_checks_agree:
  "snd (console_login c a k w) = snd (validate_credential c a k w)
   \<and> (case fst (validate_credential c a k w) of
        Inl e \<Rightarrow> fst (console_login c a k w) = Inl e
      | Inr False \<Rightarrow> fst (console_login c a k w) = Inr []
      | Inr True \<Rightarrow> fst (console_login c a k w) \<in> Inr ` {t. t \<noteq> []}
          \<union> {Inl (ErrText ''minio console login: no token cookie in 2xx response'')})"
proof -
  obtain x w1 where x: "http_call (cv_http c) (console_request c a k) w = (x, w1)" by force
  show ?thesis
  proof (cases x)
    case (Inl e)
    with x show ?thesis by (simp add: console_login_def validate_credential_def)
  next
    case (Inr rep)
    let ?f = "find (\<lambda>(n, v). n = ''token'' \<and> v \<noteq> []) (hr_cookies rep)"
    have f: "v \<noteq> []" if "?f = Some (n, v)" for n v
      using that by (auto simp: find_Some_iff)
    with x Inr show ?thesis
      by (cases ?f) (auto simp: console_login_def validate_credential_def)
  qed
qed

end
