(* ===== verification/Pocketbase.thy ===== *)
theory Pocketbase
  imports Http_Client
begin

text \<open>
  \<^verbatim>\<open>pocketbase.go\<close> and \<^verbatim>\<open>pocketbase_kek.go\<close>: the PocketBase client behind
  \<^verbatim>\<open>SlotStore\<close>, \<^verbatim>\<open>SlotManager\<close> and \<^verbatim>\<open>KeyStore\<close>. Its own state (the
  superuser token with its expiry, the slot-state cache) is part of the world the store's functions
  act on; \<open>pw_sent\<close> records the requests that went out. The mutexes make each method's access to the
  token and to the cache one step; the lookup between reading and writing the cache is not locked,
  and \<open>Cache_Race\<close> lets it interleave with other calls and evictions.
\<close>

section \<open>The slot-state cache\<close>

type_synonym pb_cache = "gostring \<rightharpoonup> gostring \<times> int"

definition state_ttl :: int where
  "state_ttl = 60 * second"

definition cache_hit :: "gostring \<Rightarrow> int \<Rightarrow> pb_cache \<Rightarrow> gostring option" where
  "cache_hit u now m =
     (case m u of None \<Rightarrow> None | Some (st, ts) \<Rightarrow> if now - ts < state_ttl then Some st else None)"

definition cache_store :: "gostring \<Rightarrow> gostring \<Rightarrow> int \<Rightarrow> pb_cache \<Rightarrow> pb_cache" where
  "cache_store u st ts m = m(u \<mapsto> (st, ts))"

definition cache_evict :: "gostring \<Rightarrow> pb_cache \<Rightarrow> pb_cache" where
  "cache_evict u m = m(u := None)"

section \<open>The client and its state\<close>

record 'w pb_client =
  pb_url :: gostring
  pb_email :: gostring
  pb_password :: gostring
  pb_http :: "'w http_client"
  pb_now :: "'w \<Rightarrow> int \<times> 'w"

record 'w pb_world =
  pw_net :: 'w
  pw_token :: gostring
  pw_exp :: int
  pw_cache :: pb_cache
  pw_sent :: "http_request list"

definition new_pb_client ::
  "gostring \<Rightarrow> gostring \<Rightarrow> gostring \<Rightarrow> 'w http_client \<Rightarrow> ('w \<Rightarrow> int \<times> 'w) \<Rightarrow> 'w pb_client" where
  "new_pb_client url email pass h now =
     \<lparr>pb_url = trim_slashes url, pb_email = email, pb_password = pass, pb_http = h, pb_now = now\<rparr>"

definition new_pb_world :: "'w \<Rightarrow> 'w pb_world" where
  "new_pb_world w = \<lparr>pw_net = w, pw_token = [], pw_exp = 0, pw_cache = Map.empty, pw_sent = []\<rparr>"

definition pb_clock :: "'w pb_client \<Rightarrow> 'w pb_world \<Rightarrow> int \<times> 'w pb_world" where
  "pb_clock c w = (case pb_now c (pw_net w) of (t, n) \<Rightarrow> (t, w\<lparr>pw_net := n\<rparr>))"

definition pb_send :: "'w pb_client \<Rightarrow> http_request \<Rightarrow> ('w pb_world, http_reply) call" where
  "pb_send c rq w =
     (case hc_new (pb_http c) (hq_url rq) of
        Some e \<Rightarrow> (Inl e, w)
      | None \<Rightarrow>
          (case hc_do (pb_http c) rq (pw_net w) of
             (x, n) \<Rightarrow> (x, w\<lparr>pw_net := n, pw_sent := pw_sent w @ [rq]\<rparr>)))"

section \<open>The superuser token\<close>

definition auth_request :: "'w pb_client \<Rightarrow> http_request" where
  "auth_request c =
     \<lparr>hq_method = ''POST'', hq_url = pb_url c @ ''/api/collections/_superusers/auth-with-password'',
      hq_headers = [(''Content-Type'', ''application/json'')],
      hq_body = Some (marshal_map [(''identity'', JStr (pb_email c)), (''password'', JStr (pb_password c))])\<rparr>"

definition token_margin :: int where
  "token_margin = 60 * second"

definition token_lifetime :: int where
  "token_lifetime = 6 * 24 * 3600 * second"

definition pb_cached_token :: "'w pb_client \<Rightarrow> 'w pb_world \<Rightarrow> gostring option \<times> 'w pb_world" where
  "pb_cached_token c w =
     (if pw_token w = [] then (None, w)
      else (case pb_clock c w of
          (now, w1) \<Rightarrow> (if now < pw_exp w - token_margin then Some (pw_token w) else None, w1)))"

definition auth_reply :: "'w pb_client \<Rightarrow> http_reply \<Rightarrow> (go_error, gostring) result" where
  "auth_reply c rep =
     (if hr_status rep \<noteq> 200
      then Inl (ErrText (''pocketbase auth: HTTP '' @ itoa (hr_status rep) @ '': ''
                         @ trim_space (take 65536 (hr_body rep))))
      else (case struct_of (pb_http c) (hr_body rep) (json_decode_first (hr_body rep)) of
          Inl e \<Rightarrow> Inl e
        | Inr ms \<Rightarrow>
            (case str_field ''token'' ms of
               None \<Rightarrow> Inl (hc_json_error (pb_http c) (hr_body rep))
             | Some t \<Rightarrow>
                 if t = [] then Inl (ErrText ''pocketbase auth: empty token'') else Inr t)))"

definition pb_auth_token :: "'w pb_client \<Rightarrow> ('w pb_world, gostring) call" where
  "pb_auth_token c w =
     (case pb_cached_token c w of
        (Some t, w1) \<Rightarrow> (Inr t, w1)
      | (None, w1) \<Rightarrow>
          (case pb_send c (auth_request c) w1 of
             (Inl e, w2) \<Rightarrow> (Inl e, w2)
           | (Inr rep, w2) \<Rightarrow>
               (case auth_reply c rep of
                  Inl e \<Rightarrow> (Inl e, w2)
                | Inr t \<Rightarrow>
                    (case pb_clock c w2 of
                       (now, w3) \<Rightarrow>
                         (Inr t, w3\<lparr>pw_token := t, pw_exp := now + token_lifetime\<rparr>)))))"

definition pb_clear_token :: "'w pb_world \<Rightarrow> 'w pb_world" where
  "pb_clear_token w = w\<lparr>pw_token := [], pw_exp := 0\<rparr>"

section \<open>Authenticated requests\<close>

definition api_request ::
  "'w pb_client \<Rightarrow> gostring \<Rightarrow> gostring \<Rightarrow> gostring option \<Rightarrow> gostring \<Rightarrow> http_request" where
  "api_request c meth path bdy tok =
     \<lparr>hq_method = meth, hq_url = pb_url c @ path,
      hq_headers = (''Authorization'', ''Bearer '' @ tok)
        # (if bdy = None then [] else [(''Content-Type'', ''application/json'')]),
      hq_body = bdy\<rparr>"

definition pb_attempt ::
  "'w pb_client \<Rightarrow> gostring \<Rightarrow> gostring \<Rightarrow> gostring option \<Rightarrow> ('w pb_world, http_reply) call" where
  "pb_attempt c meth path bdy w =
     (case pb_auth_token c w of
        (Inl e, w1) \<Rightarrow> (Inl e, w1)
      | (Inr tok, w1) \<Rightarrow> pb_send c (api_request c meth path bdy tok) w1)"

function pb_do ::
  "'w pb_client \<Rightarrow> gostring \<Rightarrow> gostring \<Rightarrow> gostring option \<Rightarrow> bool \<Rightarrow> ('w pb_world, gostring) call" where
  "pb_do c meth path bdy retry w =
     (case pb_attempt c meth path bdy w of
        (Inl e, w1) \<Rightarrow> (Inl e, w1)
      | (Inr rep, w1) \<Rightarrow>
          if hr_status rep = 401 \<and> retry
          then pb_do c meth path bdy False (pb_clear_token w1)
          else if \<not> status_ok (hr_status rep)
          then (Inl (ErrText (''pocketbase '' @ meth @ '' '' @ path @ '': HTTP ''
                             @ itoa (hr_status rep))), w1)
          else (Inr (take 4194304 (hr_body rep)), w1))"
  by pat_completeness auto
termination
  by (relation "measure (\<lambda>(c, meth, path, bdy, retry, w). if retry then 1 else 0)") auto

declare pb_do.simps [simp del]

section \<open>Slot records\<close>

definition slot_keys :: "gostring list" where
  "slot_keys =
     [''id'', ''slot_name'', ''group'', ''group_name'', ''nomad_token_secret'',
      ''nomad_token_accessor'', ''minio_access_key'', ''minio_secret_key'', ''state'',
      ''cred_source'', ''opaque_token_hash'', ''config_yaml'', ''claim_code'', ''claimed_by_name'',
      ''claimed_by_email'', ''claimed_at'']"

definition slot_of_fields :: "gostring list \<Rightarrow> slot" where
  "slot_of_fields fs =
     \<lparr>sl_id = fs ! 0, sl_slot_name = fs ! 1, sl_group = fs ! 2, sl_group_name = fs ! 3,
      sl_nomad_token_secret = fs ! 4, sl_nomad_token_accessor = fs ! 5,
      sl_minio_access_key = fs ! 6, sl_minio_secret_key = fs ! 7, sl_state = fs ! 8,
      sl_cred_source = fs ! 9, sl_opaque_token_hash = fs ! 10, sl_config_yaml = fs ! 11,
      sl_claim_code = fs ! 12, sl_claimed_by_name = fs ! 13, sl_claimed_by_email = fs ! 14,
      sl_claimed_at = fs ! 15\<rparr>"

definition slot_of_json :: "json \<Rightarrow> slot option" where
  "slot_of_json v =
     Option.bind (struct_members v) (\<lambda>ms. map_option slot_of_fields (str_fields slot_keys ms))"

definition decoded :: "'w pb_client \<Rightarrow> gostring \<Rightarrow> 'a option \<Rightarrow> (go_error, 'a) result" where
  "decoded c rb v = (case v of None \<Rightarrow> Inl (hc_json_error (pb_http c) rb) | Some x \<Rightarrow> Inr x)"

definition items_of :: "gostring \<Rightarrow> slot list option" where
  "items_of rb =
     Option.bind (json_unmarshal rb)
       (\<lambda>v. Option.bind (struct_members v) (list_field slot_of_json ''items''))"

definition slots_path :: gostring where
  "slots_path = ''/api/collections/slots/records''"

definition groups_path :: "gostring \<Rightarrow> gostring" where
  "groups_path g = ''/api/collections/groups/records/'' @ g"

definition pb_list_slots :: "'w pb_client \<Rightarrow> gostring \<Rightarrow> int \<Rightarrow> ('w pb_world, slot list) call" where
  "pb_list_slots c q n w =
     (let n' = (if n \<le> 0 then 500 else n);
          qs = ''perPage='' @ itoa n' @ ''&skipTotal=1'';
          qs' = (if q = [] then qs else qs @ ''&filter='' @ query_escape q) in
      case pb_do c ''GET'' (slots_path @ ''?'' @ qs') None True w of
        (Inl e, w1) \<Rightarrow> (Inl e, w1)
      | (Inr rb, w1) \<Rightarrow> (decoded c rb (items_of rb), w1))"

definition find_path :: "gostring \<Rightarrow> gostring" where
  "find_path q = slots_path @ ''?perPage=1&skipTotal=1&filter='' @ query_escape q"

definition pb_find_slot :: "'w pb_client \<Rightarrow> gostring \<Rightarrow> ('w pb_world, slot option) call" where
  "pb_find_slot c q w =
     (case pb_do c ''GET'' (find_path q) None True w of
        (Inl e, w1) \<Rightarrow> (Inl e, w1)
      | (Inr rb, w1) \<Rightarrow>
          (case decoded c rb (items_of rb) of
             Inl e \<Rightarrow> (Inl e, w1)
           | Inr [] \<Rightarrow> (Inr None, w1)
           | Inr (x # xs) \<Rightarrow> (Inr (Some x), w1)))"

definition pb_get_slot :: "'w pb_client \<Rightarrow> gostring \<Rightarrow> ('w pb_world, slot) call" where
  "pb_get_slot c i w =
     (case pb_do c ''GET'' (slots_path @ ''/'' @ path_escape i) None True w of
        (Inl e, w1) \<Rightarrow> (Inl e, w1)
      | (Inr rb, w1) \<Rightarrow> (decoded c rb (Option.bind (json_unmarshal rb) slot_of_json), w1))"

definition pb_write :: "'w pb_client \<Rightarrow> gostring \<Rightarrow> patch \<Rightarrow> ('w pb_world, unit) call" where
  "pb_write c path flds w =
     (case pb_do c ''PATCH'' path (Some (marshal_map flds)) True w of
        (Inl e, w1) \<Rightarrow> (Inl e, w1)
      | (Inr _, w1) \<Rightarrow> (Inr (), w1))"

definition pb_patch_slot :: "'w pb_client \<Rightarrow> gostring \<Rightarrow> patch \<Rightarrow> ('w pb_world, unit) call" where
  "pb_patch_slot c i flds = pb_write c (slots_path @ ''/'' @ path_escape i) flds"

definition pb_invalidate :: "gostring \<Rightarrow> 'w pb_world \<Rightarrow> 'w pb_world" where
  "pb_invalidate u w = w\<lparr>pw_cache := cache_evict u (pw_cache w)\<rparr>"

definition pb_group_name :: "'w pb_client \<Rightarrow> slot \<Rightarrow> 'w pb_world \<Rightarrow> gostring \<times> 'w pb_world" where
  "pb_group_name c sl w =
     (if trim_space (sl_group_name sl) \<noteq> [] then (trim_space (sl_group_name sl), w)
      else if sl_group sl = [] then ([], w)
      else (case pb_do c ''GET'' (groups_path (path_escape (sl_group sl))) None True w of
          (Inl e, w1) \<Rightarrow> ([], w1)
        | (Inr rb, w1) \<Rightarrow>
            (case Option.bind (json_unmarshal rb)
                    (\<lambda>v. Option.bind (struct_members v) (str_field ''name'')) of
               None \<Rightarrow> ([], w1)
             | Some n \<Rightarrow> (n, w1))))"

text \<open>What a lookup makes of its outcome: no record, an unreachable store, a state.\<close>

definition state_name :: "(go_error, slot option) result \<Rightarrow> gostring" where
  "state_name x =
     (case x of Inl e \<Rightarrow> ''error'' | Inr None \<Rightarrow> ''none'' | Inr (Some sl) \<Rightarrow> sl_state sl)"

definition pb_cached_state :: "'w pb_client \<Rightarrow> gostring \<Rightarrow> 'w pb_world \<Rightarrow> gostring \<times> 'w pb_world" where
  "pb_cached_state c u w =
     (case pb_clock c w of
        (now, w1) \<Rightarrow>
          (case cache_hit u now (pw_cache w1) of
             Some st \<Rightarrow> (st, w1)
           | None \<Rightarrow>
               (case pb_find_slot c (eq_filter ''minio_access_key'' u) w1 of
                  (x, w2) \<Rightarrow>
                    (state_name x, w2\<lparr>pw_cache := cache_store u (state_name x) now (pw_cache w2)\<rparr>))))"

section \<open>Group keys\<close>

definition group_key_of :: "(gostring \<times> json) list \<Rightarrow> group_key option" where
  "group_key_of ms =
     (case (str_field ''name'' ms, str_field ''age_recipient'' ms, str_field ''age_sk_wrapped'' ms,
            int_field ''age_key_version'' ms, str_field ''age_key_alg'' ms) of
        (Some n, Some rec, Some sk, Some v, Some alg) \<Rightarrow>
          Some \<lparr>gk_name = n, gk_recipient = rec, gk_sk_wrapped = sk, gk_version = v, gk_alg = alg,
                gk_has_key = (rec \<noteq> [] \<and> sk \<noteq> [])\<rparr>
      | _ \<Rightarrow> None)"

definition pb_group_key_record :: "'w pb_client \<Rightarrow> gostring \<Rightarrow> ('w pb_world, group_key) call" where
  "pb_group_key_record c g w =
     (case pb_do c ''GET'' (groups_path (path_escape g)) None True w of
        (Inl e, w1) \<Rightarrow> (Inl e, w1)
      | (Inr rb, w1) \<Rightarrow>
          (decoded c rb (Option.bind (json_unmarshal rb)
             (\<lambda>v. Option.bind (struct_members v) group_key_of)), w1))"

definition group_key_patch :: "gostring \<Rightarrow> gostring \<Rightarrow> int \<Rightarrow> gostring \<Rightarrow> patch" where
  "group_key_patch rec sk v alg =
     [(''age_recipient'', JStr rec), (''age_sk_wrapped'', JStr sk),
      (''age_key_version'', JNum (itoa v)), (''age_key_alg'', JStr alg)]"

definition pb_put_group_key ::
  "'w pb_client \<Rightarrow> gostring \<Rightarrow> gostring \<Rightarrow> gostring \<Rightarrow> int \<Rightarrow> gostring \<Rightarrow> ('w pb_world, unit) call" where
  "pb_put_group_key c g rec sk v alg =
     pb_write c (groups_path (path_escape g)) (group_key_patch rec sk v alg)"

section \<open>The store the handlers see\<close>

definition pb_manager :: "'w pb_client \<Rightarrow> 'w pb_world slot_manager" where
  "pb_manager c =
     \<lparr>sm_get_slot = pb_get_slot c, sm_patch_slot = pb_patch_slot c, sm_invalidate = pb_invalidate,
      sm_list_slots = pb_list_slots c\<rparr>"

definition pb_key_store :: "'w pb_client \<Rightarrow> 'w pb_world key_store" where
  "pb_key_store c =
     \<lparr>ks_group_key_record = pb_group_key_record c, ks_put_group_key = pb_put_group_key c\<rparr>"

definition pb_store :: "'w pb_client \<Rightarrow> 'w pb_world slot_store" where
  "pb_store c =
     \<lparr>ss_find_slot = pb_find_slot c, ss_group_name = pb_group_name c,
      ss_cached_state = pb_cached_state c, ss_manager = Some (pb_manager c),
      ss_keys = Some (pb_key_store c),
      ss_pb_get = Some (\<lambda>path. pb_do c ''GET'' path None True)\<rparr>"

section \<open>What a request sends\<close>

text \<open>The requests of one attempt: nothing if it could not be built, the authentication if there was
  no usable token, and the call itself, which never goes out without a token.\<close>

definition attempt_traces ::
  "'w pb_client \<Rightarrow> gostring \<Rightarrow> gostring \<Rightarrow> gostring option \<Rightarrow> http_request list set" where
  "attempt_traces c meth path bdy =
     {[], [auth_request c]}
     \<union> {[api_request c meth path bdy tok] | tok. tok \<noteq> []}
     \<union> {[auth_request c, api_request c meth path bdy tok] | tok. tok \<noteq> []}"

definition fresh_traces ::
  "'w pb_client \<Rightarrow> gostring \<Rightarrow> gostring \<Rightarrow> gostring option \<Rightarrow> http_request list set" where
  "fresh_traces c meth path bdy =
     {[], [auth_request c]} \<union> {[auth_request c, api_request c meth path bdy tok] | tok. tok \<noteq> []}"

lemma pb_send_sent:
  "pb_send c rq w = (x, w1) \<Longrightarrow>
     (pw_sent w1 = pw_sent w \<or> pw_sent w1 = pw_sent w @ [rq]) \<and> pw_token w1 = pw_token w
     \<and> pw_cache w1 = pw_cache w \<and> (x \<in> range Inr \<longrightarrow> pw_sent w1 = pw_sent w @ [rq])"
  by (auto simp: pb_send_def split: option.splits prod.splits)

lemma auth_reply_token: "auth_reply c rep = Inr t \<Longrightarrow> t \<noteq> []"
  by (auto simp: auth_reply_def split: if_splits sum.splits option.splits)

lemma pb_clock_fields:
  "pb_clock c w = (now, w1) \<Longrightarrow> pw_sent w1 = pw_sent w \<and> pw_token w1 = pw_token w
     \<and> pw_cache w1 = pw_cache w \<and> pw_exp w1 = pw_exp w"
  by (auto simp: pb_clock_def split: prod.splits)

lemma pb_cached_token_fields:
  "pb_cached_token c w = (x, w1) \<Longrightarrow> pw_sent w1 = pw_sent w \<and> pw_cache w1 = pw_cache w
     \<and> (x = None \<or> x = Some (pw_token w) \<and> pw_token w \<noteq> [])"
  by (auto simp: pb_cached_token_def dest: pb_clock_fields split: if_splits prod.splits)

lemma pb_auth_token_sent:
  assumes "pb_auth_token c w = (x, w1)"
  shows "pw_cache w1 = pw_cache w
    \<and> (pw_sent w1 = pw_sent w \<and> (case x of Inl e \<Rightarrow> True | Inr t \<Rightarrow> t = pw_token w \<and> t \<noteq> [])
       \<or> pw_sent w1 = pw_sent w @ [auth_request c] \<and> (case x of Inl e \<Rightarrow> True | Inr t \<Rightarrow> t \<noteq> []))"
proof -
  obtain y w2 where y: "pb_cached_token c w = (y, w2)" by force
  note f = pb_cached_token_fields [OF y]
  show ?thesis
  proof (cases y)
    case (Some t)
    with assms y f show ?thesis by (auto simp: pb_auth_token_def)
  next
    case None
    obtain z w3 where z: "pb_send c (auth_request c) w2 = (z, w3)" by force
    note g = pb_send_sent [OF z]
    show ?thesis
    proof (cases z)
      case (Inl e)
      with assms y None z f g show ?thesis by (auto simp: pb_auth_token_def)
    next
      case (Inr rep)
      with assms y None z f g show ?thesis
        by (auto simp: pb_auth_token_def dest: pb_clock_fields auth_reply_token
            split: sum.splits prod.splits)
    qed
  qed
qed

lemma pb_attempt_sent:
  assumes "pb_attempt c meth path bdy w = (x, w1)"
  shows "pw_cache w1 = pw_cache w
    \<and> (\<exists>xs\<in>(if pw_token w = [] then fresh_traces c meth path bdy else attempt_traces c meth path bdy).
         pw_sent w1 = pw_sent w @ xs)"
proof -
  obtain y w2 where y: "pb_auth_token c w = (y, w2)" by force
  note f = pb_auth_token_sent [OF y]
  show ?thesis
  proof (cases y)
    case (Inl e)
    with assms y f show ?thesis
      by (auto simp: pb_attempt_def fresh_traces_def attempt_traces_def)
  next
    case (Inr tok)
    obtain z w3 where z: "pb_send c (api_request c meth path bdy tok) w2 = (z, w3)" by force
    note g = pb_send_sent [OF z]
    from Inr assms y z have "w1 = w3" by (simp add: pb_attempt_def)
    with f g Inr show ?thesis by (auto simp: fresh_traces_def attempt_traces_def)
  qed
qed

lemma fresh_attempt: "fresh_traces c meth path bdy \<subseteq> attempt_traces c meth path bdy"
  by (auto simp: fresh_traces_def attempt_traces_def)

text \<open>\<open>C31\<close>: a call of the PocketBase client is at most two attempts. The second one happens only
  on a 401, after the cached token was dropped, so it authenticates first and its result is final;
  without a 401 the first attempt decides. No API request ever carries an empty token.\<close>

theorem pb_do_two_attempts:
  "\<exists>xs ys. pw_sent (snd (pb_do c meth path bdy True w)) = pw_sent w @ xs @ ys
     \<and> xs \<in> attempt_traces c meth path bdy
     \<and> (case fst (pb_attempt c meth path bdy w) of
          Inr rep \<Rightarrow>
            (if hr_status rep = 401
             then ys \<in> fresh_traces c meth path bdy
                \<and> pb_do c meth path bdy True w = pb_do c meth path bdy False
                    (pb_clear_token (snd (pb_attempt c meth path bdy w)))
             else ys = [] \<and> fst (pb_do c meth path bdy True w) =
               (if status_ok (hr_status rep) then Inr (take 4194304 (hr_body rep))
                else Inl (ErrText (''pocketbase '' @ meth @ '' '' @ path @ '': HTTP ''
                                   @ itoa (hr_status rep)))))
        | Inl e \<Rightarrow> ys = [] \<and> fst (pb_do c meth path bdy True w) = Inl e)"
proof -
  obtain x w1 where x: "pb_attempt c meth path bdy w = (x, w1)" by force
  from pb_attempt_sent [OF x] fresh_attempt [of c meth path bdy] obtain xs where
    xs: "xs \<in> attempt_traces c meth path bdy" "pw_sent w1 = pw_sent w @ xs" by (auto split: if_splits)
  show ?thesis
  proof (cases "\<exists>rep. x = Inr rep \<and> hr_status rep = 401")
    case True
    then obtain rep where rep: "x = Inr rep" "hr_status rep = 401" by blast
    have d: "pb_do c meth path bdy True w = pb_do c meth path bdy False (pb_clear_token w1)"
      using x rep by (simp add: pb_do.simps [of c meth path bdy True w])
    obtain y w2 where y: "pb_attempt c meth path bdy (pb_clear_token w1) = (y, w2)" by force
    from pb_attempt_sent [OF y] obtain ys where
      ys: "ys \<in> fresh_traces c meth path bdy" "pw_sent w2 = pw_sent w1 @ ys"
      by (auto simp: pb_clear_token_def)
    have "snd (pb_do c meth path bdy False (pb_clear_token w1)) = w2"
      using y by (simp add: pb_do.simps [of c meth path bdy False] split: sum.split)
    with d x rep xs ys show ?thesis by (intro exI [of _ xs] exI [of _ ys]) simp
  next
    case False
    with x xs show ?thesis
      by (intro exI [of _ xs] exI [of _ "[]"])
        (auto simp: pb_do.simps [of c meth path bdy True w] split: sum.split)
  qed
qed

section \<open>The client as a transition system\<close>

datatype pb_op =
    PbFind gostring
  | PbList gostring int
  | PbGetSlot gostring
  | PbPatch gostring patch
  | PbGroup slot
  | PbState gostring
  | PbEvict gostring
  | PbKey gostring
  | PbPutKey gostring gostring gostring int gostring
  | PbDefault gostring

fun pb_exec :: "'w pb_client \<Rightarrow> 'w pb_world \<Rightarrow> pb_op \<Rightarrow> 'w pb_world" where
  "pb_exec c w (PbFind q) = snd (pb_find_slot c q w)"
| "pb_exec c w (PbList q n) = snd (pb_list_slots c q n w)"
| "pb_exec c w (PbGetSlot i) = snd (pb_get_slot c i w)"
| "pb_exec c w (PbPatch i p) = snd (pb_patch_slot c i p w)"
| "pb_exec c w (PbGroup sl) = snd (pb_group_name c sl w)"
| "pb_exec c w (PbState u) = snd (pb_cached_state c u w)"
| "pb_exec c w (PbEvict u) = pb_invalidate u w"
| "pb_exec c w (PbKey g) = snd (pb_group_key_record c g w)"
| "pb_exec c w (PbPutKey g rec sk v alg) = snd (pb_put_group_key c g rec sk v alg w)"
| "pb_exec c w (PbDefault g) = snd (pb_do c ''GET'' (groups_path g) None True w)"

text \<open>What may go out: the authentication, and API calls below the collections with a token.\<close>

definition pb_requests :: "'w pb_client \<Rightarrow> http_request set" where
  "pb_requests c = {auth_request c}
     \<union> {api_request c meth path bdy tok | meth path bdy tok.
          tok \<noteq> [] \<and> meth \<in> {''GET'', ''PATCH''} \<and> has_prefix path ''/api/collections/''}"

definition pb_sends :: "'w pb_client \<Rightarrow> 'w pb_world \<Rightarrow> 'w pb_world \<Rightarrow> bool" where
  "pb_sends c w w' \<longleftrightarrow> pw_cache w' = pw_cache w \<and> set (pw_sent w') \<subseteq> set (pw_sent w) \<union> pb_requests c"

lemma pb_do_sends:
  assumes "pb_do c meth path bdy retry w = (x, w1)" and "meth \<in> {''GET'', ''PATCH''}"
    and "has_prefix path ''/api/collections/''"
  shows "pb_sends c w w1"
  using assms
proof (induction c meth path bdy retry w arbitrary: x w1 rule: pb_do.induct)
  case (1 c meth path bdy retry w)
  obtain y w2 where y: "pb_attempt c meth path bdy w = (y, w2)" by force
  have "pb_sends c w w2"
    using pb_attempt_sent [OF y] fresh_attempt [of c meth path bdy] 1(3,4)
    by (fastforce simp: pb_sends_def pb_requests_def attempt_traces_def split: if_splits)
  moreover have "pb_sends c (pb_clear_token w2) w1"
    if "y = Inr rep" "hr_status rep = 401 \<and> retry" for rep
  proof -
    have "pb_do c meth path bdy False (pb_clear_token w2) = (x, w1)"
      using 1(2) [unfolded pb_do.simps [of c meth path bdy retry w]] that y by simp
    then show ?thesis by (rule 1(1) [OF y [symmetric] that _ 1(3,4)])
  qed
  ultimately show ?case
    using 1(2) y
    by (auto simp: pb_do.simps [of c meth path bdy retry w] pb_sends_def pb_clear_token_def
        split: sum.splits if_splits)
qed

lemma pb_path_prefixes [simp]:
  "has_prefix (slots_path @ t) ''/api/collections/''"
  "has_prefix (groups_path g) ''/api/collections/''"
  "has_prefix (find_path q) ''/api/collections/''"
  by (simp_all add: slots_path_def groups_path_def find_path_def)

lemma pb_sends_refl [simp]: "pb_sends c w w"
  by (simp add: pb_sends_def)

lemma pb_find_sends: "pb_find_slot c q w = (x, w1) \<Longrightarrow> pb_sends c w w1"
  by (auto simp: pb_find_slot_def split: prod.splits sum.splits list.splits dest!: pb_do_sends)

lemma pb_write_sends:
  "pb_write c path flds w = (x, w1) \<Longrightarrow> has_prefix path ''/api/collections/'' \<Longrightarrow> pb_sends c w w1"
  by (auto simp: pb_write_def split: prod.splits sum.splits dest!: pb_do_sends)

text \<open>Only the state query and the eviction touch the cache; the others are bounded alike.\<close>

lemma pb_exec_sends:
  assumes "\<And>u. e \<noteq> PbState u" and "\<And>u. e \<noteq> PbEvict u"
  shows "pb_sends c w (pb_exec c w e)"
proof -
  have d: "pb_sends c w (snd (pb_do c ''GET'' path None True w))"
    if "has_prefix path ''/api/collections/''" for path
    by (rule pb_do_sends [OF prod.collapse [symmetric] _ that]) simp
  have "pb_sends c w (snd (pb_find_slot c q w))" for q
    by (rule pb_find_sends [OF prod.collapse [symmetric]])
  moreover have "pb_sends c w (snd (pb_write c path flds w))"
    if "has_prefix path ''/api/collections/''" for path flds
    by (rule pb_write_sends [OF prod.collapse [symmetric] that])
  ultimately show ?thesis
    using assms d
    by (cases e)
      (auto simp: pb_list_slots_def pb_get_slot_def pb_group_name_def pb_group_key_record_def
        pb_patch_slot_def pb_put_group_key_def Let_def case_prod_beta
        split: sum.split option.split)
qed

lemma pb_cached_state_sends:
  "set (pw_sent (snd (pb_cached_state c u w))) \<subseteq> set (pw_sent w) \<union> pb_requests c"
proof -
  obtain now w1 where t: "pb_clock c w = (now, w1)" by force
  obtain x w2 where f: "pb_find_slot c (eq_filter ''minio_access_key'' u) w1 = (x, w2)" by force
  from pb_find_sends [OF f] pb_clock_fields [OF t] t f show ?thesis
    by (auto simp: pb_cached_state_def pb_sends_def split: option.split)
qed

interpretation pb_run: step_invariant "pb_exec (c :: 'w pb_client)" "\<lambda>w :: 'w pb_world. set (pw_sent w) \<subseteq> S \<union> pb_requests c" "\<lambda>_. True"
proof unfold_locales
  fix w :: "'w pb_world" and e
  assume w: "set (pw_sent w) \<subseteq> S \<union> pb_requests c"
  have "set (pw_sent (pb_exec c w e)) \<subseteq> set (pw_sent w) \<union> pb_requests c"
  proof (cases "(\<exists>u. e = PbState u) \<or> (\<exists>u. e = PbEvict u)")
    case True
    then show ?thesis
      by (elim disjE exE) (use pb_cached_state_sends [of c _ w] in \<open>auto simp: pb_invalidate_def\<close>)
  next
    case False
    then show ?thesis using pb_exec_sends [of e c w] by (simp add: pb_sends_def)
  qed
  with w show "set (pw_sent (pb_exec c w e)) \<subseteq> S \<union> pb_requests c" by blast
qed

text \<open>Whatever operations the handlers run, in whatever order, the client sends only its
  authentication request, the one place the superuser's password goes to, and
  \<^verbatim>\<open>GET\<close> and \<^verbatim>\<open>PATCH\<close> requests below \<^verbatim>\<open>/api/collections/\<close> of the configured
  server that carry a non-empty bearer token.\<close>

lemma pb_requests_only:
  "set (pw_sent (run_steps (pb_exec c) w es)) \<subseteq> set (pw_sent w) \<union> pb_requests c"
  by (rule pb_run.run_inv) simp_all

section \<open>The contract of the cache\<close>

datatype ('k, 'v) cache_event = Stored 'k 'v int | Evicted 'k

fun event_key :: "('k, 'v) cache_event \<Rightarrow> 'k" where
  "event_key (Stored k v ts) = k"
| "event_key (Evicted k) = k"

fun replay :: "('k \<Rightarrow> 'v \<Rightarrow> int \<Rightarrow> 's \<Rightarrow> 's) \<Rightarrow> ('k \<Rightarrow> 's \<Rightarrow> 's) \<Rightarrow> 's \<Rightarrow> ('k, 'v) cache_event \<Rightarrow> 's" where
  "replay store evict s (Stored k v ts) = store k v ts s"
| "replay store evict s (Evicted k) = evict k s"

text \<open>The specification: the latest event about the key, if it is a store.\<close>

fun latest :: "'k \<Rightarrow> ('k, 'v) cache_event list \<Rightarrow> ('v \<times> int) option" where
  "latest k [] = None"
| "latest k (e # es) =
     (if k \<in> event_key ` set es then latest k es
      else (case e of
          Stored k' v ts \<Rightarrow> if k' = k then Some (v, ts) else None
        | Evicted k' \<Rightarrow> None))"

lemma latest_snoc:
  "latest k (es @ [e]) =
     (case e of
        Stored k' v ts \<Rightarrow> if k' = k then Some (v, ts) else latest k es
      | Evicted k' \<Rightarrow> if k' = k then None else latest k es)"
  by (induction es) (auto split: cache_event.splits)

lemma latest_Some:
  "latest k es = Some (v, ts) \<longleftrightarrow>
     (\<exists>xs ys. es = xs @ Stored k v ts # ys \<and> k \<notin> event_key ` set ys)"
proof (induction es rule: rev_induct)
  case Nil
  then show ?case by simp
next
  case (snoc e es)
  show ?case
  proof (cases "event_key e = k")
    case True
    have "(\<exists>xs ys. es @ [e] = xs @ Stored k v ts # ys \<and> k \<notin> event_key ` set ys) \<longleftrightarrow> e = Stored k v ts"
      (is "?l \<longleftrightarrow> _")
    proof
      assume ?l
      then obtain xs ys where l: "es @ [e] = xs @ Stored k v ts # ys" "k \<notin> event_key ` set ys" by blast
      show "e = Stored k v ts"
      proof (cases ys rule: rev_cases)
        case Nil
        with l(1) show ?thesis by simp
      next
        case (snoc zs z)
        with l(1) have "e = z" by (metis append.assoc append_Cons last_snoc)
        with snoc l(2) True show ?thesis by auto
      qed
    next
      assume "e = Stored k v ts"
      then show ?l by (intro exI [of _ es] exI [of _ "[]"]) simp
    qed
    with True show ?thesis by (cases e) (auto simp: latest_snoc)
  next
    case False
    then have "latest k (es @ [e]) = latest k es" by (cases e) (auto simp: latest_snoc)
    moreover have "(\<exists>xs ys. es @ [e] = xs @ Stored k v ts # ys \<and> k \<notin> event_key ` set ys)
        \<longleftrightarrow> (\<exists>xs ys. es = xs @ Stored k v ts # ys \<and> k \<notin> event_key ` set ys)" (is "?l \<longleftrightarrow> ?r")
    proof
      assume ?l
      then obtain xs ys where l: "es @ [e] = xs @ Stored k v ts # ys" "k \<notin> event_key ` set ys" by blast
      from l(1) False have "ys \<noteq> []" by auto
      with l(1) have "es = xs @ Stored k v ts # butlast ys"
        by (metis butlast.simps(2) butlast_append butlast_snoc list.discI)
      moreover have "k \<notin> event_key ` set (butlast ys)" using l(2) by (auto dest: in_set_butlastD)
      ultimately show ?r by blast
    next
      assume ?r
      then obtain xs ys where "es = xs @ Stored k v ts # ys" "k \<notin> event_key ` set ys" by blast
      with False show ?l by (intro exI [of _ xs] exI [of _ "ys @ [e]"]) auto
    qed
    ultimately show ?thesis using snoc.IH by simp
  qed
qed

locale answer_cache =
  fixes hit :: "'k \<Rightarrow> int \<Rightarrow> 's \<Rightarrow> 'v option"
    and store :: "'k \<Rightarrow> 'v \<Rightarrow> int \<Rightarrow> 's \<Rightarrow> 's"
    and evict :: "'k \<Rightarrow> 's \<Rightarrow> 's"
    and none :: 's
    and ttl :: int
  assumes hit_none: "hit k now none = None"
    and hit_store: "hit k now (store k' v ts s) =
      (if k' = k then (if now - ts < ttl then Some v else None) else hit k now s)"
    and hit_evict: "hit k now (evict k' s) = (if k' = k then None else hit k now s)"
begin

lemma hit_replay:
  "hit k now (run_steps (replay store evict) none es) =
     (case latest k es of None \<Rightarrow> None | Some (v, ts) \<Rightarrow> if now - ts < ttl then Some v else None)"
proof (induction es rule: rev_induct)
  case Nil
  then show ?case by (simp add: hit_none)
next
  case (snoc e es)
  then show ?case
    by (cases e) (simp_all add: run_steps_append latest_snoc hit_store hit_evict)
qed

lemma evict_stops: "hit k now (run_steps (replay store evict) none (es @ [Evicted k])) = None"
  by (simp add: hit_replay latest_snoc)

end

interpretation state_cache: answer_cache cache_hit cache_store cache_evict Map.empty state_ttl
  by unfold_locales (simp_all add: cache_hit_def cache_store_def cache_evict_def)

abbreviation cache_step :: "pb_cache \<Rightarrow> (gostring, gostring) cache_event \<Rightarrow> pb_cache" where
  "cache_step \<equiv> replay cache_store cache_evict"

text \<open>Requests run concurrently, so stores and evictions reach the cache in any order. After
  any such sequence the cache answers a state exactly if the latest event about that user is a store
  of this state less than a minute ago; an eviction is never answered from.\<close>

lemma state_cache_history:
  "cache_hit u now (run_steps cache_step Map.empty es) = Some st \<longleftrightarrow>
     (\<exists>xs ts ys. es = xs @ Stored u st ts # ys \<and> u \<notin> event_key ` set ys \<and> now - ts < state_ttl)"
proof -
  have "cache_hit u now (run_steps cache_step Map.empty es) = Some st \<longleftrightarrow>
      (\<exists>ts. latest u es = Some (st, ts) \<and> now - ts < state_ttl)"
    unfolding state_cache.hit_replay by (auto split: option.splits)
  also have "\<dots> \<longleftrightarrow> (\<exists>xs ts ys. es = xs @ Stored u st ts # ys
      \<and> u \<notin> event_key ` set ys \<and> now - ts < state_ttl)"
    unfolding latest_Some by blast
  finally show ?thesis .
qed

section \<open>The client refines its history\<close>

text \<open>The events the operations of one client cause.\<close>

definition pb_events :: "'w pb_client \<Rightarrow> 'w pb_world \<Rightarrow> pb_op \<Rightarrow> (gostring, gostring) cache_event list" where
  "pb_events c w e =
     (case e of
        PbState u \<Rightarrow>
          (case pb_clock c w of
             (now, w1) \<Rightarrow>
               if cache_hit u now (pw_cache w) = None
               then [Stored u (state_name (fst (pb_find_slot c (eq_filter ''minio_access_key'' u) w1))) now]
               else [])
      | PbEvict u \<Rightarrow> [Evicted u]
      | _ \<Rightarrow> [])"

fun pb_history :: "'w pb_client \<Rightarrow> 'w pb_world \<Rightarrow> pb_op list \<Rightarrow> (gostring, gostring) cache_event list" where
  "pb_history c w [] = []"
| "pb_history c w (e # es) = pb_events c w e @ pb_history c (pb_exec c w e) es"

lemma pb_exec_cache: "pw_cache (pb_exec c w e) = run_steps cache_step (pw_cache w) (pb_events c w e)"
proof (cases e)
  case (PbState u)
  obtain now w1 where t: "pb_clock c w = (now, w1)" by force
  obtain x w2 where f: "pb_find_slot c (eq_filter ''minio_access_key'' u) w1 = (x, w2)" by force
  from PbState t f pb_clock_fields [OF t] pb_find_sends [OF f] show ?thesis
    by (auto simp: pb_cached_state_def pb_events_def pb_sends_def split: option.split)
next
  case (PbEvict u)
  then show ?thesis by (simp add: pb_events_def pb_invalidate_def)
qed (use pb_exec_sends [of e c w] in \<open>simp_all add: pb_events_def pb_sends_def\<close>)

text \<open>The cache of a client implements the log of its answers. After any sequence of store
  operations the cached state of a user is what replaying the events gives, so the forward-auth check
  is answered from a lookup less than a minute old, made after the last eviction of that user.\<close>

lemma pb_cache_refines:
  "pw_cache (run_steps (pb_exec c) (new_pb_world n) es)
     = run_steps cache_step Map.empty (pb_history c (new_pb_world n) es)
   \<and> cache_hit u now (pw_cache (run_steps (pb_exec c) (new_pb_world n) es))
     = (case latest u (pb_history c (new_pb_world n) es) of
          None \<Rightarrow> None | Some (st, ts) \<Rightarrow> if now - ts < state_ttl then Some st else None)"
proof -
  have "pw_cache (run_steps (pb_exec c) w es) = run_steps cache_step (pw_cache w) (pb_history c w es)" for w
    by (induction es arbitrary: w) (simp_all add: run_steps_append pb_exec_cache)
  from this [of "new_pb_world n"] show ?thesis
    by (simp add: new_pb_world_def state_cache.hit_replay)
qed

end
