(* ===== verification/Config.thy ===== *)
theory Config
  imports Mock_Upstreams Upstream_Clients Pocketbase
begin

text \<open>
  \<^verbatim>\<open>config.go\<close>, \<^verbatim>\<open>BuildUpstreams\<close> of \<^verbatim>\<open>upstreams.go\<close> and
  \<^verbatim>\<open>tokenShape\<close> of \<^verbatim>\<open>server.go\<close>: how the environment and the command line
  become the configuration, and the configuration the upstream clients. The \<^verbatim>\<open>flag\<close> package is
  modelled as far as the service's flag set uses it; the texts of its errors, which go to standard
  error only, are the constructors of \<open>config_error\<close>. The environment is a function, as in the code.
\<close>

section \<open>Levels and truth values\<close>

definition parse_level :: "gostring \<Rightarrow> int option" where
  "parse_level t =
     (let l = to_lower (trim_space t) in
      if l \<in> {''info'', ''1'', ''l1''} then Some L1
      else if l \<in> {''debug'', ''2'', ''l2''} then Some L2
      else if l \<in> {''trace'', ''3'', ''l3''} then Some L3
      else None)"

definition level_string :: "int \<Rightarrow> gostring" where
  "level_string l = (if l \<le> L3 then ''trace'' else if l \<le> L2 then ''debug'' else ''info'')"

definition is_truthy :: "gostring \<Rightarrow> bool" where
  "is_truthy t \<longleftrightarrow> to_lower (trim_space t) \<in> {''1'', ''true'', ''yes'', ''on''}"

definition getenv_or :: "(gostring \<Rightarrow> gostring) \<Rightarrow> gostring \<Rightarrow> gostring \<Rightarrow> gostring" where
  "getenv_or env k d = (if trim_space (env k) = [] then d else trim_space (env k))"

lemma parse_level_string [simp]:
  "parse_level (level_string l) = Some (if l \<le> L3 then L3 else if l \<le> L2 then L2 else L1)"
proof -
  have "parse_level ''trace'' = Some L3" "parse_level ''debug'' = Some L2" "parse_level ''info'' = Some L1"
    by code_simp+
  then show ?thesis by (simp add: level_string_def)
qed

section \<open>The command line\<close>

datatype config_error =
    InvalidLevel gostring
  | BadFlagSyntax gostring
  | UnknownFlag gostring
  | HelpRequested
  | InvalidBool gostring gostring
  | MissingArgument gostring

definition string_flags :: "gostring list" where
  "string_flags = [''listen'', ''log-level'', ''nomad-addr'', ''jupyterhub-api-url'', ''hub-public-url'']"

definition bool_flags :: "gostring list" where
  "bool_flags = [''mock-upstreams'', ''version'']"

definition parse_bool :: "gostring \<Rightarrow> bool option" where
  "parse_bool t =
     (if t \<in> set [''1'', ''t'', ''T'', ''TRUE'', ''true'', ''True''] then Some True
      else if t \<in> set [''0'', ''f'', ''F'', ''FALSE'', ''false'', ''False''] then Some False
      else None)"

text \<open>The name of a flag and what follows its first equals sign, if any; a name of one byte never
  has a value, since the sign is looked for from the second byte on.\<close>

definition split_flag :: "gostring \<Rightarrow> gostring \<times> gostring option" where
  "split_flag n =
     (let rest = dropWhile (\<lambda>c. c \<noteq> CHR ''='') (tl n) in
      if rest = [] then (n, None)
      else (hd n # takeWhile (\<lambda>c. c \<noteq> CHR ''='') (tl n), Some (tl rest)))"

definition flag_body :: "gostring \<Rightarrow> gostring" where
  "flag_body t = (if has_prefix t ''--'' then drop 2 t else drop 1 t)"

text \<open>The assignments the arguments make, in order. Parsing stops at the first argument that is not a
  flag and after \<open>--\<close>.\<close>

function parse_flags :: "gostring list \<Rightarrow> (config_error, (gostring \<times> gostring) list) result" where
  "parse_flags [] = Inr []"
| "parse_flags (t # ts) =
     (if length t < 2 \<or> \<not> has_prefix t ''-'' then Inr []
      else if t = ''--'' then Inr []
      else (let n = flag_body t in
            if n = [] \<or> has_prefix n ''-'' \<or> has_prefix n ''='' then Inl (BadFlagSyntax t)
            else (case split_flag n of
                (name, v) \<Rightarrow>
                  if name \<in> set bool_flags then
                    (let b = (case v of None \<Rightarrow> ''true'' | Some x \<Rightarrow> x) in
                     if parse_bool b = None then Inl (InvalidBool b name)
                     else map_sum id (Cons (name, b)) (parse_flags ts))
                  else if name \<in> set string_flags then
                    (case (v, ts) of
                       (Some x, _) \<Rightarrow> map_sum id (Cons (name, x)) (parse_flags ts)
                     | (None, x # us) \<Rightarrow> map_sum id (Cons (name, x)) (parse_flags us)
                     | (None, []) \<Rightarrow> Inl (MissingArgument name))
                  else if name = ''help'' \<or> name = ''h'' then Inl HelpRequested
                  else Inl (UnknownFlag name))))"
  by pat_completeness auto
termination
  by (relation "measure length") auto

definition flag_string :: "(gostring \<times> gostring) list \<Rightarrow> gostring \<Rightarrow> gostring \<Rightarrow> gostring" where
  "flag_string asg name d = (case map_of (rev asg) name of None \<Rightarrow> d | Some v \<Rightarrow> v)"

definition flag_bool :: "(gostring \<times> gostring) list \<Rightarrow> gostring \<Rightarrow> bool \<Rightarrow> bool" where
  "flag_bool asg name d =
     (case Option.bind (map_of (rev asg) name) parse_bool of None \<Rightarrow> d | Some b \<Rightarrow> b)"

section \<open>The configuration\<close>

record go_config = config +
  gc_listen :: gostring
  gc_show_version :: bool
  gc_nomad_addr :: gostring
  gc_nomad_admin_token :: gostring
  gc_hub_public_url :: gostring
  gc_mcli_binary :: gostring
  gc_mcli_alias :: gostring
  gc_pocketbase_url :: gostring
  gc_pb_admin_email :: gostring
  gc_pb_admin_password :: gostring
  gc_cluster :: cluster_info
  gc_minio_console_url :: gostring
  gc_read_timeout :: int
  gc_write_timeout :: int
  gc_idle_timeout :: int
  gc_shutdown_grace :: int
  gc_scrub_secrets :: "gostring list"

definition ttl_from_env :: "(gostring \<Rightarrow> gostring) \<Rightarrow> gostring \<Rightarrow> int \<Rightarrow> int" where
  "ttl_from_env env k d =
     (case parse_int64 (trim_space (env k)) of
        None \<Rightarrow> d
      | Some n \<Rightarrow> if 0 < n then wrap64 (n * second) else d)"

definition cluster_from_env :: "(gostring \<Rightarrow> gostring) \<Rightarrow> cluster_info" where
  "cluster_from_env env =
     \<lparr>cl_name = getenv_or env ''CLUSTER_NAME'' ''seedling'',
      cl_nomad_endpoint =
        getenv_or env ''CLUSTER_NOMAD_ENDPOINT'' ''https://nomad.seedling.abc-cluster.cloud'',
      cl_minio_endpoint =
        getenv_or env ''CLUSTER_MINIO_ENDPOINT'' ''https://s3.seedling.abc-cluster.cloud'',
      cl_upload_endpoint =
        getenv_or env ''CLUSTER_UPLOAD_ENDPOINT'' ''https://upload.seedling.abc-cluster.cloud/files/'',
      cl_auth_endpoint =
        getenv_or env ''CLUSTER_AUTH_ENDPOINT'' ''https://workbench.seedling.abc-cluster.cloud'',
      cl_datacenter = getenv_or env ''CLUSTER_DATACENTER'' ''seedling-prod'',
      cl_head_pool = getenv_or env ''CLUSTER_HEAD_POOL'' ''platform'',
      cl_worker_pool = getenv_or env ''CLUSTER_WORKER_POOL'' ''compute''\<rparr>"

text \<open>The level the environment asks for.\<close>

definition env_level :: "(gostring \<Rightarrow> gostring) \<Rightarrow> (config_error, int) result" where
  "env_level env =
     (let v = trim_space (env ''ABC_AUTH_LOG_LEVEL'') in
      if v = [] then Inr L1
      else (case parse_level v of None \<Rightarrow> Inl (InvalidLevel v) | Some l \<Rightarrow> Inr l))"

text \<open>The configuration after the environment has been read, before the flags.\<close>

definition env_config :: "(gostring \<Rightarrow> gostring) \<Rightarrow> int \<Rightarrow> go_config" where
  "env_config env lvl =
     \<lparr>cf_session_secret = env ''SESSION_SECRET'',
      cf_session_ttl = ttl_from_env env ''SESSION_TTL_SECONDS'' (7 * 24 * 3600 * second),
      cf_cookie_secure =
        (if trim_space (env ''COOKIE_SECURE'') = [] then True
         else is_truthy (trim_space (env ''COOKIE_SECURE''))),
      cf_cookie_domain = trim_space (env ''COOKIE_DOMAIN''),
      cf_shadow_validate_url = trim_space (env ''SHADOW_VALIDATE_URL''),
      cf_cli_token_ttl = ttl_from_env env ''CLI_TOKEN_TTL'' (60 * second),
      cf_operator_token = trim_space (env ''OPERATOR_TOKEN''),
      cf_root_mk_b64 = trim_space (env ''ABC_AUTH_ROOT_MK''),
      cf_log_level = lvl,
      cf_jupyterhub_admin_token = trim_space (env ''JUPYTERHUB_API_TOKEN''),
      cf_jupyterhub_api_url = getenv_or env ''JUPYTERHUB_API_URL'' ''http://127.0.0.1:15001/hub/api'',
      cf_mock_upstreams = is_truthy (env ''ABC_AUTH_MOCK_UPSTREAMS''),
      gc_listen = getenv_or env ''ABC_AUTH_LISTEN'' ''127.0.0.1:4182'',
      gc_show_version = False,
      gc_nomad_addr = getenv_or env ''NOMAD_ADDR'' ''http://127.0.0.1:4646'',
      gc_nomad_admin_token = trim_space (env ''NOMAD_TOKEN''),
      gc_hub_public_url =
        getenv_or env ''HUB_PUBLIC_URL'' ''https://workbench.seedling.abc-cluster.cloud'',
      gc_mcli_binary = getenv_or env ''MCLI_BIN'' ''/usr/local/bin/mcli'',
      gc_mcli_alias = getenv_or env ''MCLI_ALIAS'' ''sdroot'',
      gc_pocketbase_url = getenv_or env ''POCKETBASE_URL'' ''http://127.0.0.1:8091'',
      gc_pb_admin_email = getenv_or env ''PB_ADMIN_EMAIL'' ''abc-auth@internal'',
      gc_pb_admin_password = trim_space (env ''PB_ADMIN_PASSWORD''),
      gc_cluster = cluster_from_env env,
      gc_minio_console_url = getenv_or env ''MINIO_CONSOLE_URL'' ''http://localhost:9001'',
      gc_read_timeout = 10 * second, gc_write_timeout = 15 * second, gc_idle_timeout = 60 * second,
      gc_shutdown_grace = 10 * second, gc_scrub_secrets = []\<rparr>"

definition secrets_of :: "go_config \<Rightarrow> gostring list" where
  "secrets_of cfg =
     [cf_jupyterhub_admin_token cfg, gc_pb_admin_password cfg, cf_operator_token cfg,
      cf_root_mk_b64 cfg, cf_session_secret cfg, gc_nomad_admin_token cfg]"

definition apply_flags ::
  "go_config \<Rightarrow> (gostring \<times> gostring) list \<Rightarrow> (config_error, go_config) result" where
  "apply_flags cfg asg =
     (let lt = flag_string asg ''log-level'' (level_string (cf_log_level cfg)) in
      case parse_level lt of
        None \<Rightarrow> Inl (InvalidLevel lt)
      | Some lvl \<Rightarrow>
          Inr (cfg\<lparr>gc_listen := flag_string asg ''listen'' (gc_listen cfg),
                   cf_log_level := lvl,
                   cf_mock_upstreams := flag_bool asg ''mock-upstreams'' (cf_mock_upstreams cfg),
                   gc_show_version := flag_bool asg ''version'' False,
                   gc_nomad_addr := flag_string asg ''nomad-addr'' (gc_nomad_addr cfg),
                   cf_jupyterhub_api_url :=
                     flag_string asg ''jupyterhub-api-url'' (cf_jupyterhub_api_url cfg),
                   gc_hub_public_url := flag_string asg ''hub-public-url'' (gc_hub_public_url cfg),
                   gc_scrub_secrets := filter (\<lambda>x. x \<noteq> []) (secrets_of cfg)\<rparr>))"

definition load_config ::
  "gostring list \<Rightarrow> (gostring \<Rightarrow> gostring) \<Rightarrow> (config_error, go_config) result" where
  "load_config args env =
     (case env_level env of
        Inl e \<Rightarrow> Inl e
      | Inr lvl \<Rightarrow>
          (case parse_flags args of
             Inl e \<Rightarrow> Inl e
           | Inr asg \<Rightarrow> apply_flags (env_config env lvl) asg))"

section \<open>The upstream clients\<close>

text \<open>What the process gives the clients: their transports, the clock of the PocketBase client, the
  program runner and the random source.\<close>

record 'w transports =
  tr_nomad :: "'w pb_world http_client"
  tr_hub :: "'w pb_world http_client"
  tr_store :: "'w http_client"
  tr_minio :: "'w pb_world http_client"
  tr_now :: "'w \<Rightarrow> int \<times> 'w"
  tr_exec :: "gostring \<Rightarrow> gostring list \<Rightarrow> 'w pb_world \<Rightarrow> (gostring \<times> gostring option) \<times> 'w pb_world"
  tr_rand :: "nat \<Rightarrow> ('w pb_world, gostring) call"

definition build_upstreams :: "'w transports \<Rightarrow> go_config \<Rightarrow> 'w pb_world upstreams" where
  "build_upstreams tr cfg =
     (if cf_mock_upstreams cfg then mock_upstreams (gc_cluster cfg) (gc_hub_public_url cfg)
      else (let nc = \<lparr>nc_addr = gc_nomad_addr cfg, nc_http = tr_nomad tr\<rparr> in
        \<lparr>up_nomad = lookup_token_self nc,
         up_nomad_admin = Some (nomad_admin_of \<lparr>ac_nomad = nc, ac_token = gc_nomad_admin_token cfg\<rparr>),
         up_hub = hub_of \<lparr>hc_api_url = cf_jupyterhub_api_url cfg,
                          hc_admin_token = cf_jupyterhub_admin_token cfg, hc_http = tr_hub tr\<rparr>,
         up_store = Some (pb_store (new_pb_client (gc_pocketbase_url cfg) (gc_pb_admin_email cfg)
                                      (gc_pb_admin_password cfg) (tr_store tr) (tr_now tr))),
         up_minio = minio_of \<lparr>cv_url = gc_minio_console_url cfg, cv_http = tr_minio tr\<rparr>,
         up_minio_admin = Some (minio_admin_of \<lparr>mc_binary = gc_mcli_binary cfg,
                                  mc_alias = gc_mcli_alias cfg, mc_exec = tr_exec tr,
                                  mc_rand = tr_rand tr\<rparr>),
         up_cluster = gc_cluster cfg, up_hub_public_url = gc_hub_public_url cfg\<rparr>))"

section \<open>The shape of a token in the startup log\<close>

definition token_shape :: "gostring \<Rightarrow> gostring \<times> gostring" where
  "token_shape tok =
     (if tok = [] then (''unset'', ''(empty)'')
      else if contains tok ''REPLACE_WITH'' then (''placeholder'', tok)
      else (''set'', take 8 tok))"

section \<open>Secrets\<close>

definition env_secrets :: "(gostring \<Rightarrow> gostring) \<Rightarrow> gostring list" where
  "env_secrets env =
     [trim_space (env ''JUPYTERHUB_API_TOKEN''), trim_space (env ''PB_ADMIN_PASSWORD''),
      trim_space (env ''OPERATOR_TOKEN''), trim_space (env ''ABC_AUTH_ROOT_MK''),
      env ''SESSION_SECRET'', trim_space (env ''NOMAD_TOKEN'')]"

lemma load_config_cases:
  obtains (failed) e where "load_config args env = Inl e"
  | (loaded) lvl asg c where "env_level env = Inr lvl" and "parse_flags args = Inr asg"
      and "apply_flags (env_config env lvl) asg = Inr c" and "load_config args env = Inr c"
proof (cases "env_level env")
  case (Inl e)
  then show thesis by (intro failed) (simp add: load_config_def)
next
  case (Inr lvl)
  note lvl = this
  show thesis
  proof (cases "parse_flags args")
    case (Inl e)
    with lvl show thesis by (intro failed) (simp add: load_config_def)
  next
    case (Inr asg)
    show thesis
    proof (cases "apply_flags (env_config env lvl) asg")
      case (Inl e)
      with lvl Inr show thesis by (intro failed) (simp add: load_config_def)
    next
      case (Inr c)
      with lvl \<open>parse_flags args = Inr asg\<close> show thesis by (intro loaded) (simp_all add: load_config_def)
    qed
  qed
qed

lemma apply_flags_keeps:
  assumes "apply_flags cfg asg = Inr c"
  shows "secrets_of c = secrets_of cfg" and "gc_scrub_secrets c = filter (\<lambda>x. x \<noteq> []) (secrets_of cfg)"
    and "cf_session_ttl c = cf_session_ttl cfg" and "cf_cli_token_ttl c = cf_cli_token_ttl cfg"
    and "cf_log_level c \<in> {L1, L2, L3}"
proof -
  obtain lvl where l: "parse_level (flag_string asg ''log-level'' (level_string (cf_log_level cfg))) = Some lvl"
    using assms by (auto simp: apply_flags_def Let_def split: option.splits)
  then show "secrets_of c = secrets_of cfg" "cf_session_ttl c = cf_session_ttl cfg"
    "gc_scrub_secrets c = filter (\<lambda>x. x \<noteq> []) (secrets_of cfg)"
    "cf_cli_token_ttl c = cf_cli_token_ttl cfg"
    using assms by (auto simp: apply_flags_def secrets_of_def Let_def)
  have "lvl \<in> {L1, L2, L3}" using l by (auto simp: parse_level_def Let_def split: if_splits)
  then show "cf_log_level c \<in> {L1, L2, L3}"
    using assms l by (auto simp: apply_flags_def Let_def)
qed

text \<open>A secret never comes from the command line. Whatever the arguments, a configuration that
  loads has the secrets the environment holds, every non-empty one of them is handed to the log
  scrubber, and the level is one of the three.\<close>

lemma config_secrets_env_only:
  "load_config args env \<in> range Inl \<union> Inr ` {c. secrets_of c = env_secrets env
     \<and> set (gc_scrub_secrets c) = set (env_secrets env) - {[]} \<and> cf_log_level c \<in> {L1, L2, L3}}"
proof (cases rule: load_config_cases [of args env])
  case (loaded lvl asg c)
  have "secrets_of (env_config env lvl) = env_secrets env"
    by (simp add: secrets_of_def env_config_def env_secrets_def)
  with apply_flags_keeps [OF loaded(3)] loaded(4) show ?thesis by auto
qed simp

lemma secrets_loaded:
  "load_config args env = Inr c \<Longrightarrow>
     secrets_of c = env_secrets env \<and> set (gc_scrub_secrets c) = set (env_secrets env) - {[]}"
  using config_secrets_env_only [of args env] by auto

section \<open>Lifetimes\<close>

text \<open>What the environment asks for, in nanoseconds, before Go multiplies 64-bit integers.\<close>

definition asked_ttl :: "(gostring \<Rightarrow> gostring) \<Rightarrow> gostring \<Rightarrow> int \<Rightarrow> int" where
  "asked_ttl env k d =
     (case parse_int64 (trim_space (env k)) of
        Some n \<Rightarrow> if 0 < n then n * second else d | None \<Rightarrow> d)"

lemma ttl_exact:
  assumes "0 < d" and "d \<le> int64_max"
  shows "in_int64 (ttl_from_env env k d)
    \<and> (ttl_from_env env k d = asked_ttl env k d \<longleftrightarrow> asked_ttl env k d \<le> int64_max)"
proof (cases "\<exists>n. parse_int64 (trim_space (env k)) = Some n \<and> 0 < n")
  case True
  then obtain n where n: "parse_int64 (trim_space (env k)) = Some n" "0 < n" by blast
  then have t: "ttl_from_env env k d = wrap64 (n * second)" and a: "asked_ttl env k d = n * second"
    by (simp_all add: ttl_from_env_def asked_ttl_def)
  show ?thesis
  proof (cases "n * second \<le> int64_max")
    case True
    moreover have "int64_min \<le> n * second" using n(2) by (simp add: int64_min_def second_def)
    ultimately show ?thesis using t a by (simp add: wrap64_id in_int64_def)
  next
    case False
    have "wrap64 (n * second) \<le> int64_max" using in_int64_wrap64 [of "n * second"]
      by (simp add: in_int64_def)
    with False t a show ?thesis by auto
  qed
next
  case False
  then have "ttl_from_env env k d = d \<and> asked_ttl env k d = d"
    by (auto simp: ttl_from_env_def asked_ttl_def split: option.split)
  with assms show ?thesis by (simp add: in_int64_def int64_min_def)
qed

text \<open>\<open>C36\<close>: the lifetimes of sessions and of magic-link codes are 64-bit nanoseconds. They are what
  the environment asks for exactly if that many nanoseconds fit; from 9223372037 seconds on the
  multiplication wraps around and the lifetime is another one, negative for that value, with which
  every session is minted expired.\<close>

theorem config_ttl_bounds:
  "load_config args env \<in> range Inl \<union> Inr ` {c.
       in_int64 (cf_session_ttl c) \<and> in_int64 (cf_cli_token_ttl c)
     \<and> (cf_session_ttl c = asked_ttl env ''SESSION_TTL_SECONDS'' (604800 * second)
        \<longleftrightarrow> asked_ttl env ''SESSION_TTL_SECONDS'' (604800 * second) \<le> int64_max)
     \<and> (cf_cli_token_ttl c = asked_ttl env ''CLI_TOKEN_TTL'' (60 * second)
        \<longleftrightarrow> asked_ttl env ''CLI_TOKEN_TTL'' (60 * second) \<le> int64_max)}
   \<and> ttl_from_env (\<lambda>k. ''9223372037'') ''SESSION_TTL_SECONDS'' d < 0"
proof -
  have "trim_space ''9223372037'' = ''9223372037''" by code_simp
  moreover have "parse_int64 ''9223372037'' = Some 9223372037"
    by (simp add: parse_int64_def digits_value_def is_digit_def byte_def in_int64_def
        int64_min_def int64_max_def has_prefix_def Let_def)
  ultimately have o: "ttl_from_env (\<lambda>k. ''9223372037'') ''SESSION_TTL_SECONDS'' d < 0"
    by (simp add: ttl_from_env_def wrap64_def second_def)
  have d: "0 < 604800 * second" "604800 * second \<le> int64_max" "0 < 60 * second" "60 * second \<le> int64_max"
    by (simp_all add: second_def int64_max_def)
  show ?thesis
  proof (cases rule: load_config_cases [of args env])
    case (loaded lvl asg c)
    have "cf_session_ttl c = ttl_from_env env ''SESSION_TTL_SECONDS'' (604800 * second)"
      and "cf_cli_token_ttl c = ttl_from_env env ''CLI_TOKEN_TTL'' (60 * second)"
      using apply_flags_keeps(3,4) [OF loaded(3)] by (simp_all add: env_config_def)
    with ttl_exact [OF d(1,2), of env "''SESSION_TTL_SECONDS''"] ttl_exact [OF d(3,4), of env "''CLI_TOKEN_TTL''"]
      loaded(4) o show ?thesis by simp
  qed (use o in simp)
qed

end
