(* ===== verification/Log_Level.thy ===== *)
theory Log_Level
  imports Operator Config
begin

text \<open>
  \<^verbatim>\<open>loglevel.go\<close>: reading and setting the level of the running logger. \<open>st_level\<close> is the
  \<^verbatim>\<open>LevelVar\<close>, \<open>None\<close> when the server was built without one.
\<close>

definition current_level_string :: "'w server \<Rightarrow> 'w st \<Rightarrow> gostring" where
  "current_level_string sv s =
     level_string (case st_level s of Some l \<Rightarrow> l | None \<Rightarrow> cf_log_level (sv_cfg sv))"

text \<open>The \<^verbatim>\<open>level\<close> field of the body, trimmed; \<open>None\<close> is malformed JSON.\<close>

definition level_body :: "gostring \<Rightarrow> gostring option" where
  "level_body raw =
     (if raw = [] then Some []
      else map_option trim_space
        (Option.bind (json_unmarshal raw) (\<lambda>v. Option.bind (struct_members v) (str_field ''level''))))"

definition level_limit :: nat where
  "level_limit = 4096"

definition set_level :: "'w server \<Rightarrow> int \<Rightarrow> 'w st \<Rightarrow> response \<times> 'w st" where
  "set_level sv l s =
     (if st_level s = None then (err_json 409 ''level_not_mutable'', s)
      else (let prev = current_level_string sv s in
        (write_json 200 (JObj [(''level'', JStr (level_string l)), (''ok'', JBool True),
                               (''previous'', JStr prev)]),
         log_at L1 ''manage.log_level.set'' [AStr ''from'' prev, AStr ''to'' (level_string l)]
           (s\<lparr>st_level := Some l\<rparr>))))"

definition handle_log_level :: "'w server \<Rightarrow> request \<Rightarrow> 'w st \<Rightarrow> response \<times> 'w st" where
  "handle_log_level sv r s =
     (case require_operator sv r of
        Some resp \<Rightarrow> (resp, s)
      | None \<Rightarrow>
          if rq_method r = ''GET''
          then (write_json 200 (JObj [(''level'', JStr (current_level_string sv s)),
                                      (''mutable'', JBool (st_level s \<noteq> None))]), s)
          else (case level_body (read_limited level_limit r) of
              None \<Rightarrow> (err_json 400 ''invalid_json'', s)
            | Some want \<Rightarrow>
                if want = [] then (err_json 400 ''level_required'', s)
                else (case parse_level want of
                    None \<Rightarrow>
                      (write_json 400 (JObj [(''allowed'', JArr (map JStr [''info'', ''debug'', ''trace''])),
                                             (''error'', JStr ''invalid_level'')]), s)
                  | Some l \<Rightarrow> set_level sv l s)))"

section \<open>The level as a state\<close>

text \<open>The level a request asks for, if it is an operator's, well-formed and the level can change.\<close>

definition level_change :: "'w server \<Rightarrow> request \<Rightarrow> 'w st \<Rightarrow> int option" where
  "level_change sv r s =
     (if operator_ok sv r \<and> rq_method r \<noteq> ''GET'' \<and> st_level s \<noteq> None
      then Option.bind (level_body (read_limited level_limit r))
             (\<lambda>want. if want = [] then None else parse_level want)
      else None)"

text \<open>The level changes exactly on an operator's well-formed request to a server that has a
  mutable one, to one of the three levels; the answer is then 200, the change is logged at the level
  that is always visible, and a following read by the operator reports the new level. In every other
  case nothing changes, and the answer is 200 only for an operator's read.\<close>

lemma log_level_transition:
  "case level_change sv r s of
     Some l \<Rightarrow> l \<in> {L1, L2, L3} \<and> rs_status (fst (handle_log_level sv r s)) = 200
       \<and> snd (handle_log_level sv r s) =
           log_at L1 ''manage.log_level.set''
             [AStr ''from'' (current_level_string sv s), AStr ''to'' (level_string l)]
             (s\<lparr>st_level := Some l\<rparr>)
       \<and> fst (handle_log_level sv (r\<lparr>rq_method := ''GET''\<rparr>) (snd (handle_log_level sv r s)))
           = write_json 200 (JObj [(''level'', JStr (level_string l)), (''mutable'', JBool True)])
   | None \<Rightarrow> snd (handle_log_level sv r s) = s
       \<and> (rs_status (fst (handle_log_level sv r s)) = 200
          \<longleftrightarrow> operator_ok sv r \<and> rq_method r = ''GET'')"
proof (cases "level_change sv r s")
  case None
  then show ?thesis
    by (auto simp: level_change_def handle_log_level_def set_level_def require_operator_iff Let_def
        split: if_splits option.splits bind_splits)
next
  case (Some l)
  then obtain want where w: "operator_ok sv r" "rq_method r \<noteq> ''GET''" "st_level s \<noteq> None"
    "level_body (read_limited level_limit r) = Some want" "want \<noteq> []" "parse_level want = Some l"
    by (auto simp: level_change_def Option.bind_eq_Some_conv split: if_splits)
  have h: "handle_log_level sv r s = set_level sv l s"
    using w by (simp add: handle_log_level_def require_operator_iff)
  have "operator_ok sv (r\<lparr>rq_method := ''GET''\<rparr>)"
    using w(1) by (simp add: operator_ok_def rq_header_def)
  moreover have "l \<in> {L1, L2, L3}" using w(6) by (auto simp: parse_level_def Let_def split: if_splits)
  ultimately show ?thesis
    using Some w(3) unfolding h
    by (simp add: set_level_def handle_log_level_def require_operator_iff current_level_string_def Let_def)
qed

end
