(* ===== verification/Diag.thy ===== *)
theory Diag
  imports Operator Effects
begin

text \<open>
  \<^verbatim>\<open>diag.go\<close> with \<^verbatim>\<open>diag_stat_unix.go\<close>: the operator's readiness report of a
  slot. The report is a list of named checks over the store, the hub and the host; the host is a
  parameter that reads the world and leaves it as it is.
\<close>

section \<open>The host\<close>

datatype user_lookup = UserFound int | UserUnknown | UserLookupError gostring

text \<open>\<open>ho_user\<close> is \<^verbatim>\<open>user.Lookup\<close>; \<open>ho_stat\<close> is \<^verbatim>\<open>os.Stat\<close>: whether the path is a
  directory and, where the platform tells it, its owner.\<close>

record 'w host =
  ho_user :: "gostring \<Rightarrow> 'w \<Rightarrow> user_lookup"
  ho_stat :: "gostring \<Rightarrow> 'w \<Rightarrow> (bool \<times> int option) option"

section \<open>The report\<close>

record diag_check =
  dc_check :: gostring
  dc_ok :: bool
  dc_detail :: gostring

definition chk :: "gostring \<Rightarrow> bool \<Rightarrow> gostring \<Rightarrow> diag_check" where
  "chk n ok d = \<lparr>dc_check = n, dc_ok = ok, dc_detail = d\<rparr>"

lemma chk_fields [simp]:
  "dc_check (chk n ok d) = n" "dc_ok (chk n ok d) = ok" "dc_detail (chk n ok d) = d"
  by (simp_all add: chk_def)

type_synonym diag_map = "(gostring \<times> json) list"

record slot_diag_report =
  dr_slot :: gostring
  dr_pb :: diag_map
  dr_jh :: diag_map
  dr_host :: diag_map
  dr_checks :: "diag_check list"
  dr_verdict :: gostring
  dr_hints :: "gostring list"

definition any_map :: "diag_map \<Rightarrow> json" where
  "any_map m = JObj (sort_key fst m)"

definition check_json :: "diag_check \<Rightarrow> json" where
  "check_json c =
     JObj ([(''check'', JStr (dc_check c)), (''ok'', JBool (dc_ok c))]
           @ (if dc_detail c = [] then [] else [(''detail'', JStr (dc_detail c))]))"

definition report_json :: "slot_diag_report \<Rightarrow> json" where
  "report_json d =
     JObj [(''slot'', JStr (dr_slot d)), (''pb'', any_map (dr_pb d)), (''jh'', any_map (dr_jh d)),
           (''host'', any_map (dr_host d)), (''checks'', JArr (map check_json (dr_checks d))),
           (''verdict'', JStr (dr_verdict d)), (''remediation_hints'', JArr (map JStr (dr_hints d)))]"

definition failed_checks :: "diag_check list \<Rightarrow> gostring list" where
  "failed_checks cs = map dc_check (filter (\<lambda>c. \<not> dc_ok c) cs)"

definition verdict_of :: "diag_check list \<Rightarrow> gostring" where
  "verdict_of cs =
     (if failed_checks cs = [] then ''ready'' else ''blocked_at: '' @ join_with '', '' (failed_checks cs))"

section \<open>The checks\<close>

definition pb_part :: "slot \<Rightarrow> diag_map \<times> diag_check list" where
  "pb_part sl =
     ([(''state'', JStr (sl_state sl)), (''minio_access_key'', JStr (sl_minio_access_key sl)),
       (''group'', JStr (sl_group sl)), (''cred_source'', JStr (sl_cred_source sl))],
      [chk ''pb_row_present'' True [],
       chk ''pb_state_claimed'' (sl_state sl = ''claimed'')
         (''state='' @ [chr_of 39] @ sl_state sl @ [chr_of 39])])"

definition hub_token_part :: "config \<Rightarrow> diag_map \<times> diag_check list" where
  "hub_token_part cfg =
     (let tok = cf_jupyterhub_admin_token cfg;
          base = [(''api_url'', JStr (cf_jupyterhub_api_url cfg)),
                  (''admin_token_len'', JNum (itoa (int (length tok))))] in
      if tok = []
      then (base @ [(''admin_token_prefix'', JStr ''(unset)'')],
            [chk ''jh_admin_token_real'' False ''JUPYTERHUB_API_TOKEN unset''])
      else (base @ [(''admin_token_prefix'', JStr (take 8 tok))],
            [if contains tok ''REPLACE_WITH''
             then chk ''jh_admin_token_real'' False
                    ''placeholder value (install-auth-svc.sh did not substitute)''
             else if length tok < 32 then chk ''jh_admin_token_real'' False ''suspiciously short''
             else chk ''jh_admin_token_real'' True []]))"

text \<open>The arrow of the detail text in UTF-8.\<close>

definition arrow :: gostring where
  "arrow = map chr_of [226, 134, 146]"

definition hub_user_part :: "'w server \<Rightarrow> gostring \<Rightarrow> 'w st \<Rightarrow> (json \<times> diag_check) \<times> 'w st" where
  "hub_user_part sv n s =
     (case hub_user_exists (up_hub (sv_up sv)) of
        None \<Rightarrow>
          ((JNull, chk ''jh_user_present'' False ''hub minter does not implement HubUserExister''), s)
      | Some probe \<Rightarrow>
          (case io (UserExists n) (probe n) s of
             (Inl e, s1) \<Rightarrow>
               ((JNull, chk ''jh_user_present'' False (''probe failed: '' @ error_text e)), s1)
           | (Inr None, s1) \<Rightarrow> ((JNull, chk ''jh_user_present'' False ''probe inconclusive''), s1)
           | (Inr (Some True), s1) \<Rightarrow> ((JBool True, chk ''jh_user_present'' True []), s1)
           | (Inr (Some False), s1) \<Rightarrow>
               ((JBool False, chk ''jh_user_present'' False
                   (''GET /users/'' @ n @ '' '' @ arrow @ '' 404'')), s1)))"

definition system_user :: "gostring \<Rightarrow> gostring" where
  "system_user n = ''jupyter-'' @ n"

text \<open>The unix user: its uid (minus one when there is none), what is reported, the check.\<close>

definition unix_user_part :: "user_lookup \<Rightarrow> gostring \<Rightarrow> int \<times> json \<times> diag_check" where
  "unix_user_part x n =
     (case x of
        UserFound uid \<Rightarrow>
          (uid, JObj [(''exists'', JBool True), (''name'', JStr (system_user n)),
                      (''uid'', JNum (itoa uid))],
           chk ''unix_user_present'' True [])
      | UserUnknown \<Rightarrow>
          (-1, JObj [(''exists'', JBool False), (''name'', JStr (system_user n))],
           chk ''unix_user_present'' False (''no system user '' @ system_user n @ '' on this host''))
      | UserLookupError t \<Rightarrow>
          (-1, JObj [(''error'', JStr t), (''exists'', JBool False), (''name'', JStr (system_user n))],
           chk ''unix_user_present'' False (''lookup error: '' @ t)))"

definition home_path :: "gostring \<Rightarrow> gostring" where
  "home_path n = ''/data/workbench/'' @ n @ ''/home''"

definition home_part :: "(bool \<times> int option) option \<Rightarrow> int \<Rightarrow> gostring \<Rightarrow> json \<times> diag_check list" where
  "home_part x uid home =
     (let base = [(''path'', JStr home)] in
      case x of
        Some (True, Some owner) \<Rightarrow>
          (any_map (base @ [(''exists'', JBool True), (''owner_uid'', JNum (itoa owner)),
                            (''owner_matches'', JBool (0 \<le> uid \<and> owner = uid))]),
           chk ''workbench_home_present'' True []
             # (if 0 \<le> uid \<and> owner \<noteq> uid
                then [chk ''workbench_home_owned_by_user'' False
                        (''owner uid '' @ itoa owner @ '' != '' @ itoa uid)]
                else if 0 \<le> uid then [chk ''workbench_home_owned_by_user'' True []] else []))
      | Some (True, None) \<Rightarrow>
          (any_map (base @ [(''exists'', JBool True), (''owner_uid'', JNull)]),
           [chk ''workbench_home_present'' True []])
      | _ \<Rightarrow>
          (any_map (base @ [(''exists'', JBool False)]),
           [chk ''workbench_home_present'' False (''missing: '' @ home)]))"

definition file_part :: "bool \<Rightarrow> gostring \<Rightarrow> gostring \<Rightarrow> (gostring \<times> json) \<times> diag_check" where
  "file_part present label path =
     ((label, JObj [(''exists'', JBool present), (''path'', JStr path)]),
      if present then chk (label @ ''_present'') True []
      else chk (label @ ''_present'') False (''missing: '' @ path))"

section \<open>Remediation\<close>

definition ellipsis :: gostring where
  "ellipsis = map chr_of [226, 128, 166]"

definition em_dash :: gostring where
  "em_dash = map chr_of [226, 128, 148]"

definition quoted :: "gostring \<Rightarrow> gostring" where
  "quoted t = [chr_of 39] @ t @ [chr_of 39]"

definition home_hints :: "gostring list \<Rightarrow> gostring \<Rightarrow> gostring list" where
  "home_hints failed n =
     (let u = system_user n; h = home_path n in
      if ''workbench_home_present'' \<in> set failed
      then [''mkdir -p '' @ h @ '' && chown -R '' @ u @ '':'' @ u @ '' '' @ h @ '' && chmod 750 '' @ h]
      else if ''workbench_home_owned_by_user'' \<in> set failed
      then [''chown -R '' @ u @ '':'' @ u @ '' '' @ h] else [])"

definition diag_hints :: "config \<Rightarrow> gostring list \<Rightarrow> gostring \<Rightarrow> slot \<Rightarrow> gostring list" where
  "diag_hints cfg failed n sl =
     home_hints failed n
     @ (if ''jh_user_present'' \<in> set failed
        then [''User auto-creates on first browser login at https://workbench'' @ ellipsis
              @ ''/ (Caddy injects Remote-User='' @ n @ ''); OR pre-create: curl -X POST -H ''
              @ quoted ''Authorization: token <admin>'' @ '' '' @ cf_jupyterhub_api_url cfg
              @ ''/users/'' @ n]
        else [])
     @ (if ''minio_creds_file_present'' \<in> set failed \<or> ''abc_config_file_present'' \<in> set failed
        then [''bash provision-pool-user.sh '' @ n @ '' <minio_secret_key>  # OR POST /manage/slots/''
              @ n @ ''/rotate to re-mint creds'']
        else [])
     @ (if ''jh_admin_token_real'' \<in> set failed
        then [''Re-run install-auth-svc.sh to substitute the JUPYTERHUB_API_TOKEN placeholder, then alloc-restart auth-svc'']
        else [])
     @ (if ''pb_state_claimed'' \<in> set failed \<and> sl_state sl = ''unclaimed''
        then [''Slot '' @ quoted n @ '' is unclaimed in PocketBase '' @ em_dash
              @ '' flow it through POST /slots/claim with a claim_code, or manually update the PB record to state=''
              @ quoted ''claimed'']
        else [])"

section \<open>The handler\<close>

definition host_part ::
  "'w host \<Rightarrow> gostring \<Rightarrow> 'w \<Rightarrow> diag_map \<times> diag_check list" where
  "host_part ho n w =
     (let (uid, uj, uc) = unix_user_part (ho_user ho (system_user n) w) n;
          (hj, hcs) = home_part (ho_stat ho (home_path n) w) uid (home_path n);
          mp = ''/etc/jupyterhub/minio-creds/'' @ n;
          ap = ''/etc/jupyterhub/abc-configs/'' @ n;
          (mj, mc) = file_part (ho_stat ho mp w \<noteq> None) ''minio_creds_file'' mp;
          (aj, ac) = file_part (ho_stat ho ap w \<noteq> None) ''abc_config_file'' ap
      in ([(''unix_user'', uj), (''workbench_home'', hj), mj, aj], uc # hcs @ [mc, ac]))"

definition blocked_report :: "gostring \<Rightarrow> gostring \<Rightarrow> slot_diag_report" where
  "blocked_report n detail =
     \<lparr>dr_slot = n, dr_pb = [], dr_jh = [], dr_host = [],
      dr_checks = [chk ''pb_row_present'' False detail],
      dr_verdict = ''blocked_at: pb_row_present'', dr_hints = []\<rparr>"

definition full_report :: "'w server \<Rightarrow> 'w host \<Rightarrow> gostring \<Rightarrow> slot \<Rightarrow> 'w st \<Rightarrow> slot_diag_report \<times> 'w st" where
  "full_report sv ho n sl s =
     (let (pb, pcs) = pb_part sl;
          (jh, jcs) = hub_token_part (sv_cfg sv) in
      case hub_user_part sv n s of
        ((uj, uc), s1) \<Rightarrow>
          (let (hm, hcs) = host_part ho n (st_world s1);
               checks = pcs @ jcs @ uc # hcs
           in (\<lparr>dr_slot = n, dr_pb = pb,
                dr_jh = jh @ [(''user_name_checked'', JStr n), (''user_exists'', uj)],
                dr_host = hm, dr_checks = checks, dr_verdict = verdict_of checks,
                dr_hints = diag_hints (sv_cfg sv) (failed_checks checks) n sl\<rparr>, s1)))"

definition handle_slot_diag :: "'w server \<Rightarrow> 'w host \<Rightarrow> request \<Rightarrow> 'w st \<Rightarrow> response \<times> 'w st" where
  "handle_slot_diag sv ho r s =
     (case require_operator sv r of
        Some resp \<Rightarrow> (resp, s)
      | None \<Rightarrow>
          (let n = rq_slot r; early = (\<lambda>d. write_json 200 (report_json (blocked_report n d))) in
           if n = [] then (err_json 400 ''missing_slot'', s)
           else (case up_store (sv_up sv) of
               None \<Rightarrow> (early ''store not configured'', s)
             | Some ss \<Rightarrow>
                 (let q = eq_filter ''slot_name'' n in
                  case io (FindSlot q) (ss_find_slot ss q) s of
                    (Inl e, s1) \<Rightarrow> (early (''lookup error: '' @ error_text e), s1)
                  | (Inr None, s1) \<Rightarrow> (early ''no record'', s1)
                  | (Inr (Some sl), s1) \<Rightarrow>
                      (case full_report sv ho n sl s1 of
                         (d, s2) \<Rightarrow>
                           (mk_response 200 [(''Content-Type'', ''application/json'')] []
                              (JsonIndented (report_json d)),
                            log_at L1 ''manage.slot_diag''
                              [AStr ''slot'' n, AStr ''verdict'' (dr_verdict d)] s2))))))"

section \<open>What the report means\<close>

text \<open>The conditions a ready slot meets, stated without the report.\<close>

definition slot_ready :: "config \<Rightarrow> 'w host \<Rightarrow> gostring \<Rightarrow> slot \<Rightarrow> bool option \<Rightarrow> 'w \<Rightarrow> bool" where
  "slot_ready cfg ho n sl hub_user w \<longleftrightarrow>
     sl_state sl = ''claimed''
     \<and> 32 \<le> length (cf_jupyterhub_admin_token cfg)
     \<and> \<not> contains (cf_jupyterhub_admin_token cfg) ''REPLACE_WITH''
     \<and> hub_user = Some True
     \<and> (\<exists>uid. ho_user ho (''jupyter-'' @ n) w = UserFound uid
          \<and> (\<exists>owner. ho_stat ho (''/data/workbench/'' @ n @ ''/home'') w = Some (True, owner)
               \<and> (0 \<le> uid \<and> owner \<noteq> None \<longrightarrow> owner = Some uid)))
     \<and> ho_stat ho (''/etc/jupyterhub/minio-creds/'' @ n) w \<noteq> None
     \<and> ho_stat ho (''/etc/jupyterhub/abc-configs/'' @ n) w \<noteq> None"

definition probed_user :: "'w server \<Rightarrow> gostring \<Rightarrow> 'w \<Rightarrow> bool option" where
  "probed_user sv n w =
     (case hub_user_exists (up_hub (sv_up sv)) of
        None \<Rightarrow> None
      | Some probe \<Rightarrow> (case fst (probe n w) of Inl e \<Rightarrow> None | Inr x \<Rightarrow> x))"

lemma failed_checks_append: "failed_checks (xs @ ys) = failed_checks xs @ failed_checks ys"
  by (simp add: failed_checks_def)

lemma failed_checks_Cons:
  "failed_checks (c # cs) = (if dc_ok c then failed_checks cs else dc_check c # failed_checks cs)"
  by (simp add: failed_checks_def)

lemma failed_checks_Nil [simp]: "failed_checks [] = []"
  by (simp add: failed_checks_def)

lemma verdict_ready: "verdict_of cs = ''ready'' \<longleftrightarrow> failed_checks cs = []"
  by (simp add: verdict_of_def)

lemma unix_user_part_ok: "dc_ok (snd (snd (unix_user_part x n))) \<longleftrightarrow> x = UserFound (fst (unix_user_part x n))"
  by (cases x) (simp_all add: unix_user_part_def)

lemma home_part_ok:
  "failed_checks (snd (home_part x uid h)) = [] \<longleftrightarrow>
     (\<exists>owner. x = Some (True, owner) \<and> (0 \<le> uid \<and> owner \<noteq> None \<longrightarrow> owner = Some uid))"
proof (cases x)
  case None
  then show ?thesis by (simp add: home_part_def failed_checks_Cons)
next
  case (Some p)
  obtain d owner where "p = (d, owner)" by force
  with Some show ?thesis
    by (cases d; cases owner) (simp_all add: home_part_def failed_checks_Cons)
qed

lemma file_part_ok: "dc_ok (snd (file_part present l path)) = present"
  by (simp add: file_part_def)

lemma host_part_ok:
  "failed_checks (snd (host_part ho n w)) = [] \<longleftrightarrow>
     (\<exists>uid. ho_user ho (''jupyter-'' @ n) w = UserFound uid
          \<and> (\<exists>owner. ho_stat ho (''/data/workbench/'' @ n @ ''/home'') w = Some (True, owner)
               \<and> (0 \<le> uid \<and> owner \<noteq> None \<longrightarrow> owner = Some uid)))
     \<and> ho_stat ho (''/etc/jupyterhub/minio-creds/'' @ n) w \<noteq> None
     \<and> ho_stat ho (''/etc/jupyterhub/abc-configs/'' @ n) w \<noteq> None"
proof -
  let ?x = "ho_user ho (''jupyter-'' @ n) w"
  have "failed_checks (snd (host_part ho n w)) = [] \<longleftrightarrow>
      ?x = UserFound (fst (unix_user_part ?x n))
      \<and> (\<exists>owner. ho_stat ho (''/data/workbench/'' @ n @ ''/home'') w = Some (True, owner)
           \<and> (0 \<le> fst (unix_user_part ?x n) \<and> owner \<noteq> None \<longrightarrow> owner = Some (fst (unix_user_part ?x n))))
      \<and> ho_stat ho (''/etc/jupyterhub/minio-creds/'' @ n) w \<noteq> None
      \<and> ho_stat ho (''/etc/jupyterhub/abc-configs/'' @ n) w \<noteq> None"
    by (simp add: host_part_def Let_def case_prod_beta failed_checks_append failed_checks_Cons
        unix_user_part_ok home_part_ok file_part_ok system_user_def home_path_def)
  then show ?thesis by (cases ?x) (simp_all add: unix_user_part_def)
qed

lemma hub_token_part_ok:
  "failed_checks (snd (hub_token_part cfg)) = [] \<longleftrightarrow>
     32 \<le> length (cf_jupyterhub_admin_token cfg)
     \<and> \<not> contains (cf_jupyterhub_admin_token cfg) ''REPLACE_WITH''"
  by (auto simp: hub_token_part_def failed_checks_Cons Let_def)

lemma hub_user_part_ok:
  "hub_user_part sv n s = ((j, c), s1) \<Longrightarrow>
     (dc_ok c \<longleftrightarrow> probed_user sv n (st_world s) = Some True)"
  by (auto simp: hub_user_part_def probed_user_def io_def
      split: option.splits sum.splits prod.splits bool.splits)

lemma full_report_verdict:
  "dr_verdict (fst (full_report sv ho n sl s)) = ''ready'' \<longleftrightarrow>
     slot_ready (sv_cfg sv) ho n sl (probed_user sv n (st_world s))
       (st_world (snd (full_report sv ho n sl s)))"
proof -
  obtain uj uc s1 where u: "hub_user_part sv n s = ((uj, uc), s1)" by (metis prod.collapse)
  have "failed_checks (snd (pb_part sl)) = [] \<longleftrightarrow> sl_state sl = ''claimed''"
    by (simp add: pb_part_def failed_checks_Cons)
  with host_part_ok [of ho n "st_world s1"] hub_token_part_ok [of "sv_cfg sv"] hub_user_part_ok [OF u]
  show ?thesis
    by (auto simp: full_report_def u slot_ready_def verdict_ready failed_checks_append
        failed_checks_Cons case_prod_beta Let_def split: if_splits)
qed

text \<open>The readiness report is an operator's read: it makes no call but the slot lookup and the
  hub probe, and its verdict is \<^verbatim>\<open>ready\<close> exactly if the slot is claimed, the hub's admin token
  looks real, the hub knows the user, and the host has the unix user, the home owned by it and the
  two credential files.\<close>

lemma diag_verdict:
  "fst ` set (calls_since s (snd (handle_slot_diag sv ho r s)))
      \<subseteq> {FindSlot (eq_filter ''slot_name'' (rq_slot r)), UserExists (rq_slot r)}
   \<and> (dr_verdict (fst (full_report sv ho n sl s)) = ''ready'' \<longleftrightarrow>
        slot_ready (sv_cfg sv) ho n sl (probed_user sv n (st_world s))
          (st_world (snd (full_report sv ho n sl s))))
   \<and> (case handle_slot_diag sv ho r s of
        (resp, s') \<Rightarrow> rs_status resp \<in> {200, 400, 401} \<and> (rs_status resp = 401 \<longleftrightarrow> \<not> operator_ok sv r))"
proof (intro conjI full_report_verdict)
  have f: "within {FindSlot (eq_filter ''slot_name'' (rq_slot r)), UserExists (rq_slot r)} UNIV s s2"
    if "full_report sv ho (rq_slot r) sl s1 = (d, s2)"
      "within {FindSlot (eq_filter ''slot_name'' (rq_slot r)), UserExists (rq_slot r)} UNIV s s1"
    for sl s1 d s2
    using that
    by (auto simp: full_report_def hub_user_part_def Let_def
        split: prod.splits option.splits sum.splits bool.splits elim!: within_io)
  have "within {FindSlot (eq_filter ''slot_name'' (rq_slot r)), UserExists (rq_slot r)} UNIV s
      (snd (handle_slot_diag sv ho r s))"
    by (auto simp: handle_slot_diag_def Let_def split: option.split prod.split sum.split
        intro!: within_log elim!: within_io f)
  then show "fst ` set (calls_since s (snd (handle_slot_diag sv ho r s)))
      \<subseteq> {FindSlot (eq_filter ''slot_name'' (rq_slot r)), UserExists (rq_slot r)}"
    by (rule within_calls)
  show "case handle_slot_diag sv ho r s of (resp, s') \<Rightarrow>
      rs_status resp \<in> {200, 400, 401} \<and> (rs_status resp = 401 \<longleftrightarrow> \<not> operator_ok sv r)"
    by (auto simp: handle_slot_diag_def require_operator_iff Let_def
        split: option.splits prod.splits sum.splits if_splits)
qed

end
