(* ===== verification/Redact.thy ===== *)
theory Redact
  imports Mock_Upstreams Json
begin

text \<open>
  \<^verbatim>\<open>redact.go\<close> and the logger of \<^verbatim>\<open>log.go\<close>: a record passes the exact-value
  scrub of the service's own secrets first, then the redaction by field name and by value pattern,
  and then the JSON handler with its level. The four value patterns are regular expressions; the
  matcher below returns the rests of the input after every possible match in the order of preference
  of \<^verbatim>\<open>regexp\<close> (leftmost, then as a backtracking search would choose), so its first element
  is the match.
\<close>

section \<open>Regular expressions\<close>

datatype regex =
    RLit gostring
  | RByte "char \<Rightarrow> bool"
  | RNot "char \<Rightarrow> bool"
  | RSeq regex regex
  | RBetween regex nat nat
  | RAtLeast regex nat
  | RLazy regex

definition drop_rune :: "gostring \<Rightarrow> gostring" where
  "drop_rune t = drop (max 1 (snd (decode_rune t))) t"

fun exactly :: "(gostring \<Rightarrow> gostring list) \<Rightarrow> nat \<Rightarrow> gostring \<Rightarrow> gostring list" where
  "exactly f 0 t = [t]"
| "exactly f (Suc n) t = concat (map (exactly f n) (f t))"

fun greedy :: "(gostring \<Rightarrow> gostring list) \<Rightarrow> nat \<Rightarrow> gostring \<Rightarrow> gostring list" where
  "greedy f 0 t = [t]"
| "greedy f (Suc n) t = concat (map (greedy f n) (f t)) @ [t]"

fun lazy :: "(gostring \<Rightarrow> gostring list) \<Rightarrow> nat \<Rightarrow> gostring \<Rightarrow> gostring list" where
  "lazy f 0 t = [t]"
| "lazy f (Suc n) t = t # concat (map (lazy f n) (f t))"

text \<open>An unbounded repetition cannot iterate more often than the input has bytes, since every body
  used below consumes input.\<close>

primrec matches :: "regex \<Rightarrow> gostring \<Rightarrow> gostring list" where
  "matches (RLit p) = (\<lambda>t. if has_prefix t p then [drop (length p) t] else [])"
| "matches (RByte f) = (\<lambda>t. case t of [] \<Rightarrow> [] | c # cs \<Rightarrow> if f c then [cs] else [])"
| "matches (RNot f) = (\<lambda>t. case t of [] \<Rightarrow> [] | c # cs \<Rightarrow> if f c then [] else [drop_rune t])"
| "matches (RSeq a b) = (\<lambda>t. concat (map (matches b) (matches a t)))"
| "matches (RBetween a m n) =
     (\<lambda>t. concat (map (greedy (matches a) (n - m)) (exactly (matches a) m t)))"
| "matches (RAtLeast a m) =
     (\<lambda>t. concat (map (\<lambda>u. greedy (matches a) (length u) u) (exactly (matches a) m t)))"
| "matches (RLazy a) = (\<lambda>t. lazy (matches a) (length t) t)"

text \<open>\<^verbatim>\<open>ReplaceAllString\<close> with a replacement that has no group reference.\<close>

function regex_replace :: "regex \<Rightarrow> gostring \<Rightarrow> gostring \<Rightarrow> gostring" where
  "regex_replace re r [] = []"
| "regex_replace re r (c # cs) =
     (case matches re (c # cs) of
        [] \<Rightarrow> c # regex_replace re r cs
      | t # ts \<Rightarrow> if length t \<le> length cs then r @ regex_replace re r t
                 else c # regex_replace re r cs)"
  by pat_completeness auto
termination
  by (relation "measure (\<lambda>(re, r, t). length t)") auto

section \<open>Values\<close>

definition key_byte :: "char \<Rightarrow> bool" where
  "key_byte c \<longleftrightarrow>
     (let n = byte c in 97 \<le> n \<and> n \<le> 122 \<or> 65 \<le> n \<and> n \<le> 90 \<or> 48 \<le> n \<and> n \<le> 57 \<or> n = 45 \<or> n = 95)"

definition space_byte :: "char \<Rightarrow> bool" where
  "space_byte c \<longleftrightarrow> byte c \<in> {9, 10, 12, 13, 32}"

definition pem_edge :: "gostring \<Rightarrow> regex" where
  "pem_edge w =
     RSeq (RLit (''-----'' @ w @ '' '')) (RSeq (RBetween (RNot (\<lambda>c. False)) 0 30) (RLit ''PRIVATE KEY-----''))"

definition value_patterns :: "(regex \<times> gostring) list" where
  "value_patterns =
     [(RSeq (pem_edge ''BEGIN'') (RSeq (RLazy (RNot (\<lambda>c. False))) (pem_edge ''END'')),
       ''[REDACTED: private-key]''),
      (RSeq (RLit ''tskey-auth-'') (RAtLeast (RByte key_byte) 10), ''[REDACTED: tailscale-key]''),
      (RSeq (RByte (\<lambda>c. c = CHR ''B'' \<or> c = CHR ''b''))
         (RSeq (RLit ''earer '') (RAtLeast (RByte (\<lambda>c. key_byte c \<or> c = CHR ''.'')) 20)),
       ''Bearer [REDACTED]''),
      (RSeq (RLit ''://'')
         (RSeq (RAtLeast (RNot (\<lambda>c. c \<in> {CHR '':'', CHR ''@'', CHR ''/''} \<or> space_byte c)) 1)
            (RSeq (RLit '':'')
               (RSeq (RAtLeast (RNot (\<lambda>c. c \<in> {CHR ''@'', CHR ''/''} \<or> space_byte c)) 6) (RLit ''@'')))),
       ''://[REDACTED]@'')]"

definition redact_value :: "gostring \<Rightarrow> gostring" where
  "redact_value t = foldl (\<lambda>u (re, r). regex_replace re r u) t value_patterns"

section \<open>Field names\<close>

definition sensitive_keys :: "gostring list" where
  "sensitive_keys =
     [''password'', ''pass'', ''passwd'', ''private_key'', ''pem'', ''secret'', ''secret_key'',
      ''access_token'', ''upload_token'', ''token'', ''bearer_token'', ''auth_key'',
      ''tailscale_auth_key'', ''ts_authkey'', ''credential'', ''credentials'', ''session_secret'',
      ''nomad_token'', ''claim_code'', ''opaque_token'', ''cookie'', ''authorization'']"

definition sensitive :: "gostring \<Rightarrow> bool" where
  "sensitive k \<longleftrightarrow> to_lower k \<in> set sensitive_keys"

definition redacted_text :: gostring where
  "redacted_text = ''[REDACTED]''"

fun redact_attr :: "attr \<Rightarrow> attr" where
  "redact_attr (AStr k v) = (if sensitive k then AStr k redacted_text else AStr k (redact_value v))"
| "redact_attr (AInt k n) = (if sensitive k then AStr k redacted_text else AInt k n)"
| "redact_attr (ABool k b) = (if sensitive k then AStr k redacted_text else ABool k b)"
| "redact_attr (AGroup k as) =
     (if sensitive k then AStr k redacted_text else AGroup k (map redact_attr as))"
| "redact_attr (AAny k v) = (if sensitive k then AStr k redacted_text else AAny k v)"

definition redact_record :: "log_record \<Rightarrow> log_record" where
  "redact_record r = r\<lparr>lg_attrs := map redact_attr (lg_attrs r)\<rparr>"

section \<open>The service's own secrets\<close>

definition secret_mark :: gostring where
  "secret_mark = ''[REDACTED:secret]''"

text \<open>\<^verbatim>\<open>strings.ReplaceAll\<close> of a non-empty text.\<close>

function replace_lit :: "gostring \<Rightarrow> gostring \<Rightarrow> gostring" where
  "replace_lit q [] = []"
| "replace_lit q (c # cs) =
     (if q \<noteq> [] \<and> has_prefix (c # cs) q
      then secret_mark @ replace_lit q (drop (length q) (c # cs))
      else c # replace_lit q cs)"
  by pat_completeness auto
termination
  by (relation "measure (\<lambda>(q, t). length t)") auto

definition keep_secrets :: "gostring list \<Rightarrow> gostring list" where
  "keep_secrets secs =
     sort_key (\<lambda>q. - int (length q))
       (foldl (\<lambda>ks q. if 6 \<le> length (trim_space q) \<and> trim_space q \<notin> set ks
                      then ks @ [trim_space q] else ks) [] secs)"

definition scrub :: "gostring list \<Rightarrow> gostring \<Rightarrow> gostring" where
  "scrub qs t = foldl (\<lambda>u q. replace_lit q u) t qs"

fun scrub_attr :: "gostring list \<Rightarrow> attr \<Rightarrow> attr" where
  "scrub_attr qs (AStr k v) = AStr k (scrub qs v)"
| "scrub_attr qs (AInt k n) = AInt k n"
| "scrub_attr qs (ABool k b) = ABool k b"
| "scrub_attr qs (AGroup k as) = AGroup k (map (scrub_attr qs) as)"
| "scrub_attr qs (AAny k v) = AAny k v"

definition scrub_record :: "gostring list \<Rightarrow> log_record \<Rightarrow> log_record" where
  "scrub_record qs r =
     r\<lparr>lg_msg := scrub qs (lg_msg r), lg_attrs := map (scrub_attr qs) (lg_attrs r)\<rparr>"

text \<open>What the JSON handler writes: nothing below the level, else the record with the attributes
  bound to the logger, scrubbed and redacted alike, in front.\<close>

definition wrap_scrub :: "gostring list \<Rightarrow> log_record \<Rightarrow> log_record" where
  "wrap_scrub secs r = (let qs = keep_secrets secs in if qs = [] then r else scrub_record qs r)"

definition logger_output :: "int \<Rightarrow> gostring list \<Rightarrow> attr list \<Rightarrow> log_record \<Rightarrow> log_record option" where
  "logger_output level secs bound r =
     (if lg_level r < level then None
      else Some (redact_record (wrap_scrub secs (r\<lparr>lg_attrs := bound @ lg_attrs r\<rparr>))))"

section \<open>No value under a sensitive name\<close>

fun hidden :: "attr \<Rightarrow> bool" where
  "hidden (AStr k v) \<longleftrightarrow> (if sensitive k then v = redacted_text else True)"
| "hidden (AInt k n) \<longleftrightarrow> \<not> sensitive k"
| "hidden (ABool k b) \<longleftrightarrow> \<not> sensitive k"
| "hidden (AGroup k as) \<longleftrightarrow> \<not> sensitive k \<and> list_all hidden as"
| "hidden (AAny k v) \<longleftrightarrow> \<not> sensitive k"

lemma redact_attr_hidden: "hidden (redact_attr a)"
  by (induction a rule: redact_attr.induct) (auto simp: list_all_iff)

text \<open>In whatever is written, at whatever depth of groups, an attribute whose name is
  sensitive up to case has the placeholder as its value; and nothing is written below the level.\<close>

lemma logger_hides_fields:
  "case logger_output level secs bound r of
     None \<Rightarrow> lg_level r < level
   | Some out \<Rightarrow> level \<le> lg_level r \<and> lg_level out = lg_level r \<and> list_all hidden (lg_attrs out)"
  by (auto simp: logger_output_def redact_record_def wrap_scrub_def scrub_record_def Let_def
      list_all_iff redact_attr_hidden)

section \<open>No secret after the scrub\<close>

text \<open>Every string of a record; values of other kinds, such as a recovered panic that is an error,
  are not scrubbed.\<close>

fun attr_texts :: "attr \<Rightarrow> gostring list" where
  "attr_texts (AStr k v) = [v]"
| "attr_texts (AInt k n) = []"
| "attr_texts (ABool k b) = []"
| "attr_texts (AGroup k as) = concat (map attr_texts as)"
| "attr_texts (AAny k v) = []"

definition record_texts :: "log_record \<Rightarrow> gostring set" where
  "record_texts r = insert (lg_msg r) (set (concat (map attr_texts (lg_attrs r))))"

lemma has_prefix_prefix: "has_prefix t p \<longleftrightarrow> prefix p t"
  by (auto simp: has_prefix_iff prefix_def)

lemma contains_Cons: "contains (c # cs) q \<longleftrightarrow> has_prefix (c # cs) q \<or> contains cs q"
  by (simp add: contains_def sublist_Cons_right has_prefix_prefix)

lemma contains_Nil: "contains [] q \<longleftrightarrow> q = []"
  by (simp add: contains_def)

lemma contains_drop: "contains (drop n t) q \<Longrightarrow> contains t q"
  unfolding contains_def by (meson sublist_drop sublist_order.order.trans)

lemma contains_cut:
  assumes "b \<notin> set q" and "contains (s @ b # t) q"
  shows "contains s q \<or> contains t q"
  using assms
proof (induction s)
  case Nil
  then show ?case by (cases q) (auto simp: contains_Cons contains_Nil)
next
  case (Cons c s)
  show ?case
  proof (cases "has_prefix (c # s @ b # t) q")
    case True
    then obtain u where u: "c # s @ b # t = q @ u" by (auto simp: has_prefix_iff)
    have "length q \<le> length (c # s)"
    proof (rule ccontr)
      assume "\<not> length q \<le> length (c # s)"
      then have "(c # s @ b # t) ! length (c # s) \<in> set q"
        using u by (metis not_le nth_append nth_mem)
      then show False using Cons.prems(1) by (simp add: nth_append)
    qed
    then have "has_prefix (c # s) q"
      using u by (metis append_Cons has_prefix_def take_all take_append take_take append_eq_conv_conj min_absorb1)
    then show ?thesis by (simp add: contains_Cons)
  next
    case False
    with Cons show ?thesis by (auto simp: contains_Cons)
  qed
qed

text \<open>A secret that the scrub can be trusted with: no bracket, and not part of the placeholder.\<close>

definition scrubbable :: "gostring \<Rightarrow> bool" where
  "scrubbable q \<longleftrightarrow>
     q \<noteq> [] \<and> CHR ''['' \<notin> set q \<and> CHR '']'' \<notin> set q \<and> \<not> contains ''REDACTED:secret'' q"

lemma mark_split: "secret_mark @ t = [] @ CHR ''['' # (''REDACTED:secret'' @ CHR '']'' # t)"
  by (simp add: secret_mark_def)

lemma contains_mark: "scrubbable q \<Longrightarrow> contains (secret_mark @ t) q \<Longrightarrow> contains t q"
  unfolding mark_split
  by (metis contains_cut contains_Nil scrubbable_def)

lemma replace_lit_hit:
  "q \<noteq> [] \<and> has_prefix (c # cs) q \<Longrightarrow>
     replace_lit q (c # cs) = secret_mark @ replace_lit q (drop (length q) (c # cs))"
  by simp

lemma replace_lit_miss:
  "\<not> (q \<noteq> [] \<and> has_prefix (c # cs) q) \<Longrightarrow> replace_lit q (c # cs) = c # replace_lit q cs"
  by (simp only: replace_lit.simps if_False)

declare replace_lit.simps(2) [simp del]

lemma replace_prefix:
  "CHR ''['' \<notin> set p \<Longrightarrow> has_prefix (replace_lit q t) p \<Longrightarrow> has_prefix t p"
proof (induction q t arbitrary: p rule: replace_lit.induct)
  case (1 q)
  then show ?case by simp
next
  case (2 q c cs)
  show ?case
  proof (cases "q \<noteq> [] \<and> has_prefix (c # cs) q")
    case True
    from "2.prems" show ?thesis
      unfolding replace_lit_hit [OF True] by (cases p) (auto simp: secret_mark_def)
  next
    case False
    show ?thesis
    proof (cases p)
      case (Cons d ds)
      with "2.prems" have "d = c" "has_prefix (replace_lit q cs) ds" "CHR ''['' \<notin> set ds"
        unfolding replace_lit_miss [OF False] by simp_all
      with 2(2) [OF False] Cons show ?thesis by simp
    qed simp
  qed
qed

lemma replace_keeps_free:
  "scrubbable p \<Longrightarrow> \<not> contains t p \<Longrightarrow> \<not> contains (replace_lit q t) p"
proof (induction q t rule: replace_lit.induct)
  case (1 q)
  then show ?case by simp
next
  case (2 q c cs)
  have b: "CHR ''['' \<notin> set p" using 2(3) by (simp add: scrubbable_def)
  show ?case
  proof (cases "q \<noteq> [] \<and> has_prefix (c # cs) q")
    case True
    have "\<not> contains (drop (length q) (c # cs)) p" using 2(4) contains_drop by blast
    with 2(1) [OF True 2(3)] show ?thesis
      unfolding replace_lit_hit [OF True] using contains_mark [OF 2(3)] by blast
  next
    case False
    have "\<not> contains cs p" using 2(4) by (simp add: contains_Cons)
    with 2(2) [OF False 2(3)] have "\<not> contains (replace_lit q cs) p" by simp
    moreover have "\<not> has_prefix (replace_lit q (c # cs)) p"
      using replace_prefix [OF b] 2(4) contains_Cons by blast
    ultimately show ?thesis unfolding replace_lit_miss [OF False] contains_Cons by blast
  qed
qed

lemma replace_frees: "scrubbable q \<Longrightarrow> \<not> contains (replace_lit q t) q"
proof (induction q t rule: replace_lit.induct)
  case (1 q)
  then show ?case by (simp add: contains_Nil scrubbable_def)
next
  case (2 q c cs)
  have b: "CHR ''['' \<notin> set q" using 2(3) by (simp add: scrubbable_def)
  show ?case
  proof (cases "q \<noteq> [] \<and> has_prefix (c # cs) q")
    case True
    from 2(1) [OF True 2(3)] show ?thesis
      unfolding replace_lit_hit [OF True] using contains_mark [OF 2(3)] by blast
  next
    case False
    then have "\<not> has_prefix (c # cs) q" using 2(3) by (simp add: scrubbable_def)
    then have "\<not> has_prefix (replace_lit q (c # cs)) q" using replace_prefix [OF b] by blast
    with 2(2) [OF False 2(3)] show ?thesis
      unfolding replace_lit_miss [OF False] contains_Cons by blast
  qed
qed

lemma scrub_free: "scrubbable q \<Longrightarrow> q \<in> set qs \<Longrightarrow> \<not> contains (scrub qs t) q"
proof -
  assume q: "scrubbable q" and m: "q \<in> set qs"
  have keep: "\<not> contains (scrub ps u) q" if "\<not> contains u q" for ps u
    using that by (induction ps arbitrary: u) (auto simp: scrub_def replace_keeps_free [OF q])
  from m obtain xs ys where "qs = xs @ q # ys" by (meson split_list)
  then have "scrub qs t = scrub ys (replace_lit q (scrub xs t))" by (simp add: scrub_def)
  with keep replace_frees [OF q] show ?thesis by simp
qed

lemma scrub_attr_texts: "t \<in> set (attr_texts (scrub_attr qs a)) \<Longrightarrow> t \<in> range (scrub qs)"
  by (induction a rule: scrub_attr.induct) auto


end
