(* ===== verification/Middleware.thy ===== *)
theory Middleware
  imports Redact Effects
begin

text \<open>
  \<^verbatim>\<open>middleware.go\<close> and the probes of \<^verbatim>\<open>health.go\<close>: the chain every request passes.
  A handler answers or panics; the handlers of this service write their response last, so a panic
  comes before anything was written. Below the recoverer there are only responses. The logger bound
  to a request is the service's with the request id in front of each record.
\<close>

section \<open>Handlers that may panic\<close>

datatype outcome = Answered response | Panicked gostring "(gostring \<times> gostring) list"

type_synonym 'w raw_handler = "request \<Rightarrow> 'w st \<Rightarrow> outcome \<times> 'w st"
type_synonym 'w handler = "request \<Rightarrow> 'w st \<Rightarrow> response \<times> 'w st"

text \<open>A header set on the writer before the handler runs: the handler may set it again.\<close>

definition under_header :: "gostring \<Rightarrow> gostring \<Rightarrow> response \<Rightarrow> response" where
  "under_header k v x =
     (if rs_header x k = None then x\<lparr>rs_headers := (k, v) # rs_headers x\<rparr> else x)"

text \<open>Records a handler logs carry the attributes bound to the request's logger.\<close>

definition bind_attrs :: "attr list \<Rightarrow> 'w st \<Rightarrow> 'w st \<Rightarrow> 'w st" where
  "bind_attrs as s s' =
     s'\<lparr>st_log := st_log s @ map (\<lambda>x. x\<lparr>lg_attrs := as @ lg_attrs x\<rparr>) (log_since s s')\<rparr>"

section \<open>The request id\<close>

definition sanitize_request_id :: "gostring \<Rightarrow> gostring" where
  "sanitize_request_id t =
     (if t = [] \<or> 64 < length t then [] else if list_all key_byte t then t else [])"

definition new_request_id :: "'w server \<Rightarrow> 'w st \<Rightarrow> gostring \<times> 'w st" where
  "new_request_id sv s =
     (case io (ReadRandom 12) (rt_rand (sv_rt sv) 12) s of
        (Inl e, s1) \<Rightarrow> (''rid-unknown'', s1)
      | (Inr b, s1) \<Rightarrow> (hex_encode b, s1))"

definition request_id_of :: "'w server \<Rightarrow> request \<Rightarrow> 'w st \<Rightarrow> gostring \<times> 'w st" where
  "request_id_of sv r s =
     (let rid = sanitize_request_id (rq_header r ''X-Request-Id'') in
      if rid = [] then new_request_id sv s else (rid, s))"

definition request_id :: "'w server \<Rightarrow> 'w handler \<Rightarrow> 'w handler" where
  "request_id sv h r s =
     (case request_id_of sv r s of
        (rid, s1) \<Rightarrow>
          (case h r s1 of
             (x, s2) \<Rightarrow> (under_header ''X-Request-Id'' rid x, bind_attrs [AStr ''rid'' rid] s1 s2)))"

section \<open>Version, access log, recovery\<close>

definition api_version :: gostring where
  "api_version = ''v1''"

definition version_header :: "'w handler \<Rightarrow> 'w handler" where
  "version_header h r s =
     (case h r s of (x, s1) \<Rightarrow> (under_header ''X-Abc-Auth-API-Version'' api_version x, s1))"

text \<open>\<open>sz\<close> is the number of bytes a body takes on the wire.\<close>

definition access_record :: "(body \<Rightarrow> int) \<Rightarrow> request \<Rightarrow> response \<Rightarrow> int \<Rightarrow> attr list" where
  "access_record sz r x ms =
     [AStr ''method'' (rq_method r), AStr ''path'' (rq_path r), AInt ''status'' (int (rs_status x)),
      AInt ''bytes'' (sz (rs_body x)), AInt ''ms'' ms, AStr ''user'' (rq_header r ''Remote-User''),
      AStr ''xff'' (rq_header r ''X-Forwarded-For'')]"

definition access_log :: "'w server \<Rightarrow> (body \<Rightarrow> int) \<Rightarrow> 'w handler \<Rightarrow> 'w handler" where
  "access_log sv sz h r s =
     (case clock sv s of
        (start, s1) \<Rightarrow>
          (case h r s1 of
             (x, s2) \<Rightarrow>
               (case clock sv s2 of
                  (now, s3) \<Rightarrow>
                    (x, log_at L1 ''http.access''
                          (access_record sz r x ((now - start) div 1000000)) s3))))"

definition panic_body :: gostring where
  "panic_body =
     [chr_of 123, chr_of 34] @ ''error'' @ [chr_of 34, CHR '':'', chr_of 34] @ ''internal error''
     @ [chr_of 34, chr_of 125]"

definition recoverer :: "'w raw_handler \<Rightarrow> 'w handler" where
  "recoverer h r s =
     (case h r s of
        (Answered x, s1) \<Rightarrow> (x, s1)
      | (Panicked v hs, s1) \<Rightarrow>
          (mk_response 500 hs [] (Text panic_body),
           log_at L1 ''http.panic''
             [AStr ''method'' (rq_method r), AStr ''path'' (rq_path r), AAny ''panic'' v] s1))"

text \<open>\<^verbatim>\<open>chain\<close>: the first middleware of the list runs outermost.\<close>

definition handler_chain :: "'w handler \<Rightarrow> ('w handler \<Rightarrow> 'w handler) list \<Rightarrow> 'w handler" where
  "handler_chain h mws = foldr (\<lambda>m g. m g) mws h"

definition wrap_handler :: "'w server \<Rightarrow> (body \<Rightarrow> int) \<Rightarrow> 'w raw_handler \<Rightarrow> 'w handler" where
  "wrap_handler sv sz h =
     handler_chain (recoverer h) [version_header, request_id sv, access_log sv sz]"

section \<open>Probes\<close>

record build_info =
  bi_version :: gostring
  bi_build_time :: gostring
  bi_git_commit :: gostring

definition handle_healthz :: response where
  "handle_healthz =
     mk_response 200 [(''Content-Type'', ''text/plain; charset=utf-8'')] [] (Text (''ok'' @ [chr_of 10]))"

definition handle_readyz :: "'w server \<Rightarrow> build_info \<Rightarrow> response" where
  "handle_readyz sv b =
     write_json 200
       (JObj [(''status'', JStr ''ready''), (''version'', JStr (bi_version b)),
              (''checks'', JObj (if cf_mock_upstreams (sv_cfg sv)
                               then [(''mode'', JStr ''mock-upstreams'')] else []))])"

definition handle_version :: "build_info \<Rightarrow> response" where
  "handle_version b =
     write_json 200
       (JObj [(''version'', JStr (bi_version b)), (''build_time'', JStr (bi_build_time b)),
              (''git_commit'', JStr (bi_git_commit b))])"

definition handle_not_found :: response where
  "handle_not_found = write_json 404 (JObj [(''error'', JStr ''not found'')])"

section \<open>What every response and every access record has\<close>

lemma hex_key_bytes: "list_all key_byte (hex_encode t)"
proof -
  have "\<forall>c\<in>set hex_digits. key_byte c"
    by (simp add: hex_digits_def key_byte_def byte_def)
  then show ?thesis using hex.enc_alphabet [of t] by (auto simp: list_all_iff)
qed

lemma request_id_safe:
  "request_id_of sv r s = (rid, s1) \<Longrightarrow> list_all key_byte rid"
proof -
  have "list_all key_byte ''rid-unknown''" by (simp add: key_byte_def byte_def)
  then show "request_id_of sv r s = (rid, s1) \<Longrightarrow> list_all key_byte rid"
    by (auto simp: request_id_of_def new_request_id_def sanitize_request_id_def Let_def hex_key_bytes
        split: if_splits prod.splits sum.splits)
qed

lemma request_id_of_log: "request_id_of sv r s = (rid, s1) \<Longrightarrow> st_log s1 = st_log s"
  by (auto simp: request_id_of_def new_request_id_def Let_def dest: io_eqD
      split: if_splits prod.splits sum.splits)

lemma rs_header_under:
  "rs_header (under_header k v x) k' =
     (if k' = k then (case rs_header x k of None \<Rightarrow> Some v | Some u \<Rightarrow> Some u) else rs_header x k')"
  by (auto simp: under_header_def rs_header_def split: option.split)

lemma under_header_fields [simp]:
  "rs_status (under_header k v x) = rs_status x" "rs_body (under_header k v x) = rs_body x"
  "rs_cookies (under_header k v x) = rs_cookies x"
  by (simp_all add: under_header_def)

lemma bind_attrs_log:
  "st_log s2 = st_log s1 @ ls \<Longrightarrow>
     st_log (bind_attrs as s1 s2) = st_log s1 @ map (\<lambda>x. x\<lparr>lg_attrs := as @ lg_attrs x\<rparr>) ls"
  by (simp add: bind_attrs_def log_since_def)

text \<open>A handler that only appends to the log.\<close>

definition log_extends :: "'w st \<Rightarrow> 'w st \<Rightarrow> bool" where
  "log_extends s s' \<longleftrightarrow> prefix (st_log s) (st_log s')"



end
