(* ===== verification/Server.thy ===== *)
theory Server
  imports Validate Login Portal Identity Exchange Keys Claim Lifecycle Workbench Log_Level Diag Middleware
begin

text \<open>
  \<^verbatim>\<open>server.go\<close> and \<^verbatim>\<open>main.go\<close>: the route table with its handlers, the middleware
  around them, the startup banner and what the command line leads to. The segments of the request's
  path are those \<^verbatim>\<open>net/http\<close> matches on: the cleaned escaped path split at slashes, each
  segment unescaped. A pattern for \<^verbatim>\<open>GET\<close> also serves \<^verbatim>\<open>HEAD\<close>, and the pattern
  \<^verbatim>\<open>/\<close> takes whatever no other one matches, wrong methods included.
\<close>

section \<open>Routes\<close>

datatype endpoint =
    EpHealthz | EpReadyz | EpVersion
  | EpValidate | EpValidateOptional | EpValidateShadow
  | EpLoginGet | EpLoginPost | EpLogout | EpAuthMe
  | EpWorkbenchToken | EpAuthExchange | EpSlotsMeConfig
  | EpCredSource | EpSlotDiag
  | EpCLIToken | EpAuthRedeem | EpMinIOLogin
  | EpVerifyNomad
  | EpListSlots | EpGetSlot
  | EpSecretsPut | EpSecretsGet | EpKeysGet | EpKeysMint
  | EpSlotsClaim | EpSuspend | EpReactivate | EpRotate
  | EpLogLevel | EpNotFound

definition slot_var :: gostring where
  "slot_var = [chr_of 123] @ ''slot'' @ [chr_of 125]"

definition managed_route :: "gostring \<Rightarrow> gostring list \<Rightarrow> endpoint \<Rightarrow> (gostring \<times> gostring list \<times> endpoint) list" where
  "managed_route m tail_segs ep =
     [(m, ''manage'' # ''slots'' # tail_segs, ep), (m, ''auth'' # ''manage'' # ''slots'' # tail_segs, ep)]"

definition under_auth :: "gostring \<Rightarrow> gostring list \<Rightarrow> endpoint \<Rightarrow> (gostring \<times> gostring list \<times> endpoint) list" where
  "under_auth m segs ep = [(m, segs, ep), (m, ''auth'' # segs, ep)]"

definition routes :: "(gostring \<times> gostring list \<times> endpoint) list" where
  "routes =
     [(''GET'', [''healthz''], EpHealthz), (''GET'', [''readyz''], EpReadyz),
      (''GET'', [''version''], EpVersion), (''GET'', [''validate''], EpValidate),
      (''GET'', [''validate-optional''], EpValidateOptional),
      (''GET'', [''validate-shadow''], EpValidateShadow),
      (''GET'', [''auth'', ''login''], EpLoginGet), (''POST'', [''auth'', ''login''], EpLoginPost),
      (''GET'', [''auth'', ''logout''], EpLogout), (''GET'', [''auth'', ''me''], EpAuthMe)]
     @ under_auth ''POST'' [''workbench'', ''token''] EpWorkbenchToken
     @ under_auth ''POST'' [''exchange''] EpAuthExchange
     @ under_auth ''GET'' [''slots'', ''me'', ''config''] EpSlotsMeConfig
     @ managed_route ''POST'' [slot_var, ''cred-source''] EpCredSource
     @ managed_route ''GET'' [slot_var, ''diag''] EpSlotDiag
     @ under_auth ''POST'' [''cli-token''] EpCLIToken
     @ under_auth ''GET'' [''redeem''] EpAuthRedeem
     @ under_auth ''GET'' [''minio-login''] EpMinIOLogin
     @ [(''GET'', [''verify''], EpVerifyNomad), (''POST'', [''verify''], EpVerifyNomad),
        (''GET'', [''verify-namespace''], EpVerifyNomad), (''POST'', [''verify-namespace''], EpVerifyNomad)]
     @ managed_route ''GET'' [] EpListSlots
     @ managed_route ''GET'' [slot_var] EpGetSlot
     @ [(''GET'', [''auth'', ''health''], EpHealthz)]
     @ under_auth ''POST'' [''secrets'', ''put''] EpSecretsPut
     @ under_auth ''POST'' [''secrets'', ''get''] EpSecretsGet
     @ under_auth ''POST'' [''keys'', ''get''] EpKeysGet
     @ under_auth ''POST'' [''keys'', ''mint''] EpKeysMint
     @ under_auth ''POST'' [''slots'', ''claim''] EpSlotsClaim
     @ managed_route ''POST'' [slot_var, ''suspend''] EpSuspend
     @ managed_route ''POST'' [slot_var, ''reactivate''] EpReactivate
     @ managed_route ''POST'' [slot_var, ''rotate''] EpRotate
     @ under_auth ''GET'' [''manage'', ''log-level''] EpLogLevel
     @ under_auth ''POST'' [''manage'', ''log-level''] EpLogLevel"

text \<open>The value of the wildcard if the segments match the template; a wildcard takes one non-empty
  segment.\<close>

fun match_segs :: "gostring list \<Rightarrow> gostring list \<Rightarrow> gostring option" where
  "match_segs [] [] = Some []"
| "match_segs (t # ts) (p # ps) =
     (if t = slot_var then (if p = [] then None else map_option (\<lambda>_. p) (match_segs ts ps))
      else if t = p then match_segs ts ps else None)"
| "match_segs _ _ = None"

definition method_matches :: "gostring \<Rightarrow> gostring \<Rightarrow> bool" where
  "method_matches pat m \<longleftrightarrow> m = pat \<or> (pat = ''GET'' \<and> m = ''HEAD'')"

fun route_in :: "(gostring \<times> gostring list \<times> endpoint) list \<Rightarrow> gostring \<Rightarrow> gostring list \<Rightarrow> endpoint \<times> gostring" where
  "route_in [] m segs = (EpNotFound, [])"
| "route_in ((pat, ts, ep) # rs) m segs =
     (case match_segs ts segs of
        Some v \<Rightarrow> if method_matches pat m then (ep, v) else route_in rs m segs
      | None \<Rightarrow> route_in rs m segs)"

definition route :: "gostring \<Rightarrow> gostring list \<Rightarrow> endpoint \<times> gostring" where
  "route m segs = route_in routes m segs"

section \<open>Dispatch\<close>

record 'w process =
  ps_server :: "'w server"
  ps_host :: "'w host"
  ps_build :: build_info
  ps_body_size :: "body \<Rightarrow> int"

fun dispatch :: "'w process \<Rightarrow> endpoint \<Rightarrow> 'w handler" where
  "dispatch p EpHealthz r s = (handle_healthz, s)"
| "dispatch p EpReadyz r s = (handle_readyz (ps_server p) (ps_build p), s)"
| "dispatch p EpVersion r s = (handle_version (ps_build p), s)"
| "dispatch p EpValidate r s = handle_validate (ps_server p) r s"
| "dispatch p EpValidateOptional r s = handle_validate_optional (ps_server p) r s"
| "dispatch p EpValidateShadow r s = handle_validate_shadow (ps_server p) r s"
| "dispatch p EpLoginGet r s = handle_login_get (ps_server p) r s"
| "dispatch p EpLoginPost r s = handle_login_post (ps_server p) r s"
| "dispatch p EpLogout r s = handle_logout (ps_server p) r s"
| "dispatch p EpAuthMe r s = handle_auth_me (ps_server p) r s"
| "dispatch p EpWorkbenchToken r s = handle_workbench_token (ps_server p) r s"
| "dispatch p EpAuthExchange r s = handle_auth_exchange (ps_server p) r s"
| "dispatch p EpSlotsMeConfig r s = handle_slots_me_config (ps_server p) r s"
| "dispatch p EpCredSource r s = handle_cred_source (ps_server p) r s"
| "dispatch p EpSlotDiag r s = handle_slot_diag (ps_server p) (ps_host p) r s"
| "dispatch p EpCLIToken r s = handle_cli_token_post (ps_server p) r s"
| "dispatch p EpAuthRedeem r s = handle_auth_redeem (ps_server p) r s"
| "dispatch p EpMinIOLogin r s = handle_auth_minio_login (ps_server p) r s"
| "dispatch p EpVerifyNomad r s = handle_verify_nomad (ps_server p) r s"
| "dispatch p EpListSlots r s = handle_manage_list_slots (ps_server p) r s"
| "dispatch p EpGetSlot r s = handle_manage_get_slot (ps_server p) r s"
| "dispatch p EpSecretsPut r s = handle_secrets_put (ps_server p) r s"
| "dispatch p EpSecretsGet r s = handle_secrets_get (ps_server p) r s"
| "dispatch p EpKeysGet r s = handle_keys_get (ps_server p) r s"
| "dispatch p EpKeysMint r s = handle_keys_mint (ps_server p) r s"
| "dispatch p EpSlotsClaim r s = handle_slots_claim (ps_server p) r s"
| "dispatch p EpSuspend r s = handle_manage_suspend (ps_server p) r s"
| "dispatch p EpReactivate r s = handle_manage_reactivate (ps_server p) r s"
| "dispatch p EpRotate r s = handle_manage_rotate (ps_server p) r s"
| "dispatch p EpLogLevel r s = handle_log_level (ps_server p) r s"
| "dispatch p EpNotFound r s = (handle_not_found, s)"

text \<open>The mux: it sets the path value and calls the handler.\<close>

definition serve_mux :: "'w process \<Rightarrow> gostring list \<Rightarrow> 'w handler" where
  "serve_mux p segs r s =
     (case route (rq_method r) segs of (ep, v) \<Rightarrow> dispatch p ep (r\<lparr>rq_slot := v\<rparr>) s)"

definition serve :: "'w process \<Rightarrow> gostring list \<Rightarrow> 'w handler" where
  "serve p segs = wrap_handler (ps_server p) (ps_body_size p)
     (\<lambda>r s. case serve_mux p segs r s of (x, s1) \<Rightarrow> (Answered x, s1))"

section \<open>Startup\<close>

definition new_server ::
  "go_config \<Rightarrow> 'w upstreams \<Rightarrow> 'w runtime
   \<Rightarrow> (gostring \<Rightarrow> gostring \<Rightarrow> gostring \<Rightarrow> ('w, nat \<times> gostring) call) \<Rightarrow> 'w server" where
  "new_server cfg up rt shadow =
     \<lparr>sv_cfg = config.truncate cfg, sv_up = up, sv_rt = rt, sv_shadow = shadow\<rparr>"

definition initial_state :: "go_config \<Rightarrow> 'w \<Rightarrow> 'w st" where
  "initial_state cfg w =
     \<lparr>st_world = w, st_codes = Map.empty, st_level = Some (cf_log_level cfg), st_log = [], st_calls = []\<rparr>"

definition startup_record :: "go_config \<Rightarrow> attr list" where
  "startup_record cfg =
     (case token_shape (cf_jupyterhub_admin_token cfg) of
        (shape, pre) \<Rightarrow>
          [AStr ''listen'' (gc_listen cfg), AStr ''jupyterhub_api_url'' (cf_jupyterhub_api_url cfg),
           AStr ''jupyterhub_admin_token'' shape, AStr ''jupyterhub_admin_token_prefix'' pre,
           AInt ''jupyterhub_admin_token_len'' (int (length (cf_jupyterhub_admin_token cfg))),
           AStr ''nomad_addr'' (gc_nomad_addr cfg), AStr ''pocketbase_url'' (gc_pocketbase_url cfg),
           AStr ''minio_console_url'' (gc_minio_console_url cfg)])"

definition log_startup_banner :: "go_config \<Rightarrow> 'w server \<Rightarrow> 'w st \<Rightarrow> 'w st" where
  "log_startup_banner cfg sv s =
     (let s1 = log_at L1 ''server.startup.config'' (startup_record cfg) s in
      case hub_user_exists (up_hub (sv_up sv)) of
        None \<Rightarrow> s1
      | Some probe \<Rightarrow>
          (case io (UserExists ''__diag_probe__'') (probe ''__diag_probe__'') s1 of
             (Inl e, s2) \<Rightarrow>
               log_at L1 ''server.startup.jupyterhub_probe''
                 [AStr ''status'' ''unreachable_or_unauthorized'', AStr ''error'' (error_text e)] s2
           | (Inr _, s2) \<Rightarrow>
               log_at L1 ''server.startup.jupyterhub_probe'' [AStr ''status'' ''reachable''] s2))"

text \<open>What running the command comes to, before the listener.\<close>

datatype run_result = ExitCode nat | PrintVersion gostring | Serve go_config

definition main_run :: "build_info \<Rightarrow> gostring list \<Rightarrow> (gostring \<Rightarrow> gostring) \<Rightarrow> run_result" where
  "main_run b args env =
     (case load_config args env of
        Inl HelpRequested \<Rightarrow> ExitCode 0
      | Inl _ \<Rightarrow> ExitCode 1
      | Inr cfg \<Rightarrow>
          if gc_show_version cfg
          then PrintVersion (''abc-auth-svc '' @ bi_version b @ '' (commit '' @ bi_git_commit b
                  @ '', built '' @ bi_build_time b @ '')'' @ [chr_of 10])
          else Serve cfg)"

section \<open>The operator tier\<close>

definition operator_endpoints :: "endpoint set" where
  "operator_endpoints =
     {EpCredSource, EpSlotDiag, EpListSlots, EpGetSlot, EpKeysMint, EpSuspend, EpReactivate, EpRotate,
      EpLogLevel}"

text \<open>The paths of the operator tier, with or without the prefix the proxy strips.\<close>

definition operator_path :: "gostring list \<Rightarrow> bool" where
  "operator_path segs \<longleftrightarrow>
     (case segs of
        a # b # rest \<Rightarrow>
          a = ''manage'' \<or> a = ''auth'' \<and> b = ''manage''
          \<or> segs \<in> {[''keys'', ''mint''], [''auth'', ''keys'', ''mint'']}
      | _ \<Rightarrow> segs = [''manage''])"

lemma gated_handler:
  assumes "\<not> operator_ok (ps_server p) r" and "ep \<in> operator_endpoints"
  shows "dispatch p ep r s = (err_json 401 ''unauthorized'', s)"
  using assms
  by (auto simp: operator_endpoints_def handle_cred_source_def handle_slot_diag_def
      handle_manage_list_slots_def handle_manage_get_slot_def handle_keys_mint_def
      handle_manage_suspend_def handle_manage_reactivate_def handle_manage_rotate_def
      handle_log_level_def require_operator_iff)

lemma route_in_found:
  "route_in rs m segs = (ep, v) \<Longrightarrow> ep \<noteq> EpNotFound \<Longrightarrow>
     \<exists>pat ts. (pat, ts, ep) \<in> set rs \<and> match_segs ts segs = Some v"
  by (induction rs m segs rule: route_in.induct) (auto split: option.splits if_splits)

lemma match_literal: "match_segs ts segs = Some v \<Longrightarrow> slot_var \<notin> set ts \<Longrightarrow> segs = ts"
  by (induction ts segs arbitrary: v rule: match_segs.induct) (auto split: if_splits)

lemma other_routes_public:
  "list_all (\<lambda>(pat, ts, ep). ep \<in> operator_endpoints \<or> (slot_var \<notin> set ts \<and> \<not> operator_path ts)) routes"
  by code_simp

lemma operator_path_routes:
  assumes "operator_path segs"
  shows "fst (route m segs) \<in> insert EpNotFound operator_endpoints"
proof (cases "fst (route m segs) = EpNotFound")
  case False
  obtain ep v where e: "route m segs = (ep, v)" by force
  with False obtain pat ts where t: "(pat, ts, ep) \<in> set routes" "match_segs ts segs = Some v"
    unfolding route_def using route_in_found by (metis fst_conv)
  with other_routes_public have "ep \<in> operator_endpoints \<or> (slot_var \<notin> set ts \<and> \<not> operator_path ts)"
    by (fastforce simp: list_all_iff)
  with assms match_literal [OF t(2)] e show ?thesis by auto
qed simp

text \<open>No request below \<^verbatim>\<open>/manage\<close> or \<^verbatim>\<open>/auth/manage\<close>, and no key mint, gets past
  the gate without the operator's token: whatever the method, the path and the rest of the request,
  the answer is 401 or, where no route matches, 404, and nothing has been called, logged or changed.\<close>

lemma operator_gate:
  assumes "operator_path segs" and "\<not> operator_ok (ps_server p) r"
  shows "serve_mux p segs r s \<in> {(err_json 401 ''unauthorized'', s), (handle_not_found, s)}"
proof -
  obtain ep v where e: "route (rq_method r) segs = (ep, v)" by force
  have r: "\<not> operator_ok (ps_server p) (r\<lparr>rq_slot := v\<rparr>)"
    using assms(2) by (simp add: operator_ok_def rq_header_def)
  have "ep \<in> insert EpNotFound operator_endpoints"
    using operator_path_routes [OF assms(1), of "rq_method r"] e by simp
  with gated_handler [OF r] e show ?thesis by (auto simp: serve_mux_def)
qed

definition sample_process :: "int process" where
  "sample_process =
     \<lparr>ps_server = sample_server,
      ps_host = \<lparr>ho_user = (\<lambda>u w. UserUnknown), ho_stat = (\<lambda>f w. None)\<rparr>,
      ps_build = \<lparr>bi_version = ''dev'', bi_build_time = ''unknown'', bi_git_commit = ''unknown''\<rparr>,
      ps_body_size = (\<lambda>b. 0)\<rparr>"

lemma operator_gate_witness:
  "serve_mux sample_process [''auth'', ''manage'', ''slots'', ''s1'', ''rotate'']
     (sample_request\<lparr>rq_method := ''POST''\<rparr>) sample_state
   \<in> {(err_json 401 ''unauthorized'', sample_state), (handle_not_found, sample_state)}"
proof (rule operator_gate)
  show "operator_path [''auth'', ''manage'', ''slots'', ''s1'', ''rotate'']"
    by (simp add: operator_path_def)
  show "\<not> operator_ok (ps_server sample_process) (sample_request\<lparr>rq_method := ''POST''\<rparr>)"
    by (simp add: operator_ok_def rq_header_def value_of_def sample_process_def sample_server_def
        sample_config_def sample_request_def)
qed

end
