(* ===== verification/Composition.thy ===== *)
theory Composition
  imports Server
begin

text \<open>
  What two requests to the same server have to do with each other: the session a login hands out is
  what \<^verbatim>\<open>/validate\<close> later reads, and a suspension reaches \<^verbatim>\<open>/validate\<close> through the
  state cache of the PocketBase client.
\<close>

section \<open>From a login to the next forward-auth check\<close>

text \<open>The cookie of a login, with the clock reading it was minted at: the last thing the request did
  to the outside world.\<close>

lemma login_cookie:
  assumes "rs_cookies (fst (handle_login_post sv r s)) = [c]"
  shows "\<exists>w. st_world (snd (handle_login_post sv r s)) = snd (rt_now (sv_rt sv) w)
     \<and> c = set_session_cookie (sv_cfg sv)
          (session_token (rt_hmac_sha256 (sv_rt sv)) (cf_session_secret (sv_cfg sv))
            (trim_space (value_of (rq_form r) ''username''))
            (unix_seconds (fst (rt_now (sv_rt sv) w) + cf_session_ttl (sv_cfg sv))))"
  using assms
  by (auto simp: handle_login_post_def serve_login_def Let_def session_make_def clock_def io_total_def
      case_prod_beta split: if_splits sum.splits bool.splits option.splits prod.splits)

lemma set_session_cookie_value [simp]: "ck_value (set_session_cookie cfg tok) = tok"
  by (simp add: set_session_cookie_def session_cookie_def)

lemma login_cookie_user:
  assumes "rs_cookies (fst (handle_login_post sv r s)) = [c]"
    and "value_of (rq_cookies r') session_cookie_name = ck_value c"
    and "cf_session_secret (sv_cfg sv) \<noteq> []"
    and "\<forall>w. in_int64 (unix_seconds (fst (rt_now (sv_rt sv) w) + cf_session_ttl (sv_cfg sv)))"
  shows "\<exists>w. st_world (snd (handle_login_post sv r s)) = snd (rt_now (sv_rt sv) w)
     \<and> cookie_user sv r' s' =
         (if unix_seconds (fst (rt_now (sv_rt sv) (st_world s')))
              \<le> unix_seconds (fst (rt_now (sv_rt sv) w) + cf_session_ttl (sv_cfg sv))
          then Some (trim_space (value_of (rq_form r) ''username'')) else None)"
proof -
  from login_cookie [OF assms(1)] obtain w where
    w: "st_world (snd (handle_login_post sv r s)) = snd (rt_now (sv_rt sv) w)"
    and c: "c = set_session_cookie (sv_cfg sv)
          (session_token (rt_hmac_sha256 (sv_rt sv)) (cf_session_secret (sv_cfg sv))
            (trim_space (value_of (rq_form r) ''username''))
            (unix_seconds (fst (rt_now (sv_rt sv) w) + cf_session_ttl (sv_cfg sv))))"
    by blast
  have "in_int64 (unix_seconds (fst (rt_now (sv_rt sv) w) + cf_session_ttl (sv_cfg sv)))"
    using assms(4) ..
  with w c assms(2,3) show ?thesis
    by (intro exI [of _ w]) (simp add: cookie_user_def session_check_token)
qed

lemma validate_of_cookie_user:
  assumes "cookie_user sv r s = (if p then Some u else None)"
  shows "(rs_status (fst (handle_validate sv r s)), rs_header (fst (handle_validate sv r s)) ''Remote-User'')
    = (if p \<and> \<not> blocked_state (reported_state sv u s) then (200, Some u) else (302, None))"
proof -
  have a: "admitted sv r s v \<longleftrightarrow> p \<and> v = u \<and> \<not> blocked_state (reported_state sv u s)" for v
    using assms by (auto simp: admitted_def)
  show ?thesis
  proof (cases "admitted sv r s u")
    case True
    with handle_validate_admitted [OF this] a [of u] show ?thesis by (simp add: rs_header_def)
  next
    case False
    with a have "\<nexists>v. admitted sv r s v" by blast
    with handle_validate_refused [OF this] a [of u] False show ?thesis by auto
  qed
qed

definition steady_server :: "int server" where
  "steady_server = sample_server\<lparr>sv_rt := sample_runtime\<lparr>rt_now := \<lambda>w. (w mod 1000000, w + 1)\<rparr>\<rparr>"

definition login_form :: request where
  "login_form = sample_request\<lparr>rq_method := ''POST'',
     rq_form := [(''username'', ''ada''), (''password'', ''pw'')]\<rparr>"

definition login_cookies :: "cookie list" where
  "login_cookies = rs_cookies (fst (handle_login_post steady_server login_form sample_state))"

section \<open>From a suspension to the next forward-auth check\<close>

text \<open>A call that has nothing to do with the slot-state cache.\<close>

definition keeps_cache :: "('w pb_world \<Rightarrow> 'a \<times> 'w pb_world) \<Rightarrow> bool" where
  "keeps_cache f \<longleftrightarrow> (\<forall>w. pw_cache (snd (f w)) = pw_cache w)"

lemma pb_clock_cache [simp]: "pw_cache (snd (pb_clock c w)) = pw_cache w"
  by (simp add: pb_clock_def split: prod.split)

lemma cached_state_fresh:
  "pw_cache w u = None \<Longrightarrow> fst (pb_cached_state c u w) =
     state_name (fst (pb_find_slot c (eq_filter ''minio_access_key'' u) (snd (pb_clock c w))))"
  by (cases "pb_clock c w")
    (use pb_clock_cache [of c w] in \<open>simp add: pb_cached_state_def cache_hit_def split: prod.split\<close>)

lemma stop_server_cache:
  assumes "\<forall>stop. hub_stop_server (up_hub (sv_up sv)) = Some stop \<longrightarrow> keeps_cache (stop n)"
  shows "pw_cache (st_world (stop_server sv msg n s)) = pw_cache (st_world s)"
  using assms by (simp add: stop_server_def io_simps keeps_cache_def split: option.split)

lemma suspend_slot_evicts:
  assumes "\<forall>stop. hub_stop_server (up_hub (sv_up sv)) = Some stop \<longrightarrow> keeps_cache (stop n)"
    and "rs_status (fst (suspend_slot sv (pb_manager c) n slot s)) = 200"
  shows "pw_cache (st_world (snd (suspend_slot sv (pb_manager c) n slot s))) (minio_user slot n) = None"
  using assms(2) stop_server_cache [OF assms(1)]
  by (auto simp: suspend_slot_def Let_def invalidate_def io_total_fields pb_manager_def
      pb_invalidate_def cache_evict_def split: prod.splits sum.splits)

lemma suspend_evicts:
  assumes "up_store (sv_up sv) = Some (pb_store c)"
    and "\<forall>stop. hub_stop_server (up_hub (sv_up sv)) = Some stop \<longrightarrow> keeps_cache (stop (rq_slot r))"
    and "rs_status (fst (handle_manage_suspend sv r s)) = 200"
    and "found_slot sv r s = Some slot"
  shows "pw_cache (st_world (snd (handle_manage_suspend sv r s))) (minio_user slot (rq_slot r)) = None"
proof -
  obtain x s1 where x: "find_managed sv (rq_slot r) s = (x, s1)" by force
  with assms(4) obtain ss mgr where y: "x = Inr (ss, mgr, slot)"
    by (auto simp: found_slot_def split: sum.splits)
  with find_managed_result(1,2) [of sv "rq_slot r" s] x assms(1) have m: "mgr = pb_manager c"
    by (auto simp: pb_store_def)
  from assms(3) x y have h: "handle_manage_suspend sv r s = suspend_slot sv mgr (rq_slot r) slot s1"
    by (auto simp: handle_manage_suspend_def require_operator_iff split: if_splits)
  from assms(2,3) show ?thesis unfolding h m by (rule suspend_slot_evicts)
qed

section \<open>A suspension in a small world\<close>

text \<open>A PocketBase with one slot: its network state says whether a patch has come in.\<close>

definition quoted_name :: "gostring \<Rightarrow> gostring" where
  "quoted_name t = chr_of 34 # t @ [chr_of 34]"

definition one_slot_reply :: "gostring \<Rightarrow> gostring" where
  "one_slot_reply state =
     [chr_of 123] @ quoted_name ''items'' @ '':['' @ [chr_of 123] @ quoted_name ''state'' @ '':''
     @ quoted_name state @ [chr_of 125] @ '']'' @ [chr_of 125]"

definition one_slot_http :: "bool http_client" where
  "one_slot_http =
     \<lparr>hc_new = (\<lambda>u. None),
      hc_do = (\<lambda>rq w.
        if hq_method rq = ''PATCH'' then (Inr \<lparr>hr_status = 200, hr_cookies = [], hr_body = []\<rparr>, True)
        else (Inr \<lparr>hr_status = 200, hr_cookies = [],
                    hr_body = one_slot_reply (if w then ''suspended'' else ''claimed'')\<rparr>, w)),
      hc_json_error = (\<lambda>t. ErrText ''bad json'')\<rparr>"

definition one_slot_client :: "bool pb_client" where
  "one_slot_client = new_pb_client ''http://pb'' ''e'' ''p'' one_slot_http (\<lambda>w. (0, w))"

definition one_slot_runtime :: "bool pb_world runtime" where
  "one_slot_runtime =
     \<lparr>rt_now = (\<lambda>w. (0, w)), rt_rand = (\<lambda>n w. (Inr (replicate n (CHR ''r'')), w)),
      rt_hmac_sha256 = (\<lambda>k m. k @ m), rt_sha256 = (\<lambda>m. m), rt_hkdf = (\<lambda>k salt info. Inr k),
      rt_gcm_seal = (\<lambda>k n aad p. p), rt_gcm_open = (\<lambda>k n aad p. Inr p),
      rt_age_identity = (\<lambda>w. (Inr (''s'', ''r''), w)), rt_b64_error = (\<lambda>t. ''bad''),
      rt_float = (\<lambda>t. None), rt_is_print = (\<lambda>n. True), rt_mkdir_all = (\<lambda>d w. (Inr (), w)),
      rt_chmod = (\<lambda>f w. (Inr (), w)), rt_write_file = (\<lambda>f x w. (Inr (), w)),
      rt_remove = (\<lambda>f w. (Inr (), w))\<rparr>"

definition one_slot_server :: "bool pb_world server" where
  "one_slot_server =
     \<lparr>sv_cfg = sample_config,
      sv_up = mock_upstreams sample_cluster ''h'' \<lparr>up_store := Some (pb_store one_slot_client)\<rparr>,
      sv_rt = one_slot_runtime, sv_shadow = (\<lambda>url x u w. (Inr (200, []), w))\<rparr>"

definition one_slot_state :: "bool pb_world st" where
  "one_slot_state =
     \<lparr>st_world = (new_pb_world False)\<lparr>pw_token := ''t'', pw_exp := token_lifetime\<rparr>, st_codes = Map.empty, st_level = None, st_log = [], st_calls = []\<rparr>"

definition suspend_request :: request where
  "suspend_request = sample_request\<lparr>rq_method := ''POST'', rq_slot := ''ada'',
     rq_headers := [(''X-Operator-Token'', ''op'')]\<rparr>"

lemma one_slot_items:
  "items_of (one_slot_reply ''claimed'') = Some [slot_of_fields
     [[], [], [], [], [], [], [], [], ''claimed'', [], [], [], [], [], [], []]]"
  "items_of (one_slot_reply ''suspended'') = Some [slot_of_fields
     [[], [], [], [], [], [], [], [], ''suspended'', [], [], [], [], [], [], []]]"
proof -
  have *: "one_slot_reply t = [CHR 0x7B, CHR 0x22] @ ''items'' @ [CHR 0x22] @ '':['' @ [CHR 0x7B, CHR 0x22]
      @ ''state'' @ [CHR 0x22] @ '':'' @ [CHR 0x22] @ t @ [CHR 0x22, CHR 0x7D] @ '']'' @ [CHR 0x7D]" for t
    by (simp add: one_slot_reply_def quoted_name_def chr_of_def char_of_def bit_Suc_0_iff)
  show "items_of (one_slot_reply ''claimed'') = Some [slot_of_fields
     [[], [], [], [], [], [], [], [], ''claimed'', [], [], [], [], [], [], []]]"
    unfolding * by code_simp
  show "items_of (one_slot_reply ''suspended'') = Some [slot_of_fields
     [[], [], [], [], [], [], [], [], ''suspended'', [], [], [], [], [], [], []]]"
    unfolding * by code_simp
qed

definition one_slot :: "gostring \<Rightarrow> slot" where
  "one_slot state = blank_slot\<lparr>sl_state := state\<rparr>"

lemma one_slot_body:
  "items_of (take 4194304 (one_slot_reply (if b then ''suspended'' else ''claimed'')))
     = Some [one_slot (if b then ''suspended'' else ''claimed'')]"
proof -
  have "take 4194304 (one_slot_reply t) = one_slot_reply t" if "length t \<le> 20" for t
    using that by (intro take_all) (simp add: one_slot_reply_def quoted_name_def)
  then show ?thesis
    by (cases b) (simp_all add: one_slot_items slot_of_fields_def one_slot_def blank_slot_def)
qed

lemma one_slot_attempt:
  assumes "pw_token w = ''t''" and "pw_exp w = token_lifetime"
  shows "pb_attempt one_slot_client m path x w =
    (Inr \<lparr>hr_status = 200, hr_cookies = [], hr_body =
       if m = ''PATCH'' then [] else one_slot_reply (if pw_net w then ''suspended'' else ''claimed'')\<rparr>,
     w\<lparr>pw_net := (m = ''PATCH'' \<or> pw_net w),
       pw_sent := pw_sent w @ [api_request one_slot_client m path x ''t'']\<rparr>)"
  using assms
  by (simp add: pb_attempt_def pb_auth_token_def pb_cached_token_def pb_clock_def pb_send_def
      one_slot_client_def new_pb_client_def one_slot_http_def token_lifetime_def token_margin_def
      second_def api_request_def)

lemma one_slot_do:
  assumes "pw_token w = ''t''" and "pw_exp w = token_lifetime"
  shows "\<exists>rq. pb_do one_slot_client m path x True w =
    (Inr (take 4194304 (if m = ''PATCH'' then [] else one_slot_reply (if pw_net w then ''suspended'' else ''claimed''))),
     w\<lparr>pw_net := (m = ''PATCH'' \<or> pw_net w), pw_sent := pw_sent w @ [rq]\<rparr>)"
  unfolding pb_do.simps [of one_slot_client m path x True]
  by (intro exI) (simp add: one_slot_attempt [OF assms] status_ok_def)

lemma one_slot_find:
  assumes "pw_token w = ''t''" and "pw_exp w = token_lifetime"
  shows "\<exists>rq. pb_find_slot one_slot_client q w =
    (Inr (Some (one_slot (if pw_net w then ''suspended'' else ''claimed''))), w\<lparr>pw_sent := pw_sent w @ [rq]\<rparr>)"
proof -
  from one_slot_do [OF assms, of "''GET''" "find_path q" None] obtain rq where
    "pb_do one_slot_client ''GET'' (find_path q) None True w =
      (Inr (take 4194304 (one_slot_reply (if pw_net w then ''suspended'' else ''claimed''))),
       w\<lparr>pw_sent := pw_sent w @ [rq]\<rparr>)" by auto
  then show ?thesis
    by (intro exI [of _ rq]) (simp add: pb_find_slot_def decoded_def one_slot_body del: if_split)
qed

lemma one_slot_patch:
  assumes "pw_token w = ''t''" and "pw_exp w = token_lifetime"
  shows "\<exists>rq. pb_patch_slot one_slot_client i p w = (Inr (), w\<lparr>pw_net := True, pw_sent := pw_sent w @ [rq]\<rparr>)"
  using one_slot_do [OF assms, of "''PATCH''" "slots_path @ ''/'' @ path_escape i" "Some (marshal_map p)"]
  by (auto simp: pb_patch_slot_def pb_write_def)

lemma one_slot_suspend:
  "\<exists>s'. handle_manage_suspend one_slot_server suspend_request one_slot_state = (ok_true, s')
     \<and> found_slot one_slot_server suspend_request one_slot_state = Some (one_slot ''claimed'')
     \<and> pw_net (st_world s') \<and> pw_token (st_world s') = ''t'' \<and> pw_exp (st_world s') = token_lifetime"
proof -
  let ?w = "st_world one_slot_state"
  have w: "pw_token ?w = ''t''" "pw_exp ?w = token_lifetime" "pw_net ?w = False"
    by (simp_all add: one_slot_state_def new_pb_world_def)
  from one_slot_find [OF w(1,2)] w(3) obtain rq where
    f: "pb_find_slot one_slot_client (eq_filter ''slot_name'' ''ada'') ?w
      = (Inr (Some (one_slot ''claimed'')), ?w\<lparr>pw_sent := pw_sent ?w @ [rq]\<rparr>)" by auto
  from w one_slot_patch [of "?w\<lparr>pw_sent := pw_sent ?w @ [rq]\<rparr>" "[]" suspend_patch] obtain rq' where
    p: "pb_patch_slot one_slot_client [] suspend_patch (?w\<lparr>pw_sent := pw_sent ?w @ [rq]\<rparr>)
      = (Inr (), ?w\<lparr>pw_net := True, pw_sent := pw_sent ?w @ [rq, rq']\<rparr>)" by auto
  have o: "operator_ok one_slot_server suspend_request" by code_simp
  have sv: "up_store (sv_up one_slot_server) = Some (pb_store one_slot_client)"
    "up_minio_admin (sv_up one_slot_server) = Some mock_minio_admin"
    "hub_stop_server (up_hub (sv_up one_slot_server)) = None"
    "rt_remove (sv_rt one_slot_server) = (\<lambda>f w. (Inr (), w))"
    by (simp_all add: one_slot_server_def mock_upstreams_def mock_hub_def one_slot_runtime_def)
  have fm: "find_managed one_slot_server ''ada'' one_slot_state
      = (Inr (pb_store one_slot_client, pb_manager one_slot_client, one_slot ''claimed''),
         one_slot_state\<lparr>st_world := ?w\<lparr>pw_sent := pw_sent ?w @ [rq]\<rparr>,
           st_calls := [(FindSlot (eq_filter ''slot_name'' ''ada''), True)]\<rparr>)"
    using f by (simp add: find_managed_def sv pb_store_def io_def Let_def one_slot_state_def)
  have sl: "sl_state (one_slot ''claimed'') = ''claimed''" "sl_id (one_slot t) = []"
    "slot_accessor (one_slot t) = []" for t
    by (simp_all add: one_slot_def blank_slot_def slot_accessor_def)
  have rq: "rq_slot suspend_request = ''ada''" by (simp add: suspend_request_def)
  show ?thesis
    using w p
    by (simp add: handle_manage_suspend_def require_operator_iff o found_slot_def fm sl rq
        suspend_slot_def Let_def suspend_minio_def suspend_token_def remove_creds_files_def log_failure_def
        removal_error_def best_effort_def io_def sv mock_minio_admin_def stop_server_def invalidate_def
        io_total_def pb_manager_def pb_invalidate_def)
qed

end
