(* ===== verification/Cache_Race.thy ===== *)
theory Cache_Race
  imports Composition
begin

text \<open>
  \<^verbatim>\<open>CachedSlotState\<close> of \<^verbatim>\<open>pocketbase.go\<close> with its three parts as
  separate steps: the mutex is held while the cache is read and while it is written, and released for
  the lookup in between. Any number of calls, evictions and other requests interleave; the theorems
  say how old an answer can be after an eviction, and which interleaving spoils it.
\<close>

section \<open>The parts of a call\<close>

text \<open>A call carries the user, the time it read first, and, once it has one, the state.\<close>

datatype state_call =
    Asking gostring int
  | Looked gostring int gostring
  | Told gostring int gostring

definition state_begin :: "'w pb_client \<Rightarrow> gostring \<Rightarrow> 'w pb_world \<Rightarrow> state_call \<times> 'w pb_world" where
  "state_begin c u w =
     (case pb_clock c w of
        (now, w1) \<Rightarrow>
          (case cache_hit u now (pw_cache w1) of
             Some st \<Rightarrow> (Told u now st, w1)
           | None \<Rightarrow> (Asking u now, w1)))"

definition state_lookup :: "'w pb_client \<Rightarrow> gostring \<Rightarrow> 'w pb_world \<Rightarrow> gostring \<times> 'w pb_world" where
  "state_lookup c u w =
     (case pb_find_slot c (eq_filter ''minio_access_key'' u) w of (x, w1) \<Rightarrow> (state_name x, w1))"

definition state_store :: "gostring \<Rightarrow> int \<Rightarrow> gostring \<Rightarrow> 'w pb_world \<Rightarrow> 'w pb_world" where
  "state_store u now st w = w\<lparr>pw_cache := cache_store u st now (pw_cache w)\<rparr>"

text \<open>Run without interruption, the parts are the call.\<close>

lemma pb_cached_state_parts:
  "pb_cached_state c u w =
     (case state_begin c u w of
        (Told u' now st, w1) \<Rightarrow> (st, w1)
      | (_, w1) \<Rightarrow>
          (case state_lookup c u w1 of
             (st, w2) \<Rightarrow> (st, state_store u (fst (pb_clock c w)) st w2)))"
  by (simp add: pb_cached_state_def state_begin_def state_lookup_def state_store_def
      split: prod.split option.split)

section \<open>Interleavings\<close>

text \<open>\<open>ra_lookups\<close> records every lookup that was answered, in order.\<close>

record lookup =
  lk_user :: gostring
  lk_began :: int
  lk_state :: gostring

record 'w race =
  ra_world :: "'w pb_world"
  ra_calls :: "nat \<rightharpoonup> state_call"
  ra_lookups :: "lookup list"

abbreviation evicted :: "gostring \<Rightarrow> 'w race \<Rightarrow> 'w race" where
  "evicted u s \<equiv> s\<lparr>ra_world := pb_invalidate u (ra_world s)\<rparr>"

text \<open>The last rule is everything else the service and the network do: it leaves the cache alone.\<close>

inductive race_step :: "'w pb_client \<Rightarrow> 'w race \<Rightarrow> 'w race \<Rightarrow> bool" for c where
  begins: "ra_calls s i = None \<Longrightarrow> state_begin c u (ra_world s) = (p, w1) \<Longrightarrow>
    race_step c s (s\<lparr>ra_world := w1, ra_calls := (ra_calls s)(i \<mapsto> p)\<rparr>)"
| looks: "ra_calls s i = Some (Asking u now) \<Longrightarrow> state_lookup c u (ra_world s) = (st, w1) \<Longrightarrow>
    race_step c s (s\<lparr>ra_world := w1, ra_calls := (ra_calls s)(i \<mapsto> Looked u now st),
      ra_lookups := ra_lookups s @ [\<lparr>lk_user = u, lk_began = now, lk_state = st\<rparr>]\<rparr>)"
| stores: "ra_calls s i = Some (Looked u now st) \<Longrightarrow>
    race_step c s (s\<lparr>ra_world := state_store u now st (ra_world s),
      ra_calls := (ra_calls s)(i \<mapsto> Told u now st)\<rparr>)"
| evicts: "race_step c s (evicted u s)"
| others: "pw_cache w1 = pw_cache (ra_world s) \<Longrightarrow> race_step c s (s\<lparr>ra_world := w1\<rparr>)"

inductive_cases race_stepE: "race_step c s s'"

abbreviation race_run :: "'w pb_client \<Rightarrow> 'w race \<Rightarrow> 'w race \<Rightarrow> bool" where
  "race_run c \<equiv> (race_step c)\<^sup>*\<^sup>*"

text \<open>The other operations of the client are such other steps.\<close>

lemma other_operations:
  assumes "\<And>u. e \<noteq> PbState u" and "\<And>u. e \<noteq> PbEvict u"
  shows "race_step c s (s\<lparr>ra_world := pb_exec c (ra_world s) e\<rparr>)"
  using pb_exec_sends [of e c "ra_world s"] assms by (auto simp: pb_sends_def intro!: race_step.others)

section \<open>What an answer rests on\<close>

text \<open>Of the lookups after the first \<open>n\<close>: the cached state of \<open>u\<close>, the states about to be cached, and the
  states calls were told since \<open>old\<close>.\<close>

definition rests_on :: "lookup list \<Rightarrow> gostring \<Rightarrow> int \<Rightarrow> gostring \<Rightarrow> bool" where
  "rests_on ls u now st \<longleftrightarrow>
     (\<exists>lk\<in>set ls. lk_user lk = u \<and> lk_state lk = st \<and> now - lk_began lk < state_ttl)"

definition looked_at :: "lookup list \<Rightarrow> gostring \<Rightarrow> int \<Rightarrow> gostring \<Rightarrow> bool" where
  "looked_at ls u ts st \<longleftrightarrow> \<lparr>lk_user = u, lk_began = ts, lk_state = st\<rparr> \<in> set ls"

definition answers_fresh :: "gostring \<Rightarrow> nat \<Rightarrow> (nat \<rightharpoonup> state_call) \<Rightarrow> 'w race \<Rightarrow> bool" where
  "answers_fresh u n old s \<longleftrightarrow>
     n \<le> length (ra_lookups s)
   \<and> (\<forall>st ts. pw_cache (ra_world s) u = Some (st, ts) \<longrightarrow> looked_at (drop n (ra_lookups s)) u ts st)
   \<and> (\<forall>i ts st. ra_calls s i = Some (Looked u ts st) \<longrightarrow> looked_at (drop n (ra_lookups s)) u ts st)
   \<and> (\<forall>i now st. ra_calls s i = Some (Told u now st) \<longrightarrow>
        old i = Some (Told u now st) \<or> rests_on (drop n (ra_lookups s)) u now st)"

lemma looked_at_rests: "looked_at ls u ts st \<Longrightarrow> now - ts < state_ttl \<Longrightarrow> rests_on ls u now st"
  unfolding looked_at_def rests_on_def by force

lemma looked_at_append:
  "looked_at (ls @ xs) u ts st \<longleftrightarrow> looked_at ls u ts st \<or> looked_at xs u ts st"
  "rests_on (ls @ xs) u now st \<longleftrightarrow> rests_on ls u now st \<or> rests_on xs u now st"
  by (auto simp: looked_at_def rests_on_def)

lemma state_begin_cases:
  assumes "state_begin c u w = (p, w1)"
  obtains now where "p = Asking u now" "pw_cache w1 = pw_cache w"
  | now st ts where "p = Told u now st" "pw_cache w1 = pw_cache w" "pw_cache w u = Some (st, ts)"
      "now - ts < state_ttl"
proof -
  obtain now v where t: "pb_clock c w = (now, v)" by force
  then have "pw_cache v = pw_cache w" using pb_clock_fields by blast
  with that t assms show ?thesis
    by (auto simp: state_begin_def cache_hit_def split: option.splits if_splits)
qed

lemma state_lookup_cache: "state_lookup c u w = (st, w1) \<Longrightarrow> pw_cache w1 = pw_cache w"
  using pb_find_sends by (fastforce simp: state_lookup_def pb_sends_def split: prod.splits)

lemma answers_fresh_step:
  assumes "answers_fresh u n old s" and "race_step c s s'"
  shows "answers_fresh u n old s'"
  using assms(2)
proof cases
  case (begins i v p w1)
  from begins(3) show ?thesis
    by (cases rule: state_begin_cases) (use assms(1) begins looked_at_rests in \<open>auto simp: answers_fresh_def\<close>)
next
  case (looks i v now st w1)
  let ?l = "\<lparr>lk_user = v, lk_began = now, lk_state = st\<rparr>"
  have "looked_at [?l] v now st" by (simp add: looked_at_def)
  with assms(1) looks state_lookup_cache [OF looks(3)] show ?thesis
    by (auto simp: answers_fresh_def looked_at_append split: if_splits) blast
next
  case (stores i v now st)
  have "now - now < state_ttl" by (simp add: state_ttl_def second_def)
  with assms(1) stores looked_at_rests show ?thesis
    by (fastforce simp: answers_fresh_def state_store_def cache_store_def split: if_splits)
qed (use assms(1) in \<open>auto simp: answers_fresh_def pb_invalidate_def cache_evict_def split: if_splits\<close>)

lemma answers_fresh_run:
  assumes "race_run c s s'" and "answers_fresh u n old s"
  shows "answers_fresh u n old s'"
  using assms by (induction rule: rtranclp_induct) (auto intro: answers_fresh_step)

lemma evicted_fresh:
  assumes "\<And>i ts st. ra_calls s i \<noteq> Some (Looked u ts st)"
  shows "answers_fresh u (length (ra_lookups s)) (ra_calls s) (evicted u s)"
  using assms by (simp add: answers_fresh_def pb_invalidate_def cache_evict_def)

section \<open>Evictions\<close>

text \<open>\<open>C29\<close>: an eviction holds against every interleaving, unless it falls between the lookup and the
  store of a call for the same user. If at the eviction no call for the user is there, then whatever
  calls, evictions and other requests run afterwards, in any order, every state a call is told for this
  user is one that PocketBase gave to a lookup after the eviction, for a call that began less than 60 s
  before. Calls that have already read the cache but not yet asked PocketBase do no harm.\<close>

theorem eviction_final:
  assumes "\<forall>i ts st. ra_calls s i \<noteq> Some (Looked u ts st)"
    and "race_run c (evicted u s) s'"
    and "ra_calls s' i = Some (Told u now st)" and "ra_calls s i \<noteq> Some (Told u now st)"
  shows "\<exists>lk\<in>set (drop (length (ra_lookups s)) (ra_lookups s')).
    lk_user lk = u \<and> lk_state lk = st \<and> now - lk_began lk < state_ttl"
proof -
  have "answers_fresh u (length (ra_lookups s)) (ra_calls s) s'"
    by (rule answers_fresh_run [OF assms(2) evicted_fresh]) (use assms(1) in blast)
  with assms(3,4) show ?thesis by (simp add: answers_fresh_def rests_on_def) blast
qed


section \<open>One slot, suspended while a call is under way\<close>

text \<open>PocketBase already has the suspension (\<open>pw_net\<close>), the handler evicts next, and call 0 has got as
  far as \<open>p\<close>.\<close>

definition suspended_race :: "state_call \<Rightarrow> bool race" where
  "suspended_race p =
     \<lparr>ra_world = (st_world one_slot_state)\<lparr>pw_net := True\<rparr>, ra_calls = [0 \<mapsto> p], ra_lookups = []\<rparr>"

lemma suspended_lookup:
  assumes "pw_token w = ''t''" and "pw_exp w = token_lifetime" and "pw_net w"
  shows "fst (state_lookup one_slot_client u w) = ''suspended''"
  using one_slot_find [OF assms(1,2), of "eq_filter ''minio_access_key'' u"] assms(3)
  by (auto simp: state_lookup_def state_name_def one_slot_def)

lemma asking_told:
  assumes "ra_calls s i = Some (Asking u now)" and "fst (state_lookup c u (ra_world s)) = st"
  shows "\<exists>s'. race_run c s s' \<and> ra_calls s' i = Some (Told u now st)"
proof -
  obtain w1 where w: "state_lookup c u (ra_world s) = (st, w1)" using assms(2) by (metis prod.collapse)
  define a where "a = s\<lparr>ra_world := w1, ra_calls := (ra_calls s)(i \<mapsto> Looked u now st),
      ra_lookups := ra_lookups s @ [\<lparr>lk_user = u, lk_began = now, lk_state = st\<rparr>]\<rparr>"
  have "race_step c s a" unfolding a_def by (rule race_step.looks [OF assms(1) w])
  moreover have "race_step c a (a\<lparr>ra_world := state_store u now st (ra_world a),
      ra_calls := (ra_calls a)(i \<mapsto> Told u now st)\<rparr>)"
    by (rule race_step.stores) (simp add: a_def)
  ultimately show ?thesis by (intro exI conjI) (erule converse_rtranclp_into_rtranclp, erule r_into_rtranclp, simp)
qed

theorem eviction_final_witness:
  "\<exists>s'. race_run one_slot_client (evicted ''ada'' (suspended_race (Asking ''ada'' 0))) s'
     \<and> ra_calls s' 0 = Some (Told ''ada'' 0 ''suspended'')
     \<and> (\<exists>lk\<in>set (ra_lookups s'). lk_user lk = ''ada'' \<and> lk_state lk = ''suspended''
          \<and> 0 - lk_began lk < state_ttl)"
proof -
  let ?s = "suspended_race (Asking ''ada'' 0)"
  obtain s' where s': "race_run one_slot_client (evicted ''ada'' ?s) s'"
    "ra_calls s' 0 = Some (Told ''ada'' 0 ''suspended'')"
    using asking_told [of "evicted ''ada'' ?s" 0 "''ada''" 0 one_slot_client "''suspended''"]
      suspended_lookup [of "ra_world (evicted ''ada'' ?s)" "''ada''"]
    by (auto simp: suspended_race_def one_slot_state_def new_pb_world_def pb_invalidate_def)
  moreover have "\<forall>i ts st. ra_calls ?s i \<noteq> Some (Looked ''ada'' ts st)"
    "ra_calls ?s 0 \<noteq> Some (Told ''ada'' 0 ''suspended'')" "ra_lookups ?s = []"
    by (simp_all add: suspended_race_def)
  ultimately show ?thesis using eviction_final [of ?s "''ada''" one_slot_client s' 0 0 "''suspended''"]
    by (intro exI [of _ s'] conjI) simp_all
qed


end
