(* ===== verification/Call_Trace.thy ===== *)
theory Call_Trace
  imports Server
begin

text \<open>
  The trace of upstream calls is the whole story: a handler changes the world by performing exactly
  the calls it records, in their order and with their success. What the other theories show of the
  calls of a request is hereby a fact about the world outside. The walk over the handlers is one
  lemma per function that threads the state.
\<close>

text \<open>The case splits of a function that threads the state.\<close>

lemmas result_split = prod.split sum.split option.split bool.split if_split

lemmas result_splits = prod.splits sum.splits option.splits bool.splits if_splits

section \<open>Performing a call\<close>

definition ends :: "('w, 'a) call \<Rightarrow> 'w \<Rightarrow> bool \<Rightarrow> 'w \<Rightarrow> bool" where
  "ends f w b w' \<longleftrightarrow> is_ok (fst (f w)) = b \<and> snd (f w) = w'"

definition ends_total :: "('w \<Rightarrow> 'a \<times> 'w) \<Rightarrow> 'w \<Rightarrow> bool \<Rightarrow> 'w \<Rightarrow> bool" where
  "ends_total f w b w' \<longleftrightarrow> b \<and> snd (f w) = w'"

abbreviation the_store :: "'w server \<Rightarrow> 'w slot_store \<Rightarrow> bool" where
  "the_store sv ss \<equiv> up_store (sv_up sv) = Some ss"

abbreviation the_manager :: "'w server \<Rightarrow> 'w slot_manager \<Rightarrow> bool" where
  "the_manager sv mgr \<equiv> \<exists>ss. the_store sv ss \<and> ss_manager ss = Some mgr"

abbreviation the_keys :: "'w server \<Rightarrow> 'w key_store \<Rightarrow> bool" where
  "the_keys sv ks \<equiv> \<exists>ss. the_store sv ss \<and> ss_keys ss = Some ks"

abbreviation the_admin :: "'w server \<Rightarrow> 'w nomad_admin \<Rightarrow> bool" where
  "the_admin sv na \<equiv> up_nomad_admin (sv_up sv) = Some na"

abbreviation the_minio_admin :: "'w server \<Rightarrow> 'w minio_admin \<Rightarrow> bool" where
  "the_minio_admin sv ma \<equiv> up_minio_admin (sv_up sv) = Some ma"

text \<open>What each call of the trace stands for: the interface method with the arguments the trace shows.
  The name of a group is asked for a slot of which the trace shows the id.\<close>

fun performs :: "'w server \<Rightarrow> upcall \<Rightarrow> 'w \<Rightarrow> bool \<Rightarrow> 'w \<Rightarrow> bool" where
  "performs sv (FindSlot q) w b w' \<longleftrightarrow> (\<exists>ss. the_store sv ss \<and> ends (ss_find_slot ss q) w b w')"
| "performs sv (GroupName i) w b w' \<longleftrightarrow>
     (\<exists>ss sl. the_store sv ss \<and> sl_id sl = i \<and> ends_total (ss_group_name ss sl) w b w')"
| "performs sv (CachedState u) w b w' \<longleftrightarrow>
     (\<exists>ss. the_store sv ss \<and> ends_total (ss_cached_state ss u) w b w')"
| "performs sv (GetSlot i) w b w' \<longleftrightarrow> (\<exists>m. the_manager sv m \<and> ends (sm_get_slot m i) w b w')"
| "performs sv (PatchSlot i p) w b w' \<longleftrightarrow> (\<exists>m. the_manager sv m \<and> ends (sm_patch_slot m i p) w b w')"
| "performs sv (InvalidateState u) w b w' \<longleftrightarrow>
     (\<exists>m. the_manager sv m \<and> ends_total (\<lambda>v. ((), sm_invalidate m u v)) w b w')"
| "performs sv (ListSlots f n) w b w' \<longleftrightarrow> (\<exists>m. the_manager sv m \<and> ends (sm_list_slots m f n) w b w')"
| "performs sv (PbGet p) w b w' \<longleftrightarrow>
     (\<exists>ss get. the_store sv ss \<and> ss_pb_get ss = Some get \<and> ends (get p) w b w')"
| "performs sv (GroupKeyRecord g) w b w' \<longleftrightarrow>
     (\<exists>k. the_keys sv k \<and> ends (ks_group_key_record k g) w b w')"
| "performs sv (PutGroupKey g a t v c) w b w' \<longleftrightarrow>
     (\<exists>k. the_keys sv k \<and> ends (ks_put_group_key k g a t v c) w b w')"
| "performs sv (LookupToken t) w b w' \<longleftrightarrow> ends (up_nomad (sv_up sv) t) w b w'"
| "performs sv (VarGet n p) w b w' \<longleftrightarrow> (\<exists>a. the_admin sv a \<and> ends (na_var_get a n p) w b w')"
| "performs sv (VarPut n p v) w b w' \<longleftrightarrow> (\<exists>a. the_admin sv a \<and> ends (na_var_put a n p v) w b w')"
| "performs sv (CreateToken n r) w b w' \<longleftrightarrow> (\<exists>a. the_admin sv a \<and> ends (na_create_token a n r) w b w')"
| "performs sv (DeleteToken x) w b w' \<longleftrightarrow> (\<exists>a. the_admin sv a \<and> ends (na_delete_token a x) w b w')"
| "performs sv (GetRoleID r) w b w' \<longleftrightarrow> (\<exists>a. the_admin sv a \<and> ends (na_get_role_id a r) w b w')"
| "performs sv (MintUserToken u n e) w b w' \<longleftrightarrow> ends (hub_mint (up_hub (sv_up sv)) u n e) w b w'"
| "performs sv (UserExists u) w b w' \<longleftrightarrow>
     (\<exists>f. hub_user_exists (up_hub (sv_up sv)) = Some f \<and> ends (f u) w b w')"
| "performs sv (StopServer u) w b w' \<longleftrightarrow>
     (\<exists>f. hub_stop_server (up_hub (sv_up sv)) = Some f \<and> ends (f u) w b w')"
| "performs sv (ValidateCred u p) w b w' \<longleftrightarrow> ends (mi_validate (up_minio (sv_up sv)) u p) w b w'"
| "performs sv (ConsoleLogin u p) w b w' \<longleftrightarrow>
     (\<exists>f. mi_console_login (up_minio (sv_up sv)) = Some f \<and> ends (f u p) w b w')"
| "performs sv (RotateSecret u) w b w' \<longleftrightarrow> (\<exists>m. the_minio_admin sv m \<and> ends (ma_rotate_secret m u) w b
      w')"
| "performs sv (SetEnabled u e) w b w' \<longleftrightarrow> (\<exists>m. the_minio_admin sv m \<and> ends (ma_set_enabled m u e) w b
      w')"
| "performs sv (MkdirAll d) w b w' \<longleftrightarrow> ends (rt_mkdir_all (sv_rt sv) d) w b w'"
| "performs sv (Chmod d) w b w' \<longleftrightarrow> ends (rt_chmod (sv_rt sv) d) w b w'"
| "performs sv (WriteFile p t) w b w' \<longleftrightarrow> ends (rt_write_file (sv_rt sv) p t) w b w'"
| "performs sv (RemoveFile p) w b w' \<longleftrightarrow> ends (rt_remove (sv_rt sv) p) w b w'"
| "performs sv ReadClock w b w' \<longleftrightarrow> ends_total (rt_now (sv_rt sv)) w b w'"
| "performs sv (ReadRandom n) w b w' \<longleftrightarrow> ends (rt_rand (sv_rt sv) n) w b w'"
| "performs sv AgeGenerate w b w' \<longleftrightarrow> ends (rt_age_identity (sv_rt sv)) w b w'"
| "performs sv (ShadowCall c u) w b w' \<longleftrightarrow>
     ends (sv_shadow sv (cf_shadow_validate_url (sv_cfg sv)) c u) w b w'"

inductive performed :: "'w server \<Rightarrow> 'w \<Rightarrow> (upcall \<times> bool) list \<Rightarrow> 'w \<Rightarrow> bool" for sv where
  nothing: "performed sv w [] w"
| perform: "performed sv w cs w1 \<Longrightarrow> performs sv c w1 b w2 \<Longrightarrow> performed sv w (cs @ [(c, b)]) w2"

lemma performed_append:
  "performed sv w1 ds w2 \<Longrightarrow> performed sv w cs w1 \<Longrightarrow> performed sv w (cs @ ds) w2"
  by (induction rule: performed.induct) (auto
      simp: append_assoc [symmetric] simp del: append_assoc intro: performed.perform)

text \<open>\<open>traced A sv s s'\<close>: from \<open>s\<close> to \<open>s'\<close> the calls added to the trace are in \<open>A\<close>, and
  performing them is what happened to the world.\<close>

definition traced :: "upcall set \<Rightarrow> 'w server \<Rightarrow> 'w st \<Rightarrow> 'w st \<Rightarrow> bool" where
  "traced A sv s s' \<longleftrightarrow>
     (\<exists>cs. st_calls s' = st_calls s @ cs \<and> fst ` set cs \<subseteq> A \<and> performed sv (st_world s) cs (st_world
     s'))"

section \<open>The combinators\<close>

definition obeys :: "'w server \<Rightarrow> upcall \<Rightarrow> ('w, 'a) call \<Rightarrow> bool" where
  "obeys sv c f \<longleftrightarrow> (\<forall>w b w'. ends f w b w' \<longrightarrow> performs sv c w b w')"

definition obeys_total :: "'w server \<Rightarrow> upcall \<Rightarrow> ('w \<Rightarrow> 'a \<times> 'w) \<Rightarrow> bool" where
  "obeys_total sv c f \<longleftrightarrow> (\<forall>w b w'. ends_total f w b w' \<longrightarrow> performs sv c w b w')"

lemma obeys_calls [intro]:
  "the_store sv ss \<Longrightarrow> obeys sv (FindSlot q) (ss_find_slot ss q)"
  "the_manager sv m \<Longrightarrow> obeys sv (GetSlot i) (sm_get_slot m i)"
  "the_manager sv m \<Longrightarrow> obeys sv (PatchSlot i p) (sm_patch_slot m i p)"
  "the_manager sv m \<Longrightarrow> obeys sv (ListSlots t n) (sm_list_slots m t n)"
  "the_store sv ss \<Longrightarrow> ss_pb_get ss = Some get \<Longrightarrow> obeys sv (PbGet x) (get x)"
  "the_keys sv k \<Longrightarrow> obeys sv (GroupKeyRecord g) (ks_group_key_record k g)"
  "the_keys sv k \<Longrightarrow> obeys sv (PutGroupKey g a t v y) (ks_put_group_key k g a t v y)"
  "obeys sv (LookupToken t) (up_nomad (sv_up sv) t)"
  "the_admin sv na \<Longrightarrow> obeys sv (VarGet u x) (na_var_get na u x)"
  "the_admin sv na \<Longrightarrow> obeys sv (VarPut u x t) (na_var_put na u x t)"
  "the_admin sv na \<Longrightarrow> obeys sv (CreateToken u r) (na_create_token na u r)"
  "the_admin sv na \<Longrightarrow> obeys sv (DeleteToken u) (na_delete_token na u)"
  "the_admin sv na \<Longrightarrow> obeys sv (GetRoleID r) (na_get_role_id na r)"
  "obeys sv (MintUserToken u t e) (hub_mint (up_hub (sv_up sv)) u t e)"
  "hub_user_exists (up_hub (sv_up sv)) = Some f \<Longrightarrow> obeys sv (UserExists u) (f u)"
  "hub_stop_server (up_hub (sv_up sv)) = Some h \<Longrightarrow> obeys sv (StopServer u) (h u)"
  "obeys sv (ValidateCred u t) (mi_validate (up_minio (sv_up sv)) u t)"
  "mi_console_login (up_minio (sv_up sv)) = Some l \<Longrightarrow> obeys sv (ConsoleLogin u t) (l u t)"
  "the_minio_admin sv ma \<Longrightarrow> obeys sv (RotateSecret u) (ma_rotate_secret ma u)"
  "the_minio_admin sv ma \<Longrightarrow> obeys sv (SetEnabled u d) (ma_set_enabled ma u d)"
  "obeys sv (MkdirAll t) (rt_mkdir_all (sv_rt sv) t)"
  "obeys sv (Chmod t) (rt_chmod (sv_rt sv) t)"
  "obeys sv (WriteFile t u) (rt_write_file (sv_rt sv) t u)"
  "obeys sv (RemoveFile t) (rt_remove (sv_rt sv) t)"
  "obeys sv (ReadRandom j) (rt_rand (sv_rt sv) j)"
  "obeys sv AgeGenerate (rt_age_identity (sv_rt sv))"
  "obeys sv (ShadowCall t u) (sv_shadow sv (cf_shadow_validate_url (sv_cfg sv)) t u)"
  unfolding obeys_def performs.simps by blast+

lemma obeys_total_calls [intro]:
  "the_store sv ss \<Longrightarrow> obeys_total sv (GroupName (sl_id sl)) (ss_group_name ss sl)"
  "the_store sv ss \<Longrightarrow> obeys_total sv (CachedState u) (ss_cached_state ss u)"
  "the_manager sv m \<Longrightarrow> obeys_total sv (InvalidateState u) (\<lambda>w. ((), sm_invalidate m u w))"
  "obeys_total sv ReadClock (rt_now (sv_rt sv))"
  unfolding obeys_total_def performs.simps by blast+

lemma traced_refl [simp, intro]: "traced A sv s s"
  unfolding traced_def by (auto intro: performed.nothing)

lemma traced_trans:
  assumes "traced A sv s1 s2" and "traced A sv s s1"
  shows "traced A sv s s2"
proof -
  from assms obtain cs ds where "st_calls s2 = st_calls s @ cs @ ds" "fst ` set cs \<subseteq> A" "fst ` set
      ds \<subseteq> A"
    "performed sv (st_world s) cs (st_world s1)" "performed sv (st_world s1) ds (st_world s2)"
    by (auto simp: traced_def)
  then show ?thesis unfolding traced_def by (intro exI [of _ "cs @ ds"]) (auto intro: performed_append)
qed

lemma traced_mono: "traced A sv s s' \<Longrightarrow> A \<subseteq> B \<Longrightarrow> traced B sv s s'"
  by (auto simp: traced_def)

lemma traced_keep [simp]:
  "traced A sv s (log_at lv m as s1) = traced A sv s s1"
  "traced A sv s (s1\<lparr>st_codes := c\<rparr>) = traced A sv s s1"
  "traced A sv s (s1\<lparr>st_level := l\<rparr>) = traced A sv s s1"
  "traced A sv s (bind_attrs as s0 s1) = traced A sv s s1"
  by (simp_all add: traced_def bind_attrs_def)

lemma traced_perform:
  assumes "traced A sv s s1" and "st_calls s2 = st_calls s1 @ [(c, b)]" and "c \<in> A"
    and "performs sv c (st_world s1) b (st_world s2)"
  shows "traced A sv s s2"
proof -
  from assms(1) obtain cs where "st_calls s1 = st_calls s @ cs" "fst ` set cs \<subseteq> A"
    "performed sv (st_world s) cs (st_world s1)"
    by (auto simp: traced_def)
  with assms(2-4) show ?thesis
    unfolding traced_def by (intro exI [of _ "cs @ [(c, b)]"]) (auto intro: performed.perform)
qed

lemma traced_io:
  assumes "io c f s1 = (x, s2)" and "traced A sv s s1" and "obeys sv c f" and "c \<in> A"
  shows "traced A sv s s2"
proof (rule traced_perform [OF assms(2) io_eqD(5) [OF assms(1)] assms(4)])
  have "ends f (st_world s1) (is_ok x) (st_world s2)" by (simp add: ends_def io_eqD(1) [OF assms(1)])
  with assms(3) show "performs sv c (st_world s1) (is_ok x) (st_world s2)" unfolding obeys_def by blast
qed

lemma traced_io_total:
  assumes "io_total c f s1 = (x, s2)" and "traced A sv s s1" and "obeys_total sv c f" and "c \<in> A"
  shows "traced A sv s s2"
proof (rule traced_perform [OF assms(2) io_total_eqD(5) [OF assms(1)] assms(4)])
  have "ends_total f (st_world s1) True (st_world s2)" by (simp add: ends_total_def io_total_eqD(1)
      [OF assms(1)])
  with assms(3) show "performs sv c (st_world s1) True (st_world s2)" unfolding obeys_total_def by blast
qed

lemma traced_effects:
  "traced A sv s s1 \<Longrightarrow> obeys sv c f \<Longrightarrow> c \<in> A \<Longrightarrow> traced A sv s (snd (io c f s1))"
  "traced A sv s s1 \<Longrightarrow> obeys sv c g \<Longrightarrow> c \<in> A \<Longrightarrow> traced A sv s (silent c g s1)"
  "traced A sv s s1 \<Longrightarrow> obeys sv c g \<Longrightarrow> c \<in> A \<Longrightarrow> traced A sv s (best_effort c g t as s1)"
  "traced A sv s s1 \<Longrightarrow> obeys_total sv c h \<Longrightarrow> c \<in> A \<Longrightarrow> traced A sv s (snd (io_total c h s1))"
  by (auto simp: silent_def best_effort_def split: prod.split sum.split
      intro: traced_io [OF prod.collapse [symmetric]] traced_io_total [OF prod.collapse [symmetric]]
      elim: traced_io)

lemma traced_log_failure: "traced A sv s (snd x) \<Longrightarrow> traced A sv s (log_failure t as x)"
  by (cases x) (auto simp: log_failure_def split: sum.split)

section \<open>The walk over the handlers\<close>

text \<open>Only a claim, a suspension and a reactivation write the state of a slot. The walk is made once for
  any set of calls that has all those that do not.\<close>

definition state_free :: "upcall \<Rightarrow> bool" where
  "state_free c \<longleftrightarrow> (\<forall>i p. c = PatchSlot i p \<longrightarrow> map_of p ''state'' = None)"

definition movers :: "endpoint set" where
  "movers = {EpSlotsClaim, EpSuspend, EpReactivate}"

locale call_bound =
  fixes A :: "upcall set"
  assumes quiet: "state_free c \<Longrightarrow> c \<in> A"
begin

lemma quiet_calls [simp]:
  "FindSlot q \<in> A" "GroupName q \<in> A" "CachedState q \<in> A" "GetSlot q \<in> A" "InvalidateState q \<in> A"
  "ListSlots q n \<in> A" "PbGet q \<in> A" "GroupKeyRecord q \<in> A" "PutGroupKey q x y v z \<in> A"
  "LookupToken q \<in> A" "VarGet q x \<in> A" "VarPut q x y \<in> A" "CreateToken q x \<in> A" "DeleteToken q \<in> A"
  "GetRoleID q \<in> A" "MintUserToken q x v \<in> A" "UserExists q \<in> A" "StopServer q \<in> A"
  "ValidateCred q x \<in> A" "ConsoleLogin q x \<in> A" "RotateSecret q \<in> A" "SetEnabled q d \<in> A"
  "MkdirAll q \<in> A" "Chmod q \<in> A" "WriteFile q x \<in> A" "RemoveFile q \<in> A" "ReadClock \<in> A"
  "ReadRandom m \<in> A" "AgeGenerate \<in> A" "ShadowCall q x \<in> A"
  "PatchSlot q (config_patch x y) \<in> A" "PatchSlot q (creds_patch x y z) \<in> A"
  "PatchSlot q local_patch \<in> A" "PatchSlot q (opaque_patch sv x) \<in> A"
  by (auto intro!: quiet
      simp: state_free_def config_patch_def creds_patch_def local_patch_def opaque_patch_def)

lemma traced_clock: "clock sv s1 = (x, s2) \<Longrightarrow> traced A sv s s1 \<Longrightarrow> traced A sv s s2"
  unfolding clock_def by (rule traced_io_total) auto

lemmas traced_elims = traced_io traced_io_total traced_clock

text \<open>The functions the handlers share.\<close>

lemma traced_session:
  "session_make sv u ttl s1 = (x, s2) \<Longrightarrow> traced A sv s s1 \<Longrightarrow> traced A sv s s2"
  "session_verify sv tok s1 = (y, s2) \<Longrightarrow> traced A sv s s1 \<Longrightarrow> traced A sv s s2"
  by (auto simp: session_make_def session_verify_def Let_def
      split: result_splits elim!: traced_elims)

lemma traced_states:
  "slot_state sv u s1 = (x, s2) \<Longrightarrow> traced A sv s s1 \<Longrightarrow> traced A sv s s2"
  "cli_token_slot_state sv u s1 = (y, s2) \<Longrightarrow> traced A sv s s1 \<Longrightarrow> traced A sv s s2"
  "workbench_slot_state sv u s1 = (z, s2) \<Longrightarrow> traced A sv s s1 \<Longrightarrow> traced A sv s s2"
  "login_block sv u s1 = (v, s2) \<Longrightarrow> traced A sv s s1 \<Longrightarrow> traced A sv s s2"
  "call_shadow sv r s1 = (k, s2) \<Longrightarrow> traced A sv s s1 \<Longrightarrow> traced A sv s s2"
  by (auto simp: slot_state_def cli_token_slot_state_def workbench_slot_state_def login_block_def
      call_shadow_def Let_def
      split: result_splits elim!: traced_elims)

lemma traced_codes:
  "magic_issue sv u n ttl ex s1 = (x, s2) \<Longrightarrow> traced A sv s s1 \<Longrightarrow> traced A sv s s2"
  "magic_redeem sv c s1 = (y, s2) \<Longrightarrow> traced A sv s s1 \<Longrightarrow> traced A sv s s2"
  by (auto simp: magic_issue_def magic_redeem_def Let_def
      split: result_splits elim!: traced_elims)

lemma traced_portal:
  "portal_extra sv a u nt pw s1 = (x, s2) \<Longrightarrow> traced A sv s s1 \<Longrightarrow> traced A sv s s2"
  "minio_jwt sv en s1 = (y, s2) \<Longrightarrow> traced A sv s s1 \<Longrightarrow> traced A sv s s2"
  by (auto simp: portal_extra_def minio_jwt_def Let_def
      split: result_splits elim!: traced_elims)

lemma traced_managed:
  "find_managed sv n s1 = (x, s2) \<Longrightarrow> traced A sv s s1 \<Longrightarrow> traced A sv s s2"
  by (auto simp: find_managed_def Let_def
      split: result_splits elim!: traced_elims)

lemma traced_opaque:
  "mint_opaque sv s1 = (x, s2) \<Longrightarrow> traced A sv s s1 \<Longrightarrow> traced A sv s s2"
  "claim_opaque sv cs s1 = (y, s2) \<Longrightarrow> traced A sv s s1 \<Longrightarrow> traced A sv s s2"
  by (auto simp: mint_opaque_def claim_opaque_def Let_def
      split: result_splits elim!: traced_elims)

lemma traced_effective:
  "effective_cred_source ss q g s1 = (x, s2) \<Longrightarrow> the_store sv ss \<Longrightarrow> traced A sv s s1 \<Longrightarrow> traced A sv s s2"
  by (auto simp: effective_cred_source_def lookup_group_cred_source_default_def Let_def
      split: result_splits elim!: traced_elims)

lemma traced_persist:
  "persist_slot_config sv ss m i op s1 = (x, s2) \<Longrightarrow> the_store sv ss \<Longrightarrow> ss_manager ss = Some m \<Longrightarrow>
      traced A sv s s1 \<Longrightarrow> traced A sv s s2"
  by (auto simp: persist_slot_config_def now_pb_def Let_def
      split: result_splits elim!: traced_elims)

lemma traced_secrets:
  "secrets_auth_slot sv r s1 = (x, s2) \<Longrightarrow> traced A sv s s1 \<Longrightarrow> traced A sv s s2"
  "secrets_namespace_and_path sv slot key g s1 = (y, s2) \<Longrightarrow> traced A sv s s1 \<Longrightarrow> traced A sv s s2"
  "wrap_kek sv mk kid ver sk s1 = (z, s2) \<Longrightarrow> traced A sv s s1 \<Longrightarrow> traced A sv s s2"
  by (auto simp: secrets_auth_slot_def secrets_namespace_and_path_def wrap_kek_def Let_def
      split: result_splits elim!: traced_elims)

lemma traced_probe:
  "mint_diag (up_hub (sv_up sv)) c u s1 = (x, s2) \<Longrightarrow> traced A sv s s1 \<Longrightarrow> traced A sv s s2"
  "hub_user_part sv n s1 = (y, s2) \<Longrightarrow> traced A sv s s1 \<Longrightarrow> traced A sv s s2"
  by (auto simp: mint_diag_def hub_user_part_def Let_def
      split: result_splits elim!: traced_elims)

lemma traced_fresh:
  "role_id_of na q s1 = (x, s2) \<Longrightarrow> the_admin sv na \<Longrightarrow> traced A sv s s1 \<Longrightarrow> traced A sv s s2"
  "mint_credentials w na ma u n q s1 = (y, s2) \<Longrightarrow> the_admin sv na \<Longrightarrow> the_minio_admin sv ma \<Longrightarrow>
      traced A sv s s1 \<Longrightarrow> traced A sv s s2"
  "write_private_file sv d n c s1 = (z, s2) \<Longrightarrow> traced A sv s s1 \<Longrightarrow> traced A sv s s2"
  "remove_creds_files sv n s1 = (v, s2) \<Longrightarrow> traced A sv s s1 \<Longrightarrow> traced A sv s s2"
  by (auto simp: role_id_of_def mint_credentials_def write_private_file_def remove_creds_files_def
      Let_def
      split: result_splits intro!: traced_effects elim!: traced_elims)

lemmas traced_parts =
  traced_io traced_io_total traced_clock traced_session traced_states traced_codes traced_portal
  traced_managed traced_opaque traced_effective traced_persist traced_secrets traced_probe traced_fresh

lemma traced_decide:
  "decide_validate sv r s1 = (x, s2) \<Longrightarrow> traced A sv s s1 \<Longrightarrow> traced A sv s s2"
  by (auto simp: decide_validate_def Let_def
      split: result_splits elim!: traced_parts)

lemma traced_invalidate:
  "the_manager sv m \<Longrightarrow> traced A sv s s1 \<Longrightarrow> traced A sv s (invalidate m u s1)"
  by (auto simp: invalidate_def Let_def
      split: result_split intro!: traced_effects elim!: traced_parts)

lemma traced_files:
  "traced A sv s s1 \<Longrightarrow> traced A sv s (snd (write_creds_file sv n a b e s1))"
  "traced A sv s s1 \<Longrightarrow> traced A sv s (snd (write_abc_config_file sv n b s1))"
  "traced A sv s s1 \<Longrightarrow> traced A sv s (snd (remove_creds_files sv n s1))"
  unfolding write_creds_file_def write_abc_config_file_def
  by (auto intro: traced_fresh prod.collapse [symmetric])

lemma traced_lifecycle:
  "traced A sv s s1 \<Longrightarrow> traced A sv s (suspend_minio sv u s1)"
  "traced A sv s s1 \<Longrightarrow> traced A sv s (suspend_token sv slot s1)"
  "traced A sv s s1 \<Longrightarrow> traced A sv s (stop_server sv t n s1)"
  "traced A sv s s1 \<Longrightarrow> the_admin sv na \<Longrightarrow> traced A sv s (rotate_old_token na old s1)"
  by (auto simp: suspend_minio_def suspend_token_def stop_server_def rotate_old_token_def Let_def
      split: option.split intro!: traced_effects)

lemma traced_rotate_config:
  "traced A sv s s1 \<Longrightarrow> the_store sv ss \<Longrightarrow> ss_manager ss = Some m \<Longrightarrow>
     traced A sv s (rotate_config sv ss m n slot s1)"
  by (auto simp: rotate_config_def split: prod.split sum.split
      intro!: traced_log_failure traced_files elim!: traced_parts)

lemmas traced_intros =
  traced_effects traced_invalidate traced_log_failure traced_files traced_lifecycle traced_rotate_config

text \<open>Where the handlers get the parts of the store from.\<close>

lemma store_parts:
  "find_managed sv n s = (Inr (ss, mgr, slot), s1) \<Longrightarrow>
     traced A sv s s1 \<and> the_store sv ss \<and> ss_manager ss = Some mgr"
  "manager_of sv = Some mgr \<Longrightarrow> the_manager sv mgr"
  "keys_prereqs sv = Inr (mk, ks) \<Longrightarrow> the_keys sv ks"
  by (auto simp: manager_of_def keys_prereqs_def key_store_of_def bind_eq_Some_conv
      dest: find_managed_result(1,2) split: option.splits elim!: traced_parts)

text \<open>The handlers.\<close>

lemma traced_mint_failed:
  "traced A sv s s1 \<Longrightarrow> traced A sv s (snd (mint_failed sv u e s1))"
  by (auto simp: mint_failed_def mint_refused_def Let_def
      split: go_error.split hub_error_kind.split prod.split intro!: traced_intros elim!: traced_parts)

lemma traced_flip_cred_source:
  "flip_cred_source sv ss mgr slot want s1 = (x, s2) \<Longrightarrow> the_store sv ss \<Longrightarrow> ss_manager ss = Some mgr
     \<Longrightarrow> traced A sv s s1 \<Longrightarrow> traced A sv s s2"
  by (auto simp: flip_cred_source_def Let_def
      split: prod.splits sum.splits if_splits elim!: traced_parts)

lemma traced_claim_slot:
  "(\<And>i p. PatchSlot i p \<in> A) \<Longrightarrow> traced A sv s s1 \<Longrightarrow> the_store sv ss \<Longrightarrow> ss_manager ss = Some mgr \<Longrightarrow>
      traced A sv s (snd (claim_slot sv ss mgr req c slot s1))"
  by (auto simp: claim_slot_def Let_def
      split: result_split intro!: traced_intros elim!: traced_parts traced_decide)

lemma traced_suspend_slot:
  "(\<And>i p. PatchSlot i p \<in> A) \<Longrightarrow> traced A sv s s1 \<Longrightarrow> the_manager sv mgr \<Longrightarrow>
      traced A sv s (snd (suspend_slot sv mgr n slot s1))"
  by (auto simp: suspend_slot_def Let_def
      split: result_split intro!: traced_intros elim!: traced_parts traced_decide)

lemma traced_reactivate_slot:
  "(\<And>i p. PatchSlot i p \<in> A) \<Longrightarrow> traced A sv s s1 \<Longrightarrow> the_manager sv mgr \<Longrightarrow> the_admin sv na \<Longrightarrow>
      the_minio_admin sv ma \<Longrightarrow> traced A sv s (snd (reactivate_slot sv mgr na ma n slot g s1))"
  by (auto simp: reactivate_slot_def Let_def
      split: result_split intro!: traced_intros elim!: traced_parts traced_decide)

lemma traced_rotate_slot:
  "traced A sv s s1 \<Longrightarrow> the_store sv ss \<Longrightarrow> ss_manager ss = Some mgr \<Longrightarrow> the_admin sv na \<Longrightarrow>
      the_minio_admin sv ma \<Longrightarrow> traced A sv s (snd (rotate_slot sv ss mgr na ma n slot g s1))"
  by (auto simp: rotate_slot_def Let_def
      split: result_split intro!: traced_intros elim!: traced_parts traced_decide)

lemma traced_release_key:
  "traced A sv s s1 \<Longrightarrow> the_keys sv ks \<Longrightarrow> traced A sv s (snd (release_key sv mk ks slot body s1))"
  by (auto simp: release_key_def Let_def
      split: result_split intro!: traced_intros elim!: traced_parts traced_decide)

lemma traced_provision_key:
  "traced A sv s s1 \<Longrightarrow> the_keys sv ks \<Longrightarrow> traced A sv s (snd (provision_key sv mk ks gid g s1))"
  by (auto simp: provision_key_def Let_def
      split: result_split intro!: traced_intros elim!: traced_parts traced_decide)

lemmas traced_inner =
  traced_intros traced_mint_failed traced_claim_slot traced_suspend_slot
  traced_reactivate_slot traced_rotate_slot traced_release_key traced_provision_key

lemma traced_browser_handlers:
  "traced A sv s (snd (handle_validate sv r s))"
  "traced A sv s (snd (handle_validate_optional sv r s))"
  "traced A sv s (snd (handle_validate_shadow sv r s))"
  "traced A sv s (snd (handle_login_get sv r s))"
  "traced A sv s (snd (handle_login_post sv r s))"
  "traced A sv s (snd (handle_logout sv r s))"
  "traced A sv s (snd (handle_auth_redeem sv r s))"
  "traced A sv s (snd (handle_auth_minio_login sv r s))"
  by (auto simp: handle_validate_def handle_validate_optional_def handle_validate_shadow_def
      handle_login_get_def handle_login_post_def handle_logout_def handle_auth_redeem_def
      handle_auth_minio_login_def Let_def
      split: result_split intro!: traced_intros elim!: traced_parts traced_decide)

lemma traced_token_handlers:
  "traced A sv s (snd (handle_auth_me sv r s))"
  "traced A sv s (snd (handle_verify_nomad sv r s))"
  "traced A sv s (snd (handle_workbench_token sv r s))"
  "traced A sv s (snd (handle_auth_exchange sv r s))"
  "traced A sv s (snd (handle_slots_me_config sv r s))"
  "traced A sv s (snd (handle_cli_token_post sv r s))"
  by (auto simp: handle_auth_me_def handle_verify_nomad_def handle_workbench_token_def
      handle_auth_exchange_def handle_slots_me_config_def handle_cli_token_post_def
      workbench_mint_def mint_token_def slots_config_blob_def cli_issue_def Let_def
      split: result_split intro!: traced_inner elim!: traced_parts traced_decide)

lemma traced_secret_handlers:
  "traced A sv s (snd (handle_secrets_put sv r s))"
  "traced A sv s (snd (handle_secrets_get sv r s))"
  "traced A sv s (snd (handle_keys_get sv r s))"
  "traced A sv s (snd (handle_keys_mint sv r s))"
  by (auto simp: handle_secrets_put_def handle_secrets_get_def handle_keys_get_def
      handle_keys_mint_def store_secret_def fetch_secret_def Let_def
      split: result_split dest!: store_parts intro!: traced_inner elim!: traced_parts traced_decide)

lemma traced_operator_handlers:
  "traced A sv s (snd (handle_manage_list_slots sv r s))"
  "traced A sv s (snd (handle_manage_get_slot sv r s))"
  "traced A sv s (snd (handle_slot_diag sv ho r s))"
  "traced A sv s (snd (handle_log_level sv r s))"
  "traced A sv s (snd (handle_manage_rotate sv r s))"
  by (auto simp: handle_manage_list_slots_def handle_manage_get_slot_def handle_slot_diag_def
      handle_log_level_def handle_manage_rotate_def full_report_def set_level_def Let_def
      split: result_split dest!: store_parts intro!: traced_inner elim!: traced_parts traced_decide)

lemma traced_cred_source: "traced A sv s (snd (handle_cred_source sv r s))"
proof -
  obtain x s1 where x: "find_managed sv (rq_slot r) s = (x, s1)" by force
  have s1: "traced A sv s s1" by (rule traced_managed [OF x traced_refl])
  have flip: "traced A sv s s2 \<and> traced A sv s (invalidate mgr u s2)"
    if "x = Inr (ss, mgr, slot)" "flip_cred_source sv ss mgr slot want s1 = (y, s2)" for ss mgr slot
    want y s2 u
    using store_parts(1) [OF x [unfolded that(1)]] traced_flip_cred_source [OF that(2)] s1
    by (auto intro: traced_invalidate)
  show ?thesis
    using s1 flip by (cases "require_operator sv r")
      (auto simp: handle_cred_source_def x Let_def split: option.split sum.split prod.split)
qed

lemma traced_moving_handlers:
  "(\<And>i p. PatchSlot i p \<in> A) \<Longrightarrow> traced A sv s (snd (handle_slots_claim sv r s))"
  "(\<And>i p. PatchSlot i p \<in> A) \<Longrightarrow> traced A sv s (snd (handle_manage_suspend sv r s))"
  "(\<And>i p. PatchSlot i p \<in> A) \<Longrightarrow> traced A sv s (snd (handle_manage_reactivate sv r s))"
  by (auto simp: handle_slots_claim_def handle_manage_suspend_def handle_manage_reactivate_def Let_def
      split: result_split dest!: store_parts intro!: traced_inner elim!: traced_parts traced_decide)

lemmas traced_handlers =
  traced_browser_handlers traced_token_handlers traced_secret_handlers traced_operator_handlers
  traced_cred_source traced_moving_handlers

text \<open>The service.\<close>

lemma traced_dispatch:
  "ep \<notin> movers \<or> (\<forall>i p. PatchSlot i p \<in> A) \<Longrightarrow> traced A (ps_server p) s (snd (dispatch p ep r s))"
  by (cases ep) (auto simp: movers_def traced_handlers)

lemma traced_serve_mux:
  "fst (route (rq_method r) segs) \<notin> movers \<or> (\<forall>i p. PatchSlot i p \<in> A) \<Longrightarrow>
     traced A (ps_server p) s (snd (serve_mux p segs r s))"
  by (auto simp: serve_mux_def intro!: traced_dispatch split: prod.splits)

lemma traced_request_id: "request_id_of sv r s1 = (x, s2) \<Longrightarrow> traced A sv s s1 \<Longrightarrow> traced A sv s s2"
  by (auto simp: request_id_of_def new_request_id_def Let_def split: if_splits prod.splits sum.splits
      elim!: traced_parts)

end

interpretation all_calls: call_bound UNIV
  by unfold_locales simp

definition still_calls :: "upcall set" where
  "still_calls = {c. state_free c}"

interpretation no_move: call_bound still_calls
  by unfold_locales (simp add: still_calls_def)

section \<open>The service as a whole\<close>

text \<open>The chain around the routes adds the calls of the request id and of the clock.\<close>

lemma serve_unfold:
  obtains rid s0 t0 s1 z s2 t1 s3 as
  where "request_id_of (ps_server p) r s = (rid, s0)" and "clock (ps_server p) s0 = (t0, s1)"
    and "serve_mux p segs r s1 = (z, s2)" and "clock (ps_server p) s2 = (t1, s3)"
    and "serve p segs r s =
      (under_header ''X-Abc-Auth-API-Version'' api_version (under_header ''X-Request-Id'' rid z),
       bind_attrs [AStr ''rid'' rid] s0 (log_at L1 ''http.access'' as s3))"
proof -
  let ?sv = "ps_server p"
  obtain rid s0 where rid: "request_id_of ?sv r s = (rid, s0)" by force
  obtain t0 s1 where t0: "clock ?sv s0 = (t0, s1)" by force
  obtain z s2 where z: "serve_mux p segs r s1 = (z, s2)" by force
  obtain t1 s3 where t1: "clock ?sv s2 = (t1, s3)" by force
  show thesis
    by (rule that [OF rid t0 z t1])
      (use rid t0 z t1 in \<open>simp add: serve_def wrap_handler_def handler_chain_def version_header_def
        request_id_def access_log_def recoverer_def\<close>)
qed

lemma serve_chain:
  obtains s1 where "traced still_calls (ps_server p) s s1"
    and "traced still_calls (ps_server p) (snd (serve_mux p segs r s1)) (snd (serve p segs r s))"
    and "rs_status (fst (serve p segs r s)) = rs_status (fst (serve_mux p segs r s1))"
proof (cases rule: serve_unfold [of p r s segs])
  case (1 rid s0 t0 s1 z s2 t1 s3 as)
  show thesis
  proof (rule that [of s1])
    show "traced still_calls (ps_server p) s s1"
      by (rule no_move.traced_clock [OF 1(2) no_move.traced_request_id [OF 1(1) traced_refl]])
    show "traced still_calls (ps_server p) (snd (serve_mux p segs r s1)) (snd (serve p segs r s))"
      using no_move.traced_clock [OF 1(4) traced_refl] by (simp add: 1(3,5))
  qed (simp add: 1(3,5))
qed

lemma traced_serve: "traced UNIV (ps_server p) s (snd (serve p segs r s))"
proof -
  obtain s1 where 1: "traced still_calls (ps_server p) s s1"
    and 2: "traced still_calls (ps_server p) (snd (serve_mux p segs r s1)) (snd (serve p segs
    r s))"
    by (rule serve_chain)
  have "traced UNIV (ps_server p) s1 (snd (serve_mux p segs r s1))" by (rule
      all_calls.traced_serve_mux) simp
  with 1 2 show ?thesis by (meson subset_UNIV traced_mono traced_trans)
qed

definition serve_all :: "'w process \<Rightarrow> 'w st \<Rightarrow> (gostring list \<times> request) list \<Rightarrow> 'w st" where
  "serve_all p = run_steps (\<lambda>s (segs, r). snd (serve p segs r s))"

lemma serve_all_simps [simp]:
  "serve_all p s [] = s"
  "serve_all p s ((segs, r) # qs) = serve_all p (snd (serve p segs r s)) qs"
  by (simp_all add: serve_all_def)

text \<open>The trace is complete. Whatever requests the service answers, from whatever state, on whatever
  paths and with whatever upstreams, the world outside has changed by exactly the calls in the trace:
  each entry is one call of the interface method it names with the arguments it shows, in order, and
  its flag is whether that call succeeded. Nothing is called behind the back of the trace, and the
  trace claims nothing that did not happen.\<close>

lemma trace_complete:
  "\<exists>cs. st_calls (serve_all p s qs) = st_calls s @ cs
     \<and> performed (ps_server p) (st_world s) cs (st_world (serve_all p s qs))"
proof -
  have "traced UNIV (ps_server p) s (serve_all p s qs)"
  proof (induction qs arbitrary: s)
    case (Cons q qs)
    obtain segs r where "q = (segs, r)" by force
    with traced_trans [OF Cons.IH traced_serve] show ?case by simp
  qed simp
  then show ?thesis by (auto simp: traced_def)
qed

end
