(* ===== verification/Claim_Exchange.thy ===== *)
theory Claim_Exchange
  imports Claim Exchange
begin

text \<open>
  From a claim to the broker: the token in the configuration a claim hands out is the one the broker
  takes. The store is assumed to do what PocketBase documents for records: a patch sets the fields it
  names, a filter answers with a record of the collection, and the broker's filter finds the claimed
  record with the hash if there is one only.
\<close>

section \<open>The contract of the store\<close>

definition patched :: "patch \<Rightarrow> gostring \<Rightarrow> gostring \<Rightarrow> gostring" where
  "patched p f old = (case map_of p f of Some (JStr v) \<Rightarrow> v | _ \<Rightarrow> old)"

definition patch_slot :: "patch \<Rightarrow> slot \<Rightarrow> slot" where
  "patch_slot p sl =
     sl\<lparr>sl_nomad_token_secret := patched p ''nomad_token_secret'' (sl_nomad_token_secret sl),
        sl_nomad_token_accessor := patched p ''nomad_token_accessor'' (sl_nomad_token_accessor sl),
        sl_minio_secret_key := patched p ''minio_secret_key'' (sl_minio_secret_key sl),
        sl_state := patched p ''state'' (sl_state sl),
        sl_cred_source := patched p ''cred_source'' (sl_cred_source sl),
        sl_opaque_token_hash := patched p ''opaque_token_hash'' (sl_opaque_token_hash sl),
        sl_config_yaml := patched p ''config_yaml'' (sl_config_yaml sl),
        sl_claimed_by_name := patched p ''claimed_by_name'' (sl_claimed_by_name sl),
        sl_claimed_by_email := patched p ''claimed_by_email'' (sl_claimed_by_email sl),
        sl_claimed_at := patched p ''claimed_at'' (sl_claimed_at sl)\<rparr>"

text \<open>\<open>slots w\<close> are the records in the world \<open>w\<close>, by id.\<close>

definition keeps_slots :: "('w \<Rightarrow> gostring \<rightharpoonup> slot) \<Rightarrow> ('w \<Rightarrow> 'a \<times> 'w) \<Rightarrow> bool" where
  "keeps_slots slots f \<longleftrightarrow> (\<forall>w. slots (snd (f w)) = slots w)"

definition holds_hash :: "(gostring \<rightharpoonup> slot) \<Rightarrow> gostring \<Rightarrow> gostring \<Rightarrow> slot \<Rightarrow> bool" where
  "holds_hash m h i sl \<longleftrightarrow> m i = Some sl \<and> sl_opaque_token_hash sl = h \<and> sl_state sl = ''claimed''"

definition record_contract ::
  "'w server \<Rightarrow> 'w slot_store \<Rightarrow> 'w slot_manager \<Rightarrow> ('w \<Rightarrow> gostring \<rightharpoonup> slot) \<Rightarrow> bool" where
  "record_contract sv ss mgr slots \<longleftrightarrow>
     (\<forall>i p w. is_ok (fst (sm_patch_slot mgr i p w)) \<longrightarrow>
        slots (snd (sm_patch_slot mgr i p w)) = (slots w)(i := map_option (patch_slot p) (slots w i)))
   \<and> (\<forall>i w sl. fst (sm_get_slot mgr i w) = Inr sl \<longrightarrow> slots w i = Some sl)
   \<and> (\<forall>q w sl. fst (ss_find_slot ss q w) = Inr (Some sl) \<longrightarrow> slots w (sl_id sl) = Some sl)
   \<and> (\<forall>h i sl w. holds_hash (slots w) h i sl \<and> (\<forall>j sl'. holds_hash (slots w) h j sl' \<longrightarrow> j = i)
        \<longrightarrow> fst (ss_find_slot ss (opaque_filter h) w) \<in> insert (Inr (Some sl)) (range Inl))
   \<and> (\<forall>q. keeps_slots slots (ss_find_slot ss q)) \<and> (\<forall>i. keeps_slots slots (sm_get_slot mgr i))
   \<and> (\<forall>sl. keeps_slots slots (ss_group_name ss sl))
   \<and> keeps_slots slots (rt_now (sv_rt sv)) \<and> (\<forall>n. keeps_slots slots (rt_rand (sv_rt sv) n))"

lemma record_contractD:
  assumes "record_contract sv ss mgr slots"
  shows "io (PatchSlot i p) (sm_patch_slot mgr i p) s = (Inr u, s1) \<Longrightarrow>
      slots (st_world s1) = (slots (st_world s))(i := map_option (patch_slot p) (slots (st_world s) i))"
    and "io (GetSlot i) (sm_get_slot mgr i) s = (x, s1) \<Longrightarrow>
      slots (st_world s1) = slots (st_world s) \<and> (\<forall>sl. x = Inr sl \<longrightarrow> slots (st_world s) i = Some sl)"
    and "io (FindSlot q) (ss_find_slot ss q) s = (y, s1) \<Longrightarrow>
      slots (st_world s1) = slots (st_world s)
      \<and> (\<forall>sl. y = Inr (Some sl) \<longrightarrow> slots (st_world s) (sl_id sl) = Some sl)"
    and "io_total (GroupName j) (ss_group_name ss sl) s = (g, s1) \<Longrightarrow> slots (st_world s1) = slots (st_world s)"
    and "clock sv s = (t, s1) \<Longrightarrow> slots (st_world s1) = slots (st_world s)"
    and "mint_opaque sv s = (z, s1) \<Longrightarrow> slots (st_world s1) = slots (st_world s)"
proof -
  note c = assms [unfolded record_contract_def]
  show "slots (st_world s1) = (slots (st_world s))(i := map_option (patch_slot p) (slots (st_world s) i))"
    if "io (PatchSlot i p) (sm_patch_slot mgr i p) s = (Inr u, s1)"
    using c io_eqD(1) [OF that] by (metis fst_conv is_ok_simps(2) snd_conv)
  show "slots (st_world s1) = slots (st_world s) \<and> (\<forall>sl. x = Inr sl \<longrightarrow> slots (st_world s) i = Some sl)"
    if "io (GetSlot i) (sm_get_slot mgr i) s = (x, s1)"
    using c io_eqD(1) [OF that] unfolding keeps_slots_def by (metis fst_conv snd_conv)
  show "slots (st_world s1) = slots (st_world s)
      \<and> (\<forall>sl. y = Inr (Some sl) \<longrightarrow> slots (st_world s) (sl_id sl) = Some sl)"
    if "io (FindSlot q) (ss_find_slot ss q) s = (y, s1)"
    using c io_eqD(1) [OF that] unfolding keeps_slots_def by (metis fst_conv snd_conv)
  show "slots (st_world s1) = slots (st_world s)" if "io_total (GroupName j) (ss_group_name ss sl) s = (g, s1)"
    using c io_total_eqD(1) [OF that] unfolding keeps_slots_def by (metis snd_conv)
  show "slots (st_world s1) = slots (st_world s)" if "clock sv s = (t, s1)"
    using c io_total_eqD(1) [OF that [unfolded clock_def]] unfolding keeps_slots_def by (metis snd_conv)
  show "slots (st_world s1) = slots (st_world s)" if "mint_opaque sv s = (z, s1)"
  proof -
    obtain v a where v: "io (ReadRandom 32) (rt_rand (sv_rt sv) 32) s = (v, a)" by force
    then have "slots (st_world a) = slots (st_world s)"
      using c io_eqD(1) [OF v] unfolding keeps_slots_def by (metis snd_conv)
    with that v show ?thesis by (cases v) (auto simp: mint_opaque_def)
  qed
qed

section \<open>What a claim leaves behind\<close>

lemma patch_config_keeps:
  "sl_state (patch_slot (config_patch y n) sl) = sl_state sl"
  "sl_opaque_token_hash (patch_slot (config_patch y n) sl) = sl_opaque_token_hash sl"
  "sl_cred_source (patch_slot (config_patch y n) sl) = sl_cred_source sl"
  "sl_id (patch_slot p sl) = sl_id sl"
  by (simp_all add: patch_slot_def patched_def config_patch_def)

text \<open>A persist of a slot on the broker pathway with a fresh token.\<close>

lemma persist_fresh:
  assumes c: "record_contract sv ss mgr slots"
    and p: "persist_slot_config sv ss mgr i op s = (Inr yaml, s')" and "op \<noteq> []"
    and sl: "slots (st_world s) i = Some sl" and cs: "sl_cred_source sl = ''seedling/v1''"
  shows "contains yaml op \<and> (\<exists>n. slots (st_world s') i = Some (patch_slot (config_patch yaml n) sl))"
proof -
  obtain x s1 where g: "io (GetSlot i) (sm_get_slot mgr i) s = (x, s1)" by force
  with p obtain slot where x: "x = Inr slot" by (cases x) (auto simp: persist_slot_config_def)
  from record_contractD(2) [OF c g] x sl have slot: "slot = sl" and w1: "slots (st_world s1) = slots (st_world s)"
    by auto
  obtain grp s2 where n: "io_total (GroupName (sl_id sl)) (ss_group_name ss sl) s1 = (grp, s2)" by force
  have m: "cred_mode (sl_cred_source sl) = ''seedling/v1''" by (simp add: cs)
  let ?y = "opaque_yaml (up_cluster (sv_up sv)) (sl_slot_name sl) op"
  have r: "render_config_yaml (rt_is_print (sv_rt sv)) (up_cluster (sv_up sv)) (sl_slot_name sl) grp
      (sl_nomad_token_secret sl) (sl_minio_access_key sl) (sl_minio_secret_key sl) ''seedling/v1'' op = Inr ?y"
    using \<open>op \<noteq> []\<close> by (simp add: render_config_yaml_def)
  obtain t s3 where t: "now_pb sv s2 = (t, s3)" by force
  then obtain a where "clock sv s2 = (a, s3)" by (auto simp: now_pb_def split: prod.splits)
  with record_contractD(4) [OF c n] record_contractD(5) [OF c] w1
  have w3: "slots (st_world s3) = slots (st_world s)" by metis
  obtain z s4 where z: "io (PatchSlot i (config_patch ?y t)) (sm_patch_slot mgr i (config_patch ?y t)) s3
      = (z, s4)" by force
  with p g x slot n r t m \<open>op \<noteq> []\<close> obtain u where "z = Inr u" and y: "yaml = ?y" "s' = s4"
    by (cases z) (auto simp: persist_slot_config_def Let_def)
  with record_contractD(1) [OF c] z w3 sl
  have "slots (st_world s') i = Some (patch_slot (config_patch yaml t) sl)" by simp
  moreover have "contains (''        access_token: '' @ op) op"
    unfolding contains_def by (metis sublist_append_leftI sublist_order.order.refl)
  then have "contains yaml op" unfolding y opaque_yaml_def by (rule contains_lines [rotated]) simp
  ultimately show ?thesis by blast
qed

lemma claim_patch_effect:
  "sl_state (patch_slot (claim_patch req t @ opaque_patch sv op) sl) = ''claimed''"
  "sl_opaque_token_hash (patch_slot (claim_patch req t @ opaque_patch sv op) sl) = sha256_hex sv op"
  "sl_cred_source (patch_slot (claim_patch req t @ opaque_patch sv op) sl) = ''seedling/v1''"
  by (simp_all add: patch_slot_def patched_def claim_patch_def opaque_patch_def)

definition claimed_with :: "'w server \<Rightarrow> gostring \<Rightarrow> gostring \<Rightarrow> slot \<Rightarrow> (gostring \<rightharpoonup> slot) \<Rightarrow> bool" where
  "claimed_with sv op i sl m \<longleftrightarrow>
     holds_hash m (sha256_hex sv op) i sl \<and> sl_cred_source sl = ''seedling/v1'' \<and> op \<noteq> []"

lemma claim_slot_leaves:
  assumes c: "record_contract sv ss mgr slots"
    and found: "slots (st_world s) (sl_id slot) = Some slot"
    and ok: "rs_status (fst (claim_slot sv ss mgr req ''seedling/v1'' slot s)) = 200"
  shows "\<exists>op sl blob. claimed_with sv op (sl_id slot) sl
        (slots (st_world (snd (claim_slot sv ss mgr req ''seedling/v1'' slot s))))
    \<and> rs_body (fst (claim_slot sv ss mgr req ''seedling/v1'' slot s)) = Text blob \<and> contains blob op"
proof -
  have e: "effective_cred_source ss ''seedling/v1'' (sl_group slot) s = (''seedling/v1'', s)"
    by (simp add: effective_cred_source_def)
  obtain t s2 where t: "clock sv s = (t, s2)" by force
  obtain y s3 where o: "mint_opaque sv s2 = (y, s3)" by force
  with e t ok obtain op where y: "y = Inr op" by (cases y) (simp_all add: claim_slot_def claim_opaque_def)
  have op: "op \<noteq> []"
    using o y by (auto simp: mint_opaque_def opaque_prefix_def split: prod.splits sum.splits)
  let ?p = "claim_patch req (millis_text t) @ opaque_patch sv op"
  obtain z s4 where p: "io (PatchSlot (sl_id slot) ?p) (sm_patch_slot mgr (sl_id slot) ?p) s3 = (z, s4)"
    by force
  with e t o y ok obtain u where z: "z = Inr u" by (cases z) (simp_all add: claim_slot_def claim_opaque_def)
  obtain v s5 where r: "persist_slot_config sv ss mgr (sl_id slot) op s4 = (v, s5)" by force
  with e t o y p z ok obtain blob where v: "v = Inr blob"
    by (cases v) (simp_all add: claim_slot_def claim_opaque_def)
  have h: "claim_slot sv ss mgr req ''seedling/v1'' slot s = (claim_response slot blob,
      log_at L1 ''claim.ok'' [AStr ''slot'' (sl_slot_name slot), AStr ''cred_source'' ''seedling/v1'',
        AStr ''name'' (trim_space (cq_name req))] s5)"
    using e t o y p z r v by (simp add: claim_slot_def claim_opaque_def)
  let ?sl = "patch_slot ?p slot"
  have "slots (st_world s3) (sl_id slot) = Some slot"
    using record_contractD(5) [OF c t] record_contractD(6) [OF c o] found by simp
  with record_contractD(1) [OF c p [unfolded z]]
  have s4: "slots (st_world s4) (sl_id slot) = Some ?sl" by simp
  from persist_fresh [OF c r [unfolded v] op s4] claim_patch_effect(3) obtain n where
    b: "contains blob op" and s5: "slots (st_world s5) (sl_id slot) = Some (patch_slot (config_patch blob n) ?sl)"
    by blast
  have "claimed_with sv op (sl_id slot) (patch_slot (config_patch blob n) ?sl) (slots (st_world s5))"
    using s5 op by (simp add: claimed_with_def holds_hash_def patch_config_keeps claim_patch_effect)
  with b show ?thesis unfolding h by (auto simp: claim_response_def)
qed

section \<open>What the broker makes of it\<close>

lemma exchange_of_holder:
  assumes c: "record_contract sv ss mgr slots" and u: "up_store (sv_up sv) = Some ss"
    and b: "bearer_value (rq_header r ''Authorization'') = Some op" and op: "op \<noteq> []"
    and h: "holds_hash (slots (st_world s)) (sha256_hex sv op) i sl"
    and uniq: "\<forall>j sl'. holds_hash (slots (st_world s)) (sha256_hex sv op) j sl' \<longrightarrow> j = i"
    and cs: "sl_cred_source sl = ''seedling/v1''"
  shows "rs_status (fst (handle_auth_exchange sv r s)) = 500
    \<or> (\<exists>grp. fst (handle_auth_exchange sv r s) = write_json 200 (bundle_json (bundle_of (up_cluster (sv_up sv)) sl grp)))"
proof -
  let ?q = "opaque_filter (sha256_hex sv op)"
  obtain x s1 where x: "io (FindSlot ?q) (ss_find_slot ss ?q) s = (x, s1)" by force
  have f: "fst (ss_find_slot ss ?q (st_world s)) = x" using io_eqD(1) [OF x] by simp
  have "fst (ss_find_slot ss ?q (st_world s)) \<in> insert (Inr (Some sl)) (range Inl)"
    using c h uniq unfolding record_contract_def by blast
  then consider e where "x = Inl e" | "x = Inr (Some sl)" unfolding f by blast
  then show ?thesis
  proof cases
    case 1
    with u b op x show ?thesis by (simp add: handle_auth_exchange_def Let_def)
  next
    case 2
    have "trim_space ''seedling/v1'' = ''seedling/v1''" by code_simp
    with 2 u b op x cs show ?thesis
      by (auto simp: handle_auth_exchange_def Let_def split: prod.split)
  qed
qed

section \<open>Properties\<close>

text \<open>\<open>C5\<close>: a claim is good for the broker. When a claim that asks for the broker's pathway answers
  200, the configuration it hands out contains a token whose hash the store then holds for a claimed
  slot, and from then on, as long as that record stays and no other claimed one has the same hash,
  the broker answers this token with the credentials of exactly that slot, unless the store fails.\<close>

theorem claim_then_exchange:
  assumes "up_store (sv_up sv) = Some ss" and "ss_manager ss = Some mgr"
    and "record_contract sv ss mgr slots"
    and "claim_request_of (read_limited body_limit r) = Some req"
    and "cred_mode (cq_cred_source req) = ''seedling/v1''"
    and "rs_status (fst (handle_slots_claim sv r s)) = 200"
  shows "\<exists>op i sl blob. rs_body (fst (handle_slots_claim sv r s)) = Text blob \<and> contains blob op
    \<and> claimed_with sv op i sl (slots (st_world (snd (handle_slots_claim sv r s))))
    \<and> (\<forall>r' s'. bearer_value (rq_header r' ''Authorization'') = Some op
         \<and> claimed_with sv op i sl (slots (st_world s'))
         \<and> (\<forall>j sl'. holds_hash (slots (st_world s')) (sha256_hex sv op) j sl' \<longrightarrow> j = i) \<longrightarrow>
         rs_status (fst (handle_auth_exchange sv r' s')) = 500
         \<or> (\<exists>grp. fst (handle_auth_exchange sv r' s')
              = write_json 200 (bundle_json (bundle_of (up_cluster (sv_up sv)) sl grp))))"
proof -
  let ?q = "claim_filter (trim_space (cq_claim_code req))"
  obtain y s1 where f: "io (FindSlot ?q) (ss_find_slot ss ?q) s = (y, s1)" by force
  with assms obtain slot where y: "y = Inr (Some slot)"
    by (cases y) (auto simp: handle_slots_claim_def Let_def split: option.splits if_splits)
  have h: "handle_slots_claim sv r s = claim_slot sv ss mgr req ''seedling/v1'' slot s1"
    using assms f y by (auto simp: handle_slots_claim_def Let_def split: if_splits)
  have found: "slots (st_world s1) (sl_id slot) = Some slot"
    using record_contractD(3) [OF assms(3) f] y by simp
  from claim_slot_leaves [OF assms(3) found] assms(6) obtain op sl blob where
    l: "claimed_with sv op (sl_id slot) sl (slots (st_world (snd (handle_slots_claim sv r s))))"
      "rs_body (fst (handle_slots_claim sv r s)) = Text blob" "contains blob op"
    unfolding h by blast
  have "rs_status (fst (handle_auth_exchange sv r' s')) = 500
      \<or> (\<exists>grp. fst (handle_auth_exchange sv r' s')
           = write_json 200 (bundle_json (bundle_of (up_cluster (sv_up sv)) sl grp)))"
    if "bearer_value (rq_header r' ''Authorization'') = Some op
         \<and> claimed_with sv op (sl_id slot) sl (slots (st_world s'))
         \<and> (\<forall>j sl'. holds_hash (slots (st_world s')) (sha256_hex sv op) j sl' \<longrightarrow> j = sl_id slot)" for r' s'
    using exchange_of_holder [OF assms(3,1), of r' op s' "sl_id slot" sl] that
    by (auto simp: claimed_with_def)
  with l show ?thesis by blast
qed

section \<open>A store of one record\<close>

definition record_manager :: "slot slot_manager" where
  "record_manager =
     \<lparr>sm_get_slot = (\<lambda>i w. (if i = sl_id w then Inr w else Inl (ErrText ''404''), w)),
      sm_patch_slot = (\<lambda>i p w. (Inr (), if i = sl_id w then patch_slot p w else w)),
      sm_invalidate = (\<lambda>u w. w), sm_list_slots = (\<lambda>f n w. (Inr [w], w))\<rparr>"

definition record_store :: "slot slot_store" where
  "record_store =
     \<lparr>ss_find_slot = (\<lambda>q w.
        (Inr (if q = claim_filter (sl_claim_code w) \<and> sl_state w = ''unclaimed''
                \<or> q = opaque_filter (sl_opaque_token_hash w) \<and> sl_state w = ''claimed''
              then Some w else None), w)),
      ss_group_name = (\<lambda>slot w. (sl_group_name slot, w)), ss_cached_state = (\<lambda>u w. (''none'', w)),
      ss_manager = Some record_manager, ss_keys = None, ss_pb_get = None\<rparr>"

definition record_server :: "slot server" where
  "record_server = plain_server ((mock_upstreams sample_cluster ''h'')\<lparr>up_store := Some record_store\<rparr>)"

definition record_of :: "slot \<Rightarrow> gostring \<rightharpoonup> slot" where
  "record_of w = [sl_id w \<mapsto> w]"

lemma record_server_contract: "record_contract record_server record_store record_manager record_of"
  by (auto simp: record_contract_def record_of_def record_server_def record_store_def record_manager_def
      plain_server_def plain_runtime_def keeps_slots_def holds_hash_def patch_slot_def split: if_splits)

definition free_slot :: slot where
  "free_slot = blank_slot\<lparr>sl_id := ''1'', sl_state := ''unclaimed'', sl_claim_code := ''c''\<rparr>"

definition broker_claim :: request where
  "broker_claim = sample_request
     \<lparr>rq_method := ''POST'', rq_body := ''{\"claim_code\":\"c\",\"cred_source\":\"seedling/v1\"}''\<rparr>"

lemma broker_claim_request:
  "claim_request_of (read_limited body_limit broker_claim) =
     Some \<lparr>cq_claim_code = ''c'', cq_name = [], cq_email = [], cq_cred_source = ''seedling/v1''\<rparr>"
proof -
  have "read_limited body_limit broker_claim = ''{\"claim_code\":\"c\",\"cred_source\":\"seedling/v1\"}''"
    by (simp add: read_limited_def body_limit_def broker_claim_def)
  moreover have "claim_request_of ''{\"claim_code\":\"c\",\"cred_source\":\"seedling/v1\"}'' =
     Some \<lparr>cq_claim_code = ''c'', cq_name = [], cq_email = [], cq_cred_source = ''seedling/v1''\<rparr>" by code_simp
  ultimately show ?thesis by simp
qed

lemma claim_then_exchange_witness:
  "\<exists>op blob. rs_body (fst (handle_slots_claim record_server broker_claim (plain_state free_slot))) = Text blob
    \<and> contains blob op \<and> sl_opaque_token_hash
        (st_world (snd (handle_slots_claim record_server broker_claim (plain_state free_slot)))) = sha256_hex record_server op"
proof -
  let ?h = "handle_slots_claim record_server broker_claim (plain_state free_slot)"
  have t: "trim_space ''c'' = ''c''" by code_simp
  have m: "cred_mode ''seedling/v1'' = ''seedling/v1''" by simp
  have u: "up_store (sv_up record_server) = Some record_store" "ss_manager record_store = Some record_manager"
    by (simp_all add: record_server_def plain_server_def record_store_def)
  have f: "fst (ss_find_slot record_store (claim_filter ''c'') free_slot) = Inr (Some free_slot)"
    by (simp add: record_store_def free_slot_def)
  have rt: "rt_rand (sv_rt record_server) 32 = (\<lambda>w. (Inr (replicate 32 (CHR ''r'')), w))"
    "rt_now (sv_rt record_server) = (\<lambda>w. (0, w))"
    by (simp_all add: record_server_def plain_server_def plain_runtime_def fun_eq_iff)
  have w: "snd (ss_find_slot record_store q v) = v" for q v by (simp add: record_store_def)
  have g: "ss_group_name record_store = (\<lambda>slot w. (sl_group_name slot, w))" by (simp add: record_store_def)
  have "rs_status (fst ?h) = 200"
    by (simp add: handle_slots_claim_def broker_claim_request t u Let_def io_def case_prod_beta f w plain_state_def
        claim_slot_def effective_cred_source_def clock_def io_total_def claim_opaque_def mint_opaque_def rt
        record_manager_def persist_slot_config_def render_config_yaml_def now_pb_def claim_patch_effect
        opaque_prefix_def claim_response_def g patch_config_keeps)
  from claim_then_exchange [OF u record_server_contract broker_claim_request _ this] m
  show ?thesis by (fastforce simp: claimed_with_def holds_hash_def record_of_def split: if_splits)
qed

end
