(* ===== verification/Claim_Once.thy ===== *)
theory Claim_Once
  imports Claim
begin

text \<open>
  A slot is claimed at most once. The store is assumed to do what PocketBase documents for the calls
  a claim makes: a filter on a code and the unclaimed state finds a slot in that state, a patch that
  succeeds sets the fields it names, and reading changes nothing. The filter is only what it seems
  for codes without quotes and backslashes, because the code pastes them in.
\<close>

section \<open>The contract of the store\<close>

text \<open>\<open>taken w i\<close>: in the world \<open>w\<close> the slot with id \<open>i\<close> is in another state than
  \<^verbatim>\<open>unclaimed\<close>.\<close>

definition keeps_taken :: "('w \<Rightarrow> gostring \<Rightarrow> bool) \<Rightarrow> ('w \<Rightarrow> 'a \<times> 'w) \<Rightarrow> bool" where
  "keeps_taken taken f \<longleftrightarrow> (\<forall>w i. taken w i \<longrightarrow> taken (snd (f w)) i)"

definition plain_code :: "gostring \<Rightarrow> bool" where
  "plain_code c \<longleftrightarrow> chr_of 39 \<notin> set c \<and> chr_of 92 \<notin> set c"

definition store_contract ::
  "('w \<Rightarrow> gostring \<Rightarrow> bool) \<Rightarrow> 'w slot_store \<Rightarrow> 'w slot_manager \<Rightarrow> bool" where
  "store_contract taken ss mgr \<longleftrightarrow>
     (\<forall>code w slot. plain_code code \<longrightarrow> fst (ss_find_slot ss (claim_filter code) w) = Inr (Some slot)
        \<longrightarrow> \<not> taken w (sl_id slot))
   \<and> (\<forall>i p w. map_of p ''state'' = Some (JStr ''claimed'') \<longrightarrow> is_ok (fst (sm_patch_slot mgr i p w))
        \<longrightarrow> taken (snd (sm_patch_slot mgr i p w)) i)
   \<and> (\<forall>i p. map_of p ''state'' \<noteq> Some (JStr ''unclaimed'') \<longrightarrow> keeps_taken taken (sm_patch_slot mgr i p))
   \<and> (\<forall>q. keeps_taken taken (ss_find_slot ss q)) \<and> (\<forall>i. keeps_taken taken (sm_get_slot mgr i))
   \<and> (\<forall>sl. keeps_taken taken (ss_group_name ss sl))
   \<and> (\<forall>get. ss_pb_get ss = Some get \<longrightarrow> (\<forall>p. keeps_taken taken (get p)))"

definition claim_contract :: "'w server \<Rightarrow> ('w \<Rightarrow> gostring \<Rightarrow> bool) \<Rightarrow> bool" where
  "claim_contract sv taken \<longleftrightarrow>
     (\<forall>ss mgr. up_store (sv_up sv) = Some ss \<longrightarrow> ss_manager ss = Some mgr \<longrightarrow> store_contract taken ss mgr)
   \<and> keeps_taken taken (rt_now (sv_rt sv)) \<and> (\<forall>n. keeps_taken taken (rt_rand (sv_rt sv) n))"

section \<open>What a step does to the slots\<close>

text \<open>The ids that successful patches marked claimed, in order.\<close>

definition claim_id :: "upcall \<times> bool \<Rightarrow> gostring list" where
  "claim_id x =
     (case x of
        (PatchSlot i p, True) \<Rightarrow> if map_of p ''state'' = Some (JStr ''claimed'') then [i] else []
      | _ \<Rightarrow> [])"

definition claim_ids :: "(upcall \<times> bool) list \<Rightarrow> gostring list" where
  "claim_ids cs = concat (map claim_id cs)"

lemma claim_ids_simps [simp]:
  "claim_ids [] = []" "claim_ids (x # cs) = claim_id x @ claim_ids cs"
  "claim_ids (cs @ ds) = claim_ids cs @ claim_ids ds"
  by (simp_all add: claim_ids_def)

lemma claim_id_False [simp]: "claim_id (c, False) = []"
  by (simp add: claim_id_def split: upcall.split)

definition takes :: "('w \<Rightarrow> gostring \<Rightarrow> bool) \<Rightarrow> gostring list \<Rightarrow> 'w st \<Rightarrow> 'w st \<Rightarrow> bool" where
  "takes taken js s s' \<longleftrightarrow>
     (\<forall>i. taken (st_world s) i \<or> i \<in> set js \<longrightarrow> taken (st_world s') i)
   \<and> (\<exists>cs. st_calls s' = st_calls s @ cs \<and> claim_ids cs = js)"

lemma takes_refl [simp]: "takes t [] s s"
  by (simp add: takes_def)

lemma takes_trans: "takes t js s s1 \<Longrightarrow> takes t ks s1 s2 \<Longrightarrow> takes t (js @ ks) s s2"
  by (auto simp: takes_def)

lemma takes_log [simp]: "takes t js s (log_at lv m as s1) = takes t js s s1"
  by (simp add: takes_def)

lemma takes_io:
  assumes "io c f s1 = (x, s2)" and "takes t js s s1" and "keeps_taken t f" and "\<And>b. claim_id (c, b) = []"
  shows "takes t js s s2"
  using io_eqD(1,5) [OF assms(1)] assms(2-4) by (fastforce simp: takes_def keeps_taken_def)

lemma takes_io_total:
  assumes "io_total c f s1 = (x, s2)" and "takes t js s s1" and "keeps_taken t f" and "\<And>b. claim_id (c, b) = []"
  shows "takes t js s s2"
  using io_total_eqD(1,5) [OF assms(1)] assms(2-4) by (fastforce simp: takes_def keeps_taken_def)

lemma claim_id_quiet [simp]:
  "claim_id (FindSlot q, b) = []" "claim_id (GetSlot i, b) = []" "claim_id (GroupName i, b) = []"
  "claim_id (PbGet p, b) = []" "claim_id (ReadClock, b) = []" "claim_id (ReadRandom n, b) = []"
  "claim_id (PatchSlot i (config_patch y m), b) = []"
  by (simp_all add: claim_id_def config_patch_def split: bool.split)

section \<open>One claim\<close>

lemma takes_clock:
  "clock sv s1 = (x, s2) \<Longrightarrow> takes t js s s1 \<Longrightarrow> keeps_taken t (rt_now (sv_rt sv)) \<Longrightarrow> takes t js s s2"
  unfolding clock_def by (erule takes_io_total) simp_all

lemma takes_opaque:
  "claim_opaque sv cs s1 = (x, s2) \<Longrightarrow> takes t js s s1 \<Longrightarrow> keeps_taken t (rt_rand (sv_rt sv) 32)
     \<Longrightarrow> takes t js s s2"
  by (auto simp: claim_opaque_def mint_opaque_def split: if_splits prod.splits sum.splits elim!: takes_io)

lemma takes_effective:
  assumes "effective_cred_source ss q g s1 = (x, s2)" and "takes t js s s1"
    and "\<forall>get. ss_pb_get ss = Some get \<longrightarrow> (\<forall>p. keeps_taken t (get p))"
  shows "takes t js s s2"
  using assms
  by (auto simp: effective_cred_source_def lookup_group_cred_source_default_def Let_def
      split: if_splits option.splits prod.splits sum.splits elim!: takes_io)

lemma takes_persist:
  assumes "persist_slot_config sv ss mgr i op s1 = (x, s2)" and "takes t js s s1"
    and "store_contract t ss mgr" and "keeps_taken t (rt_now (sv_rt sv))"
  shows "takes t js s s2"
proof -
  have p: "keeps_taken t (sm_patch_slot mgr i (config_patch y m))" and g: "keeps_taken t (sm_get_slot mgr i)"
    and n: "keeps_taken t (ss_group_name ss sl)" for y m sl
    using assms(3) by (simp_all add: store_contract_def config_patch_def)
  obtain x a where x: "io (GetSlot i) (sm_get_slot mgr i) s1 = (x, a)" by force
  have a: "takes t js s a" by (rule takes_io [OF x assms(2) g]) simp
  show ?thesis
  proof (cases "\<exists>slot. x = Inr slot \<and> \<not> keeps_blob slot op")
    case False
    then consider e where "x = Inl e" | slot where "x = Inr slot" "keeps_blob slot op" by (cases x) auto
    then show ?thesis using x a assms(1) by cases (simp_all add: persist_slot_config_def keeps_blob_def)
  next
    case True
    then obtain slot where slot: "x = Inr slot" "\<not> keeps_blob slot op" by blast
    obtain y b where y: "io_total (GroupName (sl_id slot)) (ss_group_name ss slot) a = (y, b)" by force
    have b: "takes t js s b" by (rule takes_io_total [OF y a n]) simp
    obtain m c where m: "now_pb sv b = (m, c)" by force
    then have c: "takes t js s c" using b assms(4) by (auto simp: now_pb_def split: prod.splits elim: takes_clock)
    show ?thesis
    proof (cases "render_slot sv slot y op")
      case (Inl e)
      with x slot y b assms(1) show ?thesis
        by (auto simp: persist_slot_config_def keeps_blob_def render_slot_def Let_def split: if_splits)
    next
      case (Inr yaml)
      obtain z d where z: "io (PatchSlot i (config_patch yaml m)) (sm_patch_slot mgr i (config_patch yaml m)) c
          = (z, d)" by force
      have "takes t js s d" by (rule takes_io [OF z c p]) simp
      with Inr x slot y m z assms(1) show ?thesis
        by (cases z) (auto simp: persist_slot_config_def keeps_blob_def render_slot_def Let_def
            split: if_splits)
    qed
  qed
qed

lemma claim_slot_takes:
  assumes "store_contract t ss mgr" and "keeps_taken t (rt_now (sv_rt sv))"
    and "keeps_taken t (rt_rand (sv_rt sv) 32)" and "takes t [] s0 s"
  shows "takes t [] s0 (snd (claim_slot sv ss mgr req q slot s))
    \<or> takes t [sl_id slot] s0 (snd (claim_slot sv ss mgr req q slot s))"
proof -
  note c = assms(1) [unfolded store_contract_def]
  obtain cs s1 where e: "effective_cred_source ss q (sl_group slot) s = (cs, s1)" by force
  obtain n s2 where n: "clock sv s1 = (n, s2)" by force
  obtain y s3 where y: "claim_opaque sv cs s2 = (y, s3)" by force
  have q3: "takes t [] s0 s3"
    using takes_opaque [OF y takes_clock [OF n takes_effective [OF e assms(4)]]] assms(2,3) c by blast
  show ?thesis
  proof (cases y)
    case (Inl err)
    with e n y q3 show ?thesis by (simp add: claim_slot_def)
  next
    case (Inr opaque)
    let ?p = "claim_patch req (millis_text n) @ (if cs = ''seedling/v1'' then opaque_patch sv opaque else [])"
    obtain z s4 where z: "io (PatchSlot (sl_id slot) ?p) (sm_patch_slot mgr (sl_id slot) ?p) s3 = (z, s4)"
      by force
    have p: "map_of ?p ''state'' = Some (JStr ''claimed'')" by (simp add: claim_patch_def)
    then have k: "keeps_taken t (sm_patch_slot mgr (sl_id slot) ?p)" using c by auto
    have tk: "is_ok (fst (sm_patch_slot mgr i p w)) \<Longrightarrow> t (snd (sm_patch_slot mgr i p w)) i"
      if "map_of p ''state'' = Some (JStr ''claimed'')" for i p w using c that by blast
    note zD = io_eqD(1,5) [OF z]
    have mono: "t (st_world s3) i \<Longrightarrow> t (st_world s4) i" for i
      using k zD(1) unfolding keeps_taken_def by (metis snd_conv)
    show ?thesis
    proof (cases z)
      case (Inl err)
      with mono zD(2) have "takes t [] s3 s4"
        unfolding takes_def
        by (intro conjI allI impI exI [of _ "[(PatchSlot (sl_id slot) ?p, False)]"]) auto
      then have "takes t [] s0 s4" using takes_trans [OF q3] by simp
      with Inl Inr e n y z show ?thesis by (simp add: claim_slot_def)
    next
      case (Inr u)
      have "t (st_world s4) (sl_id slot)"
        using tk [OF p, of "sl_id slot" "st_world s3"] zD(1) Inr by simp
      with mono zD(2) Inr p have "takes t [sl_id slot] s3 s4"
        unfolding takes_def
        by (intro conjI allI impI exI [of _ "[(PatchSlot (sl_id slot) ?p, True)]"]) (auto simp: claim_id_def)
      then have "takes t [sl_id slot] s0 s4" using takes_trans [OF q3] by simp
      moreover obtain v s5 where v: "persist_slot_config sv ss mgr (sl_id slot) opaque s4 = (v, s5)" by force
      ultimately have "takes t [sl_id slot] s0 s5" using takes_persist assms(1,2) by blast
      with Inr \<open>y = Inr opaque\<close> e n y z v show ?thesis
        by (cases v) (simp_all add: claim_slot_def)
    qed
  qed
qed

definition plain_request :: "request \<Rightarrow> bool" where
  "plain_request r \<longleftrightarrow>
     (case claim_request_of (read_limited body_limit r) of
        None \<Rightarrow> True | Some req \<Rightarrow> plain_code (trim_space (cq_claim_code req)))"

lemma claim_takes:
  assumes "claim_contract sv t" and "plain_request r"
  shows "takes t [] s (snd (handle_slots_claim sv r s))
    \<or> (\<exists>i. \<not> t (st_world s) i \<and> takes t [i] s (snd (handle_slots_claim sv r s)))"
proof (cases "\<exists>req ss mgr. claim_request_of (read_limited body_limit r) = Some req
    \<and> up_store (sv_up sv) = Some ss \<and> ss_manager ss = Some mgr")
  case False
  then show ?thesis
    by (auto simp: handle_slots_claim_def Let_def split: option.split)
next
  case True
  then obtain req ss mgr where r: "claim_request_of (read_limited body_limit r) = Some req"
    "up_store (sv_up sv) = Some ss" "ss_manager ss = Some mgr" by blast
  with assms have c: "store_contract t ss mgr" and n: "keeps_taken t (rt_now (sv_rt sv))"
    and b: "keeps_taken t (rt_rand (sv_rt sv) 32)" and p: "plain_code (trim_space (cq_claim_code req))"
    by (auto simp: claim_contract_def plain_request_def)
  let ?q = "claim_filter (trim_space (cq_claim_code req))"
  obtain x s1 where x: "io (FindSlot ?q) (ss_find_slot ss ?q) s = (x, s1)" by force
  have s1: "takes t [] s s1" using x c by (auto simp: store_contract_def elim!: takes_io)
  show ?thesis
  proof (cases "\<exists>slot. x = Inr (Some slot)")
    case True
    then obtain slot where slot: "x = Inr (Some slot)" ..
    with io_eqD(1) [OF x] c p have free: "\<not> t (st_world s) (sl_id slot)"
      by (metis fst_conv store_contract_def)
    from claim_slot_takes [OF c n b s1, of req "cred_mode (cq_cred_source req)" slot] free r x slot
    show ?thesis
      by (auto simp: handle_slots_claim_def Let_def)
  next
    case False
    with r x s1 show ?thesis
      by (auto simp: handle_slots_claim_def Let_def split: sum.split option.split)
  qed
qed

section \<open>A run of the service\<close>

text \<open>Claims, one after the other under the lock, with anything in between that does not free a slot
  and is not a claim.\<close>

datatype 'w claim_event = Claims request | Others "'w st \<Rightarrow> 'w st"

fun claim_step :: "'w server \<Rightarrow> 'w st \<Rightarrow> 'w claim_event \<Rightarrow> 'w st" where
  "claim_step sv s (Claims r) = snd (handle_slots_claim sv r s)"
| "claim_step sv s (Others f) = f s"

fun claim_event_ok :: "('w \<Rightarrow> gostring \<Rightarrow> bool) \<Rightarrow> 'w claim_event \<Rightarrow> bool" where
  "claim_event_ok t (Claims r) \<longleftrightarrow> plain_request r"
| "claim_event_ok t (Others f) \<longleftrightarrow> (\<forall>s. takes t [] s (f s))"

definition claimed_once :: "('w \<Rightarrow> gostring \<Rightarrow> bool) \<Rightarrow> 'w st \<Rightarrow> bool" where
  "claimed_once t s \<longleftrightarrow>
     distinct (claim_ids (st_calls s)) \<and> (\<forall>i\<in>set (claim_ids (st_calls s)). t (st_world s) i)"

lemma claimed_once_quiet: "claimed_once t s \<Longrightarrow> takes t [] s s' \<Longrightarrow> claimed_once t s'"
  by (auto simp: claimed_once_def takes_def)

lemma claimed_once_one:
  "claimed_once t s \<Longrightarrow> takes t [i] s s' \<Longrightarrow> \<not> t (st_world s) i \<Longrightarrow> claimed_once t s'"
  by (auto simp: claimed_once_def takes_def)

interpretation claim_run: step_invariant "claim_step sv"
  "\<lambda>s. claim_contract sv t \<longrightarrow> claimed_once t s" "claim_event_ok t"
proof
  fix s and e :: "'a claim_event"
  assume s: "claim_contract sv t \<longrightarrow> claimed_once t s" and e: "claim_event_ok t e"
  show "claim_contract sv t \<longrightarrow> claimed_once t (claim_step sv s e)"
  proof
    assume c: "claim_contract sv t"
    with s have "claimed_once t s" ..
    with e claim_takes [OF c] show "claimed_once t (claim_step sv s e)"
      by (cases e) (auto intro: claimed_once_quiet claimed_once_one)
  qed
qed

text \<open>A slot is claimed at most once. In a process that starts without history, after any
  sequence of claims with plain codes and of other operations that free no slot, no two of the
  patches that marked a slot claimed were for the same slot, whatever failed along the way. The store
  is assumed to keep the contract above.\<close>

lemma claim_at_most_once:
  assumes "claim_contract sv t" and "\<forall>e\<in>set es. claim_event_ok t e" and "st_calls s = []"
  shows "distinct (claim_ids (st_calls (run_steps (claim_step sv) s es)))"
proof -
  have "claim_contract sv t \<longrightarrow> claimed_once t s" using assms(3) by (simp add: claimed_once_def)
  from claim_run.run_inv [OF this assms(2)] assms(1) show ?thesis by (simp add: claimed_once_def)
qed

text \<open>One slot and a store that keeps the contract: two claims with the same code.\<close>

definition lone_manager :: "bool slot_manager" where
  "lone_manager =
     \<lparr>sm_get_slot = (\<lambda>i w. (Inr blank_slot, w)),
      sm_patch_slot = (\<lambda>i p w. (Inr (), w \<or> map_of p ''state'' = Some (JStr ''claimed''))),
      sm_invalidate = (\<lambda>u w. w), sm_list_slots = (\<lambda>f n w. (Inr [blank_slot], w))\<rparr>"

definition lone_store :: "bool slot_store" where
  "lone_store =
     \<lparr>ss_find_slot = (\<lambda>q w. (Inr (if w then None else Some blank_slot), w)),
      ss_group_name = (\<lambda>slot w. ([], w)), ss_cached_state = (\<lambda>u w. (''none'', w)),
      ss_manager = Some lone_manager, ss_keys = None, ss_pb_get = None\<rparr>"

definition lone_server :: "bool server" where
  "lone_server = plain_server ((mock_upstreams sample_cluster ''h'')\<lparr>up_store := Some lone_store\<rparr>)"

definition lone_state :: "bool st" where
  "lone_state = plain_state False"

definition lone_claim :: request where
  "lone_claim = sample_request\<lparr>rq_method := ''POST'',
     rq_body := [CHR 0x7B, CHR 0x22] @ ''claim_code'' @ [CHR 0x22] @ '':'' @ [CHR 0x22] @ ''c'' @ [CHR 0x22, CHR 0x7D]\<rparr>"

lemma lone_request:
  "claim_request_of (read_limited body_limit lone_claim) =
     Some \<lparr>cq_claim_code = ''c'', cq_name = [], cq_email = [], cq_cred_source = []\<rparr>"
proof -
  have "read_limited body_limit lone_claim = rq_body lone_claim"
    by (simp add: read_limited_def body_limit_def lone_claim_def)
  moreover have "claim_request_of (rq_body lone_claim) =
     Some \<lparr>cq_claim_code = ''c'', cq_name = [], cq_email = [], cq_cred_source = []\<rparr>" by code_simp
  ultimately show ?thesis by simp
qed

lemma lone_contract: "claim_contract lone_server (\<lambda>w i. w)"
  by (simp add: claim_contract_def store_contract_def lone_server_def plain_server_def lone_store_def lone_manager_def
      plain_runtime_def keeps_taken_def)

lemma claim_at_most_once_witness:
  "distinct (claim_ids (st_calls (run_steps (claim_step lone_server) lone_state
      [Claims lone_claim, Others (log_at L1 ''m'' []), Claims lone_claim])))"
proof (rule claim_at_most_once [OF lone_contract])
  have "trim_space ''c'' = ''c''" by code_simp
  then have "plain_request lone_claim"
    by (simp add: plain_request_def lone_request plain_code_def chr_of_def char_of_def bit_Suc_0_iff)
  then show "\<forall>e\<in>set [Claims lone_claim, Others (log_at L1 ''m'' []), Claims lone_claim].
      claim_event_ok (\<lambda>w i. w) e" by simp
qed (simp add: lone_state_def plain_state_def)

end
