(* ===== verification/Slot_Machine.thy ===== *)
theory Slot_Machine
  imports Call_Trace Claim_Exchange Claim_Once
begin

text \<open>
  The service as an abstract machine on slots: a table of names and states in which an event moves one
  slot one step of its lifecycle. Over a store that does what PocketBase documents for records, any
  sequence of requests on any routes is a run of this machine. The records are those the service
  writes; what an administrator does to PocketBase by hand is not a request.
\<close>

section \<open>The machine\<close>

type_synonym slot_table = "gostring \<rightharpoonup> gostring \<times> gostring"

text \<open>\<open>Move i a b\<close>: the record \<open>i\<close> goes from state \<open>a\<close> to state \<open>b\<close>.\<close>

datatype slot_event = Stay | Move gostring gostring gostring

fun slot_step :: "slot_table \<Rightarrow> slot_event \<Rightarrow> slot_table option" where
  "slot_step m Stay = Some m"
| "slot_step m (Move i a b) =
     (case m i of
        None \<Rightarrow> None
      | Some (n, st) \<Rightarrow> if st = a \<and> lifecycle a b then Some (m(i \<mapsto> (n, b))) else None)"

fun run_slots :: "slot_table \<Rightarrow> slot_event list \<Rightarrow> slot_table option" where
  "run_slots m [] = Some m"
| "run_slots m (e # es) = Option.bind (slot_step m e) (\<lambda>m1. run_slots m1 es)"

text \<open>The ids of the slots that were claimed, in order.\<close>

fun claimed_ids :: "slot_event list \<Rightarrow> gostring list" where
  "claimed_ids [] = []"
| "claimed_ids (Move i a b # es) = (if a = ''unclaimed'' then i # claimed_ids es else claimed_ids es)"
| "claimed_ids (Stay # es) = claimed_ids es"

definition is_unclaimed :: "slot_table \<Rightarrow> gostring \<Rightarrow> bool" where
  "is_unclaimed m i \<longleftrightarrow> (\<exists>n. m i = Some (n, ''unclaimed''))"

lemma lifecycle_never_unclaimed: "\<not> lifecycle a ''unclaimed''"
  by (auto elim: lifecycle.cases)

lemma slot_step_free: "slot_step m e = Some m' \<Longrightarrow> is_unclaimed m' i \<Longrightarrow> is_unclaimed m i"
  by (cases e) (auto simp: is_unclaimed_def lifecycle_never_unclaimed split: option.splits if_splits prod.splits)

lemma run_slots_claims:
  "run_slots m es = Some m' \<Longrightarrow> distinct (claimed_ids es) \<and> (\<forall>i\<in>set (claimed_ids es). is_unclaimed m i)"
proof (induction es arbitrary: m)
  case (Cons e es)
  then obtain m1 where m1: "slot_step m e = Some m1" and r: "run_slots m1 es = Some m'"
    by (auto simp: bind_eq_Some_conv)
  note ih = Cons.IH [OF r]
  show ?case
  proof (cases e)
    case (Move i a b)
    with m1 obtain n where i: "m i = Some (n, a)" "lifecycle a b" "m1 = m(i \<mapsto> (n, b))"
      by (auto split: option.splits if_splits)
    then have "\<not> is_unclaimed m1 i" using lifecycle_never_unclaimed by (auto simp: is_unclaimed_def)
    with ih i slot_step_free [OF m1] Move show ?thesis by (auto simp: is_unclaimed_def)
  qed (use ih m1 in simp)
qed simp

lemma run_slots_path:
  "run_slots m es = Some m' \<Longrightarrow>
     (m i = None \<and> m' i = None) \<or> (\<exists>n a b. m i = Some (n, a) \<and> m' i = Some (n, b) \<and> lifecycle\<^sup>*\<^sup>* a b)"
proof (induction es arbitrary: m)
  case (Cons e es)
  then obtain m1 where m1: "slot_step m e = Some m1" and r: "run_slots m1 es = Some m'"
    by (auto simp: bind_eq_Some_conv)
  have "(m i = None \<and> m1 i = None) \<or> (\<exists>n a b. m i = Some (n, a) \<and> m1 i = Some (n, b) \<and> lifecycle\<^sup>*\<^sup>* a b)"
    using m1 by (cases e; cases "m i") (auto split: option.splits if_splits prod.splits)
  with Cons.IH [OF r] show ?case by (auto intro: rtranclp_trans)
next
  case Nil
  then show ?case by (cases "m i") auto
qed

section \<open>The contract of the store\<close>

definition slot_effect :: "upcall \<Rightarrow> bool \<Rightarrow> (gostring \<rightharpoonup> slot) \<Rightarrow> (gostring \<rightharpoonup> slot) \<Rightarrow> bool" where
  "slot_effect c b m m' \<longleftrightarrow>
     (case c of
        PatchSlot i p \<Rightarrow> m' = m(i := map_option (patch_slot p) (m i)) \<or> \<not> b \<and> m' = m
      | _ \<Rightarrow> m' = m)"

text \<open>\<open>slots w\<close> are the records in the world \<open>w\<close>. A patch that succeeds sets the fields it names, one that
  fails may have set them or not, no other call changes a record, and a filter finds a record that
  fits it. The last is what the filters say only for names and codes without quotes and
  backslashes, because the code pastes them in.\<close>

definition table_contract :: "'w server \<Rightarrow> ('w \<Rightarrow> gostring \<rightharpoonup> slot) \<Rightarrow> bool" where
  "table_contract sv slots \<longleftrightarrow>
     (\<forall>c w b w'. performs sv c w b w' \<longrightarrow> slot_effect c b (slots w) (slots w'))
   \<and> (\<forall>ss q w sl. the_store sv ss \<longrightarrow> fst (ss_find_slot ss q w) = Inr (Some sl) \<longrightarrow>
        slots w (sl_id sl) = Some sl
        \<and> (\<forall>n. plain_code n \<longrightarrow> q = eq_filter ''slot_name'' n \<longrightarrow> sl_slot_name sl = n)
        \<and> (\<forall>x. plain_code x \<longrightarrow> q = claim_filter x \<longrightarrow> sl_state sl = ''unclaimed''))"

definition table_of :: "(gostring \<rightharpoonup> slot) \<Rightarrow> slot_table" where
  "table_of m i = map_option (\<lambda>sl. (sl_slot_name sl, sl_state sl)) (m i)"

lemma table_of_patch:
  "table_of (m(i := map_option (patch_slot p) (m i))) =
     (case (m i, map_of p ''state'') of
        (Some sl, Some (JStr b)) \<Rightarrow> (table_of m)(i \<mapsto> (sl_slot_name sl, b))
      | _ \<Rightarrow> table_of m)"
  by (rule ext) (auto simp: table_of_def patch_slot_def patched_def split: option.split json.split)

lemma free_effect:
  "slot_effect c b m m' \<Longrightarrow> state_free c \<Longrightarrow> table_of m' = table_of m"
  by (cases c) (auto simp: slot_effect_def state_free_def table_of_patch split: option.split)

lemma performed_free:
  assumes "performed sv w cs w'" and "table_contract sv slots" and "fst ` set cs \<subseteq> still_calls"
  shows "table_of (slots w') = table_of (slots w)"
  using assms
proof (induction rule: performed.induct)
  case (perform w cs w1 c b w2)
  have "slot_effect c b (slots w1) (slots w2)"
    using perform.hyps(2) perform.prems(1) unfolding table_contract_def by blast
  then have "table_of (slots w2) = table_of (slots w1)" by (rule free_effect) (use perform.prems in \<open>simp add: still_calls_def\<close>)
  with perform show ?case by simp
qed simp

abbreviation table :: "('w \<Rightarrow> gostring \<rightharpoonup> slot) \<Rightarrow> 'w st \<Rightarrow> slot_table" where
  "table slots s \<equiv> table_of (slots (st_world s))"

abbreviation still :: "'w server \<Rightarrow> 'w st \<Rightarrow> 'w st \<Rightarrow> bool" where
  "still \<equiv> traced still_calls"

lemma still_table: "still sv s s' \<Longrightarrow> table_contract sv slots \<Longrightarrow> table slots s' = table slots s"
  by (auto simp: traced_def intro: performed_free)

lemma patch_table:
  assumes "io (PatchSlot i p) (sm_patch_slot mgr i p) s = (x, s1)" and "the_manager sv mgr"
    and "table_contract sv slots" and "map_of p ''state'' = Some (JStr b)" and "table slots s i = Some (n, a)"
  shows "table slots s1 = (table slots s)(i \<mapsto> (n, b)) \<or> \<not> is_ok x \<and> table slots s1 = table slots s"
proof -
  have "ends (sm_patch_slot mgr i p) (st_world s) (is_ok x) (st_world s1)"
    by (simp add: ends_def io_eqD(1) [OF assms(1)])
  then have "performs sv (PatchSlot i p) (st_world s) (is_ok x) (st_world s1)" using assms(2) by auto
  then have "slot_effect (PatchSlot i p) (is_ok x) (slots (st_world s)) (slots (st_world s1))"
    using assms(3) unfolding table_contract_def by blast
  moreover obtain sl where sl: "slots (st_world s) i = Some sl" "sl_slot_name sl = n"
    using assms(5) by (auto simp: table_of_def)
  ultimately have "slots (st_world s1) = (slots (st_world s))(i := map_option (patch_slot p) (slots (st_world s) i))
      \<or> \<not> is_ok x \<and> slots (st_world s1) = slots (st_world s)"
    by (simp add: slot_effect_def)
  moreover have "table_of ((slots (st_world s))(i := map_option (patch_slot p) (slots (st_world s) i)))
      = (table slots s)(i \<mapsto> (n, b))"
    using sl assms(4) by (subst table_of_patch) simp
  ultimately show ?thesis by metis
qed

section \<open>The requests that move a slot\<close>

text \<open>What such a request comes to: it gives up before the patch, or it patches one record once, and
  200 is only answered when the patch succeeded.\<close>

definition moves :: "'w server \<Rightarrow> gostring \<Rightarrow> gostring \<Rightarrow> 'w st \<Rightarrow> response \<times> 'w st \<Rightarrow> bool" where
  "moves sv i b s y \<longleftrightarrow>
     still sv s (snd y) \<and> rs_status (fst y) \<noteq> 200
   \<or> (\<exists>mgr p s2 x s3. the_manager sv mgr \<and> map_of p ''state'' = Some (JStr b) \<and> still sv s s2
        \<and> io (PatchSlot i p) (sm_patch_slot mgr i p) s2 = (x, s3) \<and> still sv s3 (snd y)
        \<and> rs_status (fst y) \<in> (if is_ok x then {200, 500} else {500}))"

lemma moves_patch:
  assumes "the_manager sv mgr" and "map_of p ''state'' = Some (JStr b)" and "still sv s s2"
    and "io (PatchSlot i p) (sm_patch_slot mgr i p) s2 = (x, s3)" and "still sv s3 (snd y)"
    and "rs_status (fst y) \<in> (if is_ok x then {200, 500} else {500})"
  shows "moves sv i b s y"
  using assms unfolding moves_def by blast

lemma moves_step:
  assumes "moves sv i b s y" and "table_contract sv slots" and "table slots s i = Some (n, a)" and "lifecycle a b"
  shows "\<exists>e\<in>{Stay, Move i a b}. slot_step (table slots s) e = Some (table slots (snd y))
    \<and> (case e of Stay \<Rightarrow> rs_status (fst y) \<noteq> 200 | Move j c d \<Rightarrow> rs_status (fst y) \<in> {200, 500})"
proof -
  from assms(1) consider (none) "still sv s (snd y)" "rs_status (fst y) \<noteq> 200"
    | (patch) mgr p s2 x s3 where "the_manager sv mgr" "map_of p ''state'' = Some (JStr b)" "still sv s s2"
        "io (PatchSlot i p) (sm_patch_slot mgr i p) s2 = (x, s3)" "still sv s3 (snd y)"
        "rs_status (fst y) \<in> (if is_ok x then {200, 500} else {500})"
    unfolding moves_def by blast
  then show ?thesis
  proof cases
    case none
    then show ?thesis using still_table [OF _ assms(2)] by (intro bexI [of _ Stay]) simp_all
  next
    case patch
    note t = still_table [OF patch(3) assms(2)] still_table [OF patch(5) assms(2)]
    from patch_table [OF patch(4,1) assms(2) patch(2), of n a] assms(3) t
    consider "table slots (snd y) = (table slots s)(i \<mapsto> (n, b))"
      | "\<not> is_ok x" "table slots (snd y) = table slots s" by auto
    then show ?thesis
    proof cases
      case 1
      then show ?thesis using patch(6) assms(3,4)
        by (intro bexI [of _ "Move i a b"]) (auto split: if_splits)
    next
      case 2
      then show ?thesis using patch(6) by (intro bexI [of _ Stay]) simp_all
    qed
  qed
qed

lemmas still_intros =
  traced_effects no_move.traced_invalidate traced_log_failure no_move.traced_files
  no_move.traced_lifecycle

lemma suspend_moves:
  assumes "the_manager sv mgr"
  shows "moves sv (sl_id slot) ''suspended'' s (suspend_slot sv mgr n slot s)"
proof -
  define s2 where "s2 = log_failure ''suspend.creds_remove_failed'' [AStr ''slot'' n]
    (remove_creds_files sv n (suspend_token sv slot (suspend_minio sv (minio_user slot n) s)))"
  obtain x s3 where x: "io (PatchSlot (sl_id slot) suspend_patch)
      (sm_patch_slot mgr (sl_id slot) suspend_patch) s2 = (x, s3)" by force
  have s2: "still sv s s2" unfolding s2_def by (auto intro!: still_intros)
  show ?thesis
  proof (rule moves_patch [OF assms _ s2 x])
    show "still sv s3 (snd (suspend_slot sv mgr n slot s))"
      using x assms by (cases x) (auto simp: suspend_slot_def Let_def s2_def [symmetric] intro!: still_intros)
    show "rs_status (fst (suspend_slot sv mgr n slot s)) \<in> (if is_ok x then {200, 500} else {500})"
      using x by (cases x) (simp_all add: suspend_slot_def Let_def s2_def [symmetric] ok_true_def)
  qed (simp add: suspend_patch_def)
qed

lemma reactivate_moves:
  assumes "the_manager sv mgr" and "the_admin sv na" and "the_minio_admin sv ma"
  shows "moves sv (sl_id slot) ''claimed'' s (reactivate_slot sv mgr na ma n slot g s)"
proof -
  let ?u = "minio_user slot n"
  obtain rid s1 where r: "role_id_of na (role_name_of g) s = (rid, s1)" by force
  define s2 where "s2 = best_effort (SetEnabled ?u True) (ma_set_enabled ma ?u True)
    ''reactivate.minio_enable_failed'' [AStr ''user'' ?u] s1"
  obtain c s3 where c: "mint_credentials ''reactivate'' na ma ?u n rid s2 = (c, s3)" by force
  have "still sv s s1" by (rule no_move.traced_fresh(1) [OF r assms(2) traced_refl])
  then have "still sv s s2" unfolding s2_def using assms(3) by (auto intro!: still_intros)
  then have s3: "still sv s s3" using no_move.traced_fresh(2) [OF c assms(2,3)] by blast
  show ?thesis
  proof (cases c)
    case (Inl resp)
    have "rs_status resp \<noteq> 200"
      using c Inl by (auto simp: mint_credentials_def split: sum.splits prod.splits)
    with Inl r c s3 show ?thesis by (simp add: moves_def reactivate_slot_def Let_def s2_def [symmetric])
  next
    case (Inr t)
    obtain sec acc tok where t: "t = (sec, acc, tok)" by (metis prod.exhaust)
    let ?p = "reactivate_patch sec acc tok"
    obtain x s4 where x: "io (PatchSlot (sl_id slot) ?p) (sm_patch_slot mgr (sl_id slot) ?p) s3 = (x, s4)"
      by force
    note h = reactivate_slot_def Let_def s2_def [symmetric] r c Inr t x
    show ?thesis
    proof (rule moves_patch [OF assms(1) _ s3 x])
      show "still sv s4 (snd (reactivate_slot sv mgr na ma n slot g s))"
        using assms by (cases x) (auto simp: h intro!: still_intros)
      show "rs_status (fst (reactivate_slot sv mgr na ma n slot g s)) \<in> (if is_ok x then {200, 500} else {500})"
        by (cases x) (simp_all add: h ok_true_def)
    qed (simp add: reactivate_patch_def)
  qed
qed

lemma claim_moves:
  assumes "the_store sv ss" and "ss_manager ss = Some mgr"
  shows "moves sv (sl_id slot) ''claimed'' s (claim_slot sv ss mgr req c slot s)"
proof -
  obtain cs s1 where e: "effective_cred_source ss c (sl_group slot) s = (cs, s1)" by force
  obtain t s2 where t: "clock sv s1 = (t, s2)" by force
  obtain z s3 where o: "claim_opaque sv cs s2 = (z, s3)" by force
  have "still sv s s1" by (rule no_move.traced_effective [OF e assms(1) traced_refl])
  then have s3: "still sv s s3"
    by (rule no_move.traced_opaque(2) [OF o no_move.traced_clock [OF t]])
  have m: "the_manager sv mgr" using assms by blast
  show ?thesis
  proof (cases z)
    case (Inl err)
    with e t o s3 show ?thesis by (simp add: moves_def claim_slot_def)
  next
    case (Inr op)
    let ?p = "claim_patch req (millis_text t) @ (if cs = ''seedling/v1'' then opaque_patch sv op else [])"
    obtain x s4 where x: "io (PatchSlot (sl_id slot) ?p) (sm_patch_slot mgr (sl_id slot) ?p) s3 = (x, s4)"
      by force
    obtain v s5 where v: "persist_slot_config sv ss mgr (sl_id slot) op s4 = (v, s5)" by force
    note h = claim_slot_def Let_def e t o Inr x v
    show ?thesis
    proof (rule moves_patch [OF m _ s3 x])
      show "still sv s4 (snd (claim_slot sv ss mgr req c slot s))"
        using no_move.traced_persist [OF v assms traced_refl] by (cases x; cases v) (simp_all add: h)
      show "rs_status (fst (claim_slot sv ss mgr req c slot s)) \<in> (if is_ok x then {200, 500} else {500})"
        by (cases x; cases v) (simp_all add: h claim_response_def)
    qed (simp add: claim_patch_def)
  qed
qed

section \<open>Every request is an event\<close>

fun move_of :: "endpoint \<Rightarrow> (gostring \<times> gostring) option" where
  "move_of EpSlotsClaim = Some (''unclaimed'', ''claimed'')"
| "move_of EpSuspend = Some (''claimed'', ''suspended'')"
| "move_of EpReactivate = Some (''suspended'', ''claimed'')"
| "move_of _ = None"

lemma move_of_movers: "move_of ep = None \<longleftrightarrow> ep \<notin> movers"
  by (cases ep) (simp_all add: movers_def)

text \<open>What the event of a request has to do with its route, its answer and the table it found. The
  operations of the tier act on the slot of the path, and only for who carries the token.\<close>

definition explains ::
  "'w server \<Rightarrow> request \<Rightarrow> endpoint \<times> gostring \<Rightarrow> slot_table \<Rightarrow> nat \<Rightarrow> slot_event \<Rightarrow> bool" where
  "explains sv r rt m st e \<longleftrightarrow>
     (case e of
        Stay \<Rightarrow> move_of (fst rt) = None \<or> st \<noteq> 200
      | Move i a b \<Rightarrow> move_of (fst rt) = Some (a, b) \<and> st \<in> {200, 500}
          \<and> (fst rt \<noteq> EpSlotsClaim \<longrightarrow>
               operator_ok sv r \<and> (plain_code (snd rt) \<longrightarrow> (\<exists>x. m i = Some (snd rt, x)))))"

definition is_event ::
  "'w server \<Rightarrow> ('w \<Rightarrow> gostring \<rightharpoonup> slot) \<Rightarrow> request \<Rightarrow> endpoint \<times> gostring \<Rightarrow> 'w st \<Rightarrow> response \<times> 'w st \<Rightarrow> bool" where
  "is_event sv slots r rt s y \<longleftrightarrow>
     (\<exists>e. slot_step (table slots s) e = Some (table slots (snd y))
        \<and> explains sv r rt (table slots s) (rs_status (fst y)) e)"

lemma still_event:
  "table_contract sv slots \<Longrightarrow> still sv s (snd y) \<Longrightarrow> move_of (fst rt) = None \<or> rs_status (fst y) \<noteq> 200 \<Longrightarrow>
     is_event sv slots r rt s y"
  using still_table [of sv s "snd y" slots]
  by (auto simp: is_event_def explains_def intro!: exI [of _ Stay])

lemma moves_event:
  assumes "table_contract sv slots" and "moves sv i b s1 y" and "table slots s1 = table slots s"
    and "table slots s i = Some (n, a)" and "move_of (fst rt) = Some (a, b)"
    and "fst rt \<noteq> EpSlotsClaim \<Longrightarrow> operator_ok sv r \<and> (plain_code (snd rt) \<longrightarrow> n = snd rt)"
  shows "is_event sv slots r rt s y"
proof -
  have "lifecycle a b"
    using assms(5) by (cases "fst rt" rule: move_of.cases) (auto intro: lifecycle.intros)
  then obtain e where "e \<in> {Stay, Move i a b}" "slot_step (table slots s) e = Some (table slots (snd y))"
    "case e of Stay \<Rightarrow> rs_status (fst y) \<noteq> 200 | Move j c d \<Rightarrow> rs_status (fst y) \<in> {200, 500}"
    using moves_step [OF assms(2,1), of n a] assms(3,4) by metis
  with assms(4-6) show ?thesis unfolding is_event_def explains_def by (intro exI [of _ e]) auto
qed

lemma find_table:
  assumes "io (FindSlot q) (ss_find_slot ss q) s = (Inr (Some sl), s1)" and "the_store sv ss"
    and "table_contract sv slots"
  shows "table slots s1 = table slots s" and "table slots s (sl_id sl) = Some (sl_slot_name sl, sl_state sl)"
    and "plain_code n \<Longrightarrow> q = eq_filter ''slot_name'' n \<Longrightarrow> sl_slot_name sl = n"
    and "plain_code x \<Longrightarrow> q = claim_filter x \<Longrightarrow> sl_state sl = ''unclaimed''"
proof -
  have "still sv s s1" using assms(2) by (intro traced_io [OF assms(1) traced_refl]) auto
  then show "table slots s1 = table slots s" using assms(3) by (rule still_table)
  have "fst (ss_find_slot ss q (st_world s)) = Inr (Some sl)" by (simp add: io_eqD(1) [OF assms(1)])
  with assms(2,3) have f: "slots (st_world s) (sl_id sl) = Some sl
      \<and> (\<forall>n. plain_code n \<longrightarrow> q = eq_filter ''slot_name'' n \<longrightarrow> sl_slot_name sl = n)
      \<and> (\<forall>x. plain_code x \<longrightarrow> q = claim_filter x \<longrightarrow> sl_state sl = ''unclaimed'')"
    unfolding table_contract_def by blast
  then show "table slots s (sl_id sl) = Some (sl_slot_name sl, sl_state sl)" by (simp add: table_of_def)
  show "plain_code n \<Longrightarrow> q = eq_filter ''slot_name'' n \<Longrightarrow> sl_slot_name sl = n"
    and "plain_code x \<Longrightarrow> q = claim_filter x \<Longrightarrow> sl_state sl = ''unclaimed''"
    using f by blast+
qed

lemma managed_table:
  assumes "find_managed sv n s = (Inr (ss, mgr, sl), s1)" and "table_contract sv slots"
  shows "the_manager sv mgr \<and> table slots s1 = table slots s
    \<and> table slots s (sl_id sl) = Some (sl_slot_name sl, sl_state sl) \<and> (plain_code n \<longrightarrow> sl_slot_name sl = n)"
proof -
  have io: "io (FindSlot (eq_filter ''slot_name'' n)) (ss_find_slot ss (eq_filter ''slot_name'' n)) s
      = (Inr (Some sl), s1)" and ss: "the_store sv ss" "ss_manager ss = Some mgr"
    using assms(1) by (auto simp: find_managed_def Let_def split: option.splits sum.splits prod.splits)
  from find_table [OF io ss(1) assms(2)] ss show ?thesis by blast
qed

text \<open>The handlers.\<close>

lemma claim_event:
  assumes "table_contract sv slots" and "plain_request r" and "fst rt = EpSlotsClaim"
  shows "is_event sv slots r rt s (handle_slots_claim sv r s)"
proof (cases "\<exists>req ss mgr sl s1. claim_request_of (read_limited body_limit r) = Some req \<and> the_store sv ss
    \<and> ss_manager ss = Some mgr
    \<and> io (FindSlot (claim_filter (trim_space (cq_claim_code req))))
         (ss_find_slot ss (claim_filter (trim_space (cq_claim_code req)))) s = (Inr (Some sl), s1)
    \<and> handle_slots_claim sv r s = claim_slot sv ss mgr req (cred_mode (cq_cred_source req)) sl s1")
  case True
  then obtain req ss mgr sl s1 where req: "claim_request_of (read_limited body_limit r) = Some req"
    and ss: "the_store sv ss" "ss_manager ss = Some mgr"
    and io: "io (FindSlot (claim_filter (trim_space (cq_claim_code req))))
         (ss_find_slot ss (claim_filter (trim_space (cq_claim_code req)))) s = (Inr (Some sl), s1)"
    and h: "handle_slots_claim sv r s = claim_slot sv ss mgr req (cred_mode (cq_cred_source req)) sl s1"
    by blast
  have "plain_code (trim_space (cq_claim_code req))" using assms(2) req by (simp add: plain_request_def)
  with find_table [OF io ss(1) assms(1)] have
    "table slots s1 = table slots s" "table slots s (sl_id sl) = Some (sl_slot_name sl, ''unclaimed'')" by auto
  then show ?thesis
    unfolding h by (rule moves_event [OF assms(1) claim_moves [OF ss]]) (simp_all add: assms(3))
next
  case False
  then have "still sv s (snd (handle_slots_claim sv r s)) \<and> rs_status (fst (handle_slots_claim sv r s)) \<noteq> 200"
    by (auto simp: handle_slots_claim_def Let_def split: result_split elim!: no_move.traced_parts)
  then show ?thesis by (intro still_event [OF assms(1)]) simp_all
qed

lemma operator_event:
  assumes "table_contract sv slots"
    and "fst rt = EpSuspend \<Longrightarrow> y = handle_manage_suspend sv (r\<lparr>rq_slot := snd rt\<rparr>) s"
    and "fst rt = EpReactivate \<Longrightarrow> y = handle_manage_reactivate sv (r\<lparr>rq_slot := snd rt\<rparr>) s"
    and "fst rt \<in> {EpSuspend, EpReactivate}"
  shows "is_event sv slots r rt s y"
proof -
  let ?r = "r\<lparr>rq_slot := snd rt\<rparr>" and ?n = "snd rt"
  have op: "operator_ok sv ?r = operator_ok sv r" by (simp add: operator_ok_def rq_header_def)
  obtain x s1 where x: "find_managed sv ?n s = (x, s1)" by force
  have s1: "still sv s s1" by (rule no_move.traced_managed [OF x traced_refl])
  note quiet = still_event [OF assms(1), of s y rt r]
  show ?thesis
  proof (cases "operator_ok sv r \<and> ?n \<noteq> [] \<and> \<not> isl x")
    case False
    with x s1 op find_managed_error(1) [of sv ?n s] assms(2-4)
    have "still sv s (snd y) \<and> rs_status (fst y) \<noteq> 200"
      by (cases x) (auto simp: handle_manage_suspend_def handle_manage_reactivate_def require_operator_iff
          split: if_splits)
    then show ?thesis using quiet by blast
  next
    case True
    then obtain ss mgr sl where y: "x = Inr (ss, mgr, sl)" by (cases x) auto
    note t = managed_table [OF x [unfolded y] assms(1)]
    have name: "plain_code ?n \<longrightarrow> sl_slot_name sl = ?n" using t by blast
    show ?thesis
    proof (cases "fst rt = EpSuspend")
      case sus: True
      show ?thesis
      proof (cases "sl_state sl = ''claimed''")
        case c: True
        have h: "y = suspend_slot sv mgr ?n sl s1"
          using assms(2) [OF sus] x y True c op by (simp add: handle_manage_suspend_def require_operator_iff)
        show ?thesis unfolding h
          by (rule moves_event [OF assms(1) suspend_moves]) (use t c sus True name in auto)
      next
        case False
        with assms(2) [OF sus] x y True op s1 show ?thesis
          by (intro quiet) (simp_all add: handle_manage_suspend_def require_operator_iff)
      qed
    next
      case rea: False
      then have rea: "fst rt = EpReactivate" using assms(4) by auto
      obtain g s2 where g: "io_total (GroupName (sl_id sl)) (ss_group_name ss sl) s1 = (g, s2)" by force
      have ss: "the_store sv ss" using find_managed_result(1) [OF x [unfolded y]] .
      then have "still sv s1 s2" by (intro traced_io_total [OF g traced_refl]) auto
      then have s2: "still sv s s2" "table slots s2 = table slots s"
        using s1 t still_table [OF _ assms(1)] by (auto intro: traced_trans)
      note h = assms(3) [OF rea] x y g op True
      show ?thesis
      proof (cases "sl_state sl = ''suspended'' \<and> up_nomad_admin (sv_up sv) \<noteq> None \<and> up_minio_admin (sv_up sv) \<noteq> None")
        case c: True
        then obtain na ma where a: "the_admin sv na" "the_minio_admin sv ma" by auto
        have h: "y = reactivate_slot sv mgr na ma ?n sl g s2"
          using h c a by (simp add: handle_manage_reactivate_def require_operator_iff)
        show ?thesis unfolding h
          by (rule moves_event [OF assms(1) reactivate_moves [OF _ a]]) (use t c rea True name s2 in auto)
      next
        case False
        with h s1 s2(1) show ?thesis
          by (intro quiet) (auto simp: handle_manage_reactivate_def require_operator_iff split: option.split)
      qed
    qed
  qed
qed

lemma explains_claim:
  "fst rt = EpSlotsClaim \<Longrightarrow> explains sv r rt m st e = explains sv r' rt m st e"
  by (simp add: explains_def split: slot_event.split)

lemma mux_event:
  assumes "table_contract (ps_server p) slots" and "fst (route (rq_method r) segs) = EpSlotsClaim \<Longrightarrow> plain_request r"
  shows "is_event (ps_server p) slots r (route (rq_method r) segs) s (serve_mux p segs r s)"
proof -
  obtain ep v where e: "route (rq_method r) segs = (ep, v)" by force
  have pr: "plain_request (r\<lparr>rq_slot := v\<rparr>) = plain_request r"
    by (simp add: plain_request_def read_limited_def)
  show ?thesis
  proof (cases "ep \<in> movers")
    case False
    then show ?thesis
      using e no_move.traced_serve_mux [of r segs p s] move_of_movers [of ep]
      by (intro still_event [OF assms(1)]) auto
  next
    case True
    then consider "ep = EpSlotsClaim" | "ep \<in> {EpSuspend, EpReactivate}" by (auto simp: movers_def)
    then show ?thesis
    proof cases
      case 1
      with claim_event [OF assms(1), of "r\<lparr>rq_slot := v\<rparr>" "(ep, v)" s] assms(2) e pr
        explains_claim [of "(ep, v)" "ps_server p" "r\<lparr>rq_slot := v\<rparr>" _ _ _ r]
      show ?thesis by (simp add: serve_mux_def is_event_def)
    next
      case 2
      with e show ?thesis by (intro operator_event [OF assms(1)]) (auto simp: serve_mux_def)
    qed
  qed
qed

lemma serve_event:
  assumes "table_contract (ps_server p) slots" and "fst (route (rq_method r) segs) = EpSlotsClaim \<Longrightarrow> plain_request r"
  shows "is_event (ps_server p) slots r (route (rq_method r) segs) s (serve p segs r s)"
proof (rule serve_chain [of p s segs r])
  fix s1
  assume "still (ps_server p) s s1"
    and "still (ps_server p) (snd (serve_mux p segs r s1)) (snd (serve p segs r s))"
    and "rs_status (fst (serve p segs r s)) = rs_status (fst (serve_mux p segs r s1))"
  with mux_event [OF assms, where s = s1] show ?thesis
    using still_table [OF _ assms(1)] unfolding is_event_def by metis
qed

section \<open>Runs\<close>

fun explained ::
  "'w process \<Rightarrow> ('w \<Rightarrow> gostring \<rightharpoonup> slot) \<Rightarrow> 'w st \<Rightarrow> (gostring list \<times> request) list \<Rightarrow> slot_event list \<Rightarrow> bool" where
  "explained p slots s [] [] = True"
| "explained p slots s ((segs, r) # qs) (e # es) =
     (explains (ps_server p) r (route (rq_method r) segs) (table slots s) (rs_status (fst (serve p segs r s))) e
      \<and> explained p slots (snd (serve p segs r s)) qs es)"
| "explained p slots s _ _ = False"

fun plain_claim :: "gostring list \<times> request \<Rightarrow> bool" where
  "plain_claim (segs, r) \<longleftrightarrow> fst (route (rq_method r) segs) \<noteq> EpSlotsClaim \<or> plain_request r"

lemma run_explained:
  "table_contract (ps_server p) slots \<Longrightarrow> list_all plain_claim qs \<Longrightarrow>
     \<exists>es. explained p slots s qs es \<and> run_slots (table slots s) es = Some (table slots (serve_all p s qs))"
proof (induction qs arbitrary: s)
  case (Cons q qs)
  obtain segs r where q: "q = (segs, r)" by force
  let ?s1 = "snd (serve p segs r s)"
  have "is_event (ps_server p) slots r (route (rq_method r) segs) s (serve p segs r s)"
    by (rule serve_event [OF Cons.prems(1)]) (use Cons.prems(2) q in simp)
  then obtain e where e: "slot_step (table slots s) e = Some (table slots ?s1)"
    "explains (ps_server p) r (route (rq_method r) segs) (table slots s) (rs_status (fst (serve p segs r s))) e"
    unfolding is_event_def by blast
  from Cons obtain es where "explained p slots ?s1 qs es"
    "run_slots (table slots ?s1) es = Some (table slots (serve_all p ?s1 qs))" by fastforce
  with e q show ?case by (intro exI [of _ "e # es"]) simp
qed (auto intro: exI [of _ "[]"])


text \<open>A store of one record that finds it by its name, and by its code while it is unclaimed.\<close>

definition board_store :: "slot slot_store" where
  "board_store = record_store\<lparr>ss_find_slot := (\<lambda>q w.
     (Inr (if q = eq_filter ''slot_name'' (sl_slot_name w)
              \<or> q = claim_filter (sl_claim_code w) \<and> sl_state w = ''unclaimed'' then Some w else None), w))\<rparr>"

definition board_process :: "slot process" where
  "board_process =
     \<lparr>ps_server = plain_server ((mock_upstreams sample_cluster ''h'')\<lparr>up_store := Some board_store\<rparr>),
      ps_host = \<lparr>ho_user = (\<lambda>u w. UserUnknown), ho_stat = (\<lambda>f w. None)\<rparr>,
      ps_build = ps_build sample_process, ps_body_size = (\<lambda>b. 0)\<rparr>"

lemma board_filters:
  "eq_filter ''slot_name'' n = eq_filter ''slot_name'' m \<longleftrightarrow> n = m"
  "claim_filter x \<noteq> eq_filter ''slot_name'' m" "eq_filter ''slot_name'' m \<noteq> claim_filter x"
  by (simp_all add: eq_filter_def claim_filter_def)

lemma board_contract: "table_contract (ps_server board_process) record_of"
proof -
  have "slot_effect c b (record_of w) (record_of w')" if "performs (ps_server board_process) c w b w'" for c w b w'
    using that
    by (cases c) (auto simp: slot_effect_def ends_def ends_total_def board_process_def board_store_def
        record_store_def record_manager_def record_of_def plain_server_def plain_runtime_def
        mock_upstreams_def mock_nomad_def mock_nomad_admin_def mock_hub_def mock_minio_def
        mock_minio_admin_def patch_slot_def split: if_splits)
  then show ?thesis
    by (auto simp: table_contract_def board_process_def plain_server_def board_store_def record_of_def
        board_filters split: if_splits)
qed

definition board_requests :: "(gostring list \<times> request) list" where
  "board_requests =
     [([''slots'', ''claim''], broker_claim),
      ([''manage'', ''slots'', ''s'', ''suspend''],
       sample_request\<lparr>rq_method := ''POST'', rq_headers := [(''X-Operator-Token'', ''op'')]\<rparr>),
      ([''healthz''], sample_request)]"


end
