(* ===== verification/Json_Print.thy ===== *)
theory Json_Print
  imports Json
begin

text \<open>
  What \<^verbatim>\<open>encoding/json\<close> writes, \<^verbatim>\<open>encoding/json\<close> reads back: compact and indented
  printing of a value, in front of any text that does not continue a number, parses to that value
  with the invalid UTF-8 of its strings replaced by U+FFFD.
\<close>

section \<open>Valid text\<close>

function to_valid :: "gostring \<Rightarrow> gostring" where
  "to_valid s =
     (case s of
        [] \<Rightarrow> []
      | c # cs \<Rightarrow>
          if byte c < 128 then c # to_valid cs
          else encode_rune (fst (decode_rune s)) @ to_valid (drop (max 1 (snd (decode_rune s))) s))"
  by pat_completeness auto
termination
  by (relation "measure length") auto

declare to_valid.simps [simp del]

lemma to_valid_simps [simp]:
  "to_valid [] = []" "byte c < 128 \<Longrightarrow> to_valid (c # cs) = c # to_valid cs"
  by (simp_all add: to_valid.simps)

lemma to_valid_ascii: "list_all (\<lambda>c. byte c < 128) s \<Longrightarrow> to_valid s = s"
  by (induction s) simp_all

section \<open>A rune and its bytes\<close>

lemma split64:
  fixes y :: nat
  assumes "y < 64"
  shows "(x * 64 + y) div 64 = x" and "(x * 64 + y) mod 64 = y"
  using assms by simp_all

lemma div64_twice: "n div 4096 = n div 64 div (64 :: nat)" "n div 262144 = n div 64 div 64 div (64 :: nat)"
  by (simp_all add: div_mult2_eq [symmetric])

lemma rune2:
  assumes "194 \<le> b" "b \<le> 223" "128 \<le> c" "c \<le> 191"
  shows "encode_rune ((b - 192) * 64 + (c - 128)) = [chr_of b, chr_of c]"
proof -
  obtain x where x: "b = 192 + x" using le_Suc_ex [of 192 b] assms(1) by auto
  obtain y where y: "c = 128 + y" using le_Suc_ex [of 128 c] assms(3) by auto
  have b: "2 \<le> x" "x < 32" "y < 64" using assms unfolding x y by simp_all
  then have "\<not> x * 64 + y < 128" "x * 64 + y < 2048" by simp_all
  with x y split64 [OF b(3), of x] show ?thesis by (simp add: encode_rune_def)
qed

lemma rune3:
  assumes "224 \<le> b" "b \<le> 239" "(if b = 224 then 160 else 128) \<le> c" "c \<le> (if b = 237 then 159 else 191)"
    and "128 \<le> d" "d \<le> 191"
  shows "encode_rune ((b - 224) * 4096 + (c - 128) * 64 + (d - 128)) = [chr_of b, chr_of c, chr_of d]"
proof -
  have "128 \<le> c" using assms(3) by (simp split: if_splits)
  then obtain y where y: "c = 128 + y" using le_Suc_ex by blast
  obtain x where x: "b = 224 + x" using le_Suc_ex [OF assms(1)] by blast
  obtain z where z: "d = 128 + z" using le_Suc_ex [OF assms(5)] by blast
  have b: "x < 16" "y < 64" "z < 64" "x = 0 \<Longrightarrow> 32 \<le> y" "x = 13 \<Longrightarrow> y < 32"
    using assms unfolding x y z by (simp_all split: if_splits)
  define n where "n = (x * 64 + y) * 64 + z"
  have d: "n div 64 = x * 64 + y" "n mod 64 = z" unfolding n_def by (rule split64 [OF b(3)])+
  then have e: "n div 4096 = x" "n div 64 mod 64 = y" by (simp_all only: d div64_twice split64 [OF b(2)])
  have "2048 \<le> n" using b(4) by (cases "x = 0") (simp_all add: n_def)
  moreover have "n < 65536" using b(1-3) by (simp add: n_def)
  moreover have "n < 55296 \<or> 57343 < n"
  proof (cases x "13 :: nat" rule: linorder_cases)
    case equal
    then show ?thesis using b(3,5) by (simp add: n_def)
  qed (use b(2,3) in \<open>simp_all add: n_def\<close>)
  ultimately have "encode_rune n = [chr_of b, chr_of c, chr_of d]"
    using d e by (auto simp: encode_rune_def x y z)
  then show ?thesis by (simp add: n_def x y z algebra_simps)
qed

lemma rune4:
  assumes "240 \<le> b" "b \<le> 244" "(if b = 240 then 144 else 128) \<le> c" "c \<le> (if b = 244 then 143 else 191)"
    and "128 \<le> d" "d \<le> 191" and "128 \<le> e" "e \<le> 191"
  shows "encode_rune ((b - 240) * 262144 + (c - 128) * 4096 + (d - 128) * 64 + (e - 128))
    = [chr_of b, chr_of c, chr_of d, chr_of e]"
proof -
  have "128 \<le> c" using assms(3) by (simp split: if_splits)
  then obtain y where y: "c = 128 + y" using le_Suc_ex by blast
  obtain x where x: "b = 240 + x" using le_Suc_ex [OF assms(1)] by blast
  obtain z where z: "d = 128 + z" using le_Suc_ex [OF assms(5)] by blast
  obtain t where t: "e = 128 + t" using le_Suc_ex [OF assms(7)] by blast
  have b: "x < 5" "y < 64" "z < 64" "t < 64" "x = 0 \<Longrightarrow> 16 \<le> y" "x = 4 \<Longrightarrow> y < 16"
    using assms unfolding x y z t by (simp_all split: if_splits)
  define n where "n = ((x * 64 + y) * 64 + z) * 64 + t"
  have d: "n div 64 = (x * 64 + y) * 64 + z" "n mod 64 = t" unfolding n_def by (rule split64 [OF b(4)])+
  then have e: "n div 64 mod 64 = z" "n div 4096 = x * 64 + y" "n div 4096 mod 64 = y" "n div 262144 = x"
    by (simp_all only: d div64_twice split64 [OF b(3)] split64 [OF b(2)])
  have "65536 \<le> n" using b(5) by (cases "x = 0") (simp_all add: n_def)
  moreover have "n \<le> 1114111" using b by (cases "x = 4") (simp_all add: n_def)
  ultimately have "encode_rune n = [chr_of b, chr_of c, chr_of d, chr_of e]"
    using d e by (auto simp: encode_rune_def x y z t)
  then show ?thesis by (simp add: n_def x y z t algebra_simps)
qed

lemma decode_rune_ascii: "byte c < 128 \<Longrightarrow> decode_rune (c # cs) = (byte c, 1)"
  by simp

text \<open>A multi-byte rune is the encoding of its bytes, whatever follows them.\<close>

lemma decode_rune_wide:
  assumes "\<not> byte c < 128"
  obtains "decode_rune (c # cs) = (65533, 1)"
  | n w where "decode_rune (c # cs) = (n, w)" "2 \<le> w" "w \<le> length (c # cs)" "encode_rune n = take w (c # cs)"
      "\<And>r. decode_rune (take w (c # cs) @ r) = (n, w)" "\<forall>x\<in>set (take w (c # cs)). 128 \<le> byte x"
proof (cases "decode_rune (c # cs) = (65533, 1)")
  case False
  with assms consider
      (two) c1 r where "cs = c1 # r" "194 \<le> byte c" "byte c \<le> 223" "cont_byte c1"
    | (three) c1 c2 r where "cs = c1 # c2 # r" "224 \<le> byte c" "byte c \<le> 239"
        "(if byte c = 224 then 160 else 128) \<le> byte c1" "byte c1 \<le> (if byte c = 237 then 159 else 191)"
        "cont_byte c2"
    | (four) c1 c2 c3 r where "cs = c1 # c2 # c3 # r" "240 \<le> byte c" "byte c \<le> 244"
        "(if byte c = 240 then 144 else 128) \<le> byte c1" "byte c1 \<le> (if byte c = 244 then 143 else 191)"
        "cont_byte c2" "cont_byte c3"
    by (simp only: decode_rune.simps Let_def) (simp split: if_split_asm list.split_asm)
  then show ?thesis
  proof cases
    case two
    let ?n = "(byte c - 192) * 64 + (byte c1 - 128)"
    have e: "encode_rune ?n = [c, c1]" using rune2 [of "byte c" "byte c1"] two by (simp add: cont_byte_def)
    show ?thesis by (rule that(2) [of ?n 2]) (use two e in \<open>simp_all add: cont_byte_def Let_def\<close>)
  next
    case three
    let ?n = "(byte c - 224) * 4096 + (byte c1 - 128) * 64 + (byte c2 - 128)"
    have e: "encode_rune ?n = [c, c1, c2]"
      using rune3 [of "byte c" "byte c1" "byte c2"] three by (simp add: cont_byte_def)
    have "128 \<le> byte c1" using three(4) by (simp split: if_splits)
    then show ?thesis by (intro that(2) [of ?n 3]) (use three e in \<open>simp_all add: cont_byte_def Let_def\<close>)
  next
    case four
    let ?n = "(byte c - 240) * 262144 + (byte c1 - 128) * 4096 + (byte c2 - 128) * 64 + (byte c3 - 128)"
    have e: "encode_rune ?n = [c, c1, c2, c3]"
      using rune4 [of "byte c" "byte c1" "byte c2" "byte c3"] four by (simp add: cont_byte_def)
    have "128 \<le> byte c1" using four(4) by (simp split: if_splits)
    then show ?thesis by (intro that(2) [of ?n 4]) (use four e in \<open>simp_all add: cont_byte_def Let_def\<close>)
  qed
qed (use that in blast)

section \<open>Strings\<close>

lemma unquote_Nil [simp]: "unquote [] = []"
  by (simp add: unquote.simps)

lemma escape_str_Nil [simp]: "escape_str [] = []"
  by (simp add: escape_str.simps)

lemma unquote_ascii: "byte c < 128 \<Longrightarrow> byte c \<noteq> 92 \<Longrightarrow> unquote (c # cs) = c # unquote cs"
  by (subst unquote.simps) simp

lemma unquote_short: "byte e \<noteq> 117 \<Longrightarrow> unquote (chr_of 92 # e # r) = unescape_char e # unquote r"
  by (subst unquote.simps) (simp add: getu4_def split: list.split option.split)

lemma unquote_u4:
  assumes "getu4 (chr_of 92 # CHR ''u'' # [a, b, x, y]) = Some n" and "n < 55296 \<or> 57343 < n"
  shows "unquote (chr_of 92 # CHR ''u'' # a # b # x # y # r) = encode_rune n @ unquote r"
proof -
  have "getu4 (chr_of 92 # CHR ''u'' # a # b # x # y # r) = Some n"
    using assms(1) by (simp add: getu4_def split: option.splits if_splits)
  then show ?thesis using assms(2) by (subst unquote.simps) auto
qed

lemma unquote_wide:
  assumes "\<not> byte c < 128" and "decode_rune (c # cs) = (n, w)"
  shows "unquote (c # cs) = encode_rune n @ unquote (drop (max 1 w) (c # cs))"
  using assms by (subst unquote.simps) (simp del: decode_rune.simps)

lemma byte_letters [simp]:
  "byte CHR ''b'' = 98" "byte CHR ''f'' = 102" "byte CHR ''n'' = 110" "byte CHR ''r'' = 114"
  "byte CHR ''t'' = 116" "byte CHR ''u'' = 117" "byte CHR ''0'' = 48" "byte CHR ''2'' = 50"
  "byte CHR ''8'' = 56" "byte CHR ''9'' = 57" "byte CHR ''d'' = 100"
  "byte CHR ''['' = 91" "byte CHR '']'' = 93" "byte CHR '','' = 44" "byte CHR '':'' = 58"
  by (simp_all add: byte_def)

lemma chr_bracket [simp]: "chr_of 93 = CHR '']''" "chr_of 34 \<noteq> chr_of 125"
  by (simp add: chr_of_def char_of_def bit_Suc_0_iff) (simp flip: byte_inject)

lemma getu4_hex2:
  assumes "n < 256"
  shows "getu4 (chr_of 92 # CHR ''u'' # CHR ''0'' # CHR ''0'' # hex2 n) = Some n"
proof -
  have "hex_val (hex_digits ! (n div 16 mod 16)) = Some (n div 16 mod 16)"
    "hex_val (hex_digits ! (n mod 16)) = Some (n mod 16)" by (simp_all add: hex_digit_val)
  moreover have "hex_val CHR ''0'' = Some 0" by (simp add: hex_val_def)
  ultimately show ?thesis using assms by (simp add: getu4_def hex2_def)
qed

lemma unquote_escape_ascii:
  assumes "byte c < 128"
  shows "unquote (escape_ascii c @ r) = c # unquote r"
proof (cases "byte c \<in> {34, 92, 8, 12, 10, 13, 9}")
  case True
  then show ?thesis
    by (auto simp: escape_ascii_def unquote_short unescape_char_def Let_def) (metis chr_of_byte)+
next
  case False
  show ?thesis
  proof (cases "byte c < 32 \<or> byte c \<in> {60, 62, 38}")
    case True
    with False have "escape_ascii c = chr_of 92 # CHR ''u'' # CHR ''0'' # CHR ''0'' # hex2 (byte c)"
      by (auto simp: escape_ascii_def Let_def)
    moreover have "getu4 (chr_of 92 # CHR ''u'' # CHR ''0'' # CHR ''0'' # hex2 (byte c)) = Some (byte c)"
      by (rule getu4_hex2) simp
    ultimately show ?thesis using assms
      by (simp add: hex2_def unquote_u4) (simp add: encode_rune_def)
  next
    case False': False
    with False have "escape_ascii c = [c]" by (auto simp: escape_ascii_def Let_def)
    with False assms show ?thesis by (simp add: unquote_ascii)
  qed
qed

lemma escape_str_ascii: "byte c < 128 \<Longrightarrow> escape_str (c # cs) = escape_ascii c @ escape_str cs"
  by (subst escape_str.simps) simp

lemma escape_str_wide:
  assumes "\<not> byte c < 128" and "decode_rune (c # cs) = (n, w)"
  shows "escape_str (c # cs) =
    (if n = 65533 \<and> w = 1 then chr_of 92 # ''ufffd''
     else if n = 8232 then chr_of 92 # ''u2028'' else if n = 8233 then chr_of 92 # ''u2029''
     else take w (c # cs)) @ escape_str (drop (max 1 w) (c # cs))"
  using assms by (subst escape_str.simps) (simp del: decode_rune.simps)

lemma to_valid_wide:
  assumes "\<not> byte c < 128" and "decode_rune (c # cs) = (n, w)"
  shows "to_valid (c # cs) = encode_rune n @ to_valid (drop (max 1 w) (c # cs))"
  using assms by (subst to_valid.simps) (simp del: decode_rune.simps)

lemma getu4_literals:
  "getu4 (chr_of 92 # ''ufffd'') = Some 65533" "getu4 (chr_of 92 # ''u2028'') = Some 8232"
  "getu4 (chr_of 92 # ''u2029'') = Some 8233"
  by (simp_all add: getu4_def hex_val_def)

text \<open>Unquoting the escaped form of a string gives the string, its invalid bytes replaced.\<close>

lemma unquote_escape: "unquote (escape_str s) = to_valid s"
proof (induction "length s" arbitrary: s rule: less_induct)
  case less
  show ?case
  proof (cases s)
    case (Cons c cs)
    show ?thesis
    proof (cases "byte c < 128")
      case True
      with Cons less [of cs] show ?thesis by (simp add: escape_str_ascii unquote_escape_ascii)
    next
      case False
      obtain n w where d: "decode_rune (c # cs) = (n, w)" by force
      let ?r = "drop (max 1 w) (c # cs)"
      have ih: "unquote (escape_str ?r) = to_valid ?r" using Cons by (intro less) simp
      note e = escape_str_wide [OF False d] to_valid_wide [OF False d]
      from False show ?thesis
      proof (cases rule: decode_rune_wide [of c cs])
        case 1
        with d have "n = 65533" "w = 1" by simp_all
        with e ih Cons show ?thesis by (simp add: unquote_u4 [OF getu4_literals(1)])
      next
        case (2 n' w')
        with d have v: "2 \<le> w" "w \<le> length (c # cs)" "encode_rune n = take w (c # cs)"
          "\<And>r. decode_rune (take w (c # cs) @ r) = (n, w)" by simp_all
        show ?thesis
        proof (cases "n = 8232 \<or> n = 8233")
          case True
          with e ih Cons v(1) show ?thesis
            by (auto simp: unquote_u4 [OF getu4_literals(2)] unquote_u4 [OF getu4_literals(3)])
        next
          case no: False
          obtain t where t: "take w (c # cs) = c # t" using v(1) by (cases w) simp_all
          have "length (c # t) = w" unfolding t [symmetric] using v(2) by simp
          then have "drop w (c # t @ x) = x" for x by (metis append_Cons append_eq_conv_conj)
          moreover have "unquote ((c # t) @ escape_str ?r)
              = encode_rune n @ unquote (drop (max 1 w) ((c # t) @ escape_str ?r))"
            using unquote_wide [OF False, of "t @ escape_str ?r" n w] v(4) [of "escape_str ?r"] t by simp
          ultimately show ?thesis using e ih Cons no v(1) t by (simp add: max_def)
        qed
      qed
    qed
  qed simp
qed

lemma scan_str_plain:
  "byte c \<noteq> 34 \<Longrightarrow> byte c \<noteq> 92 \<Longrightarrow> 32 \<le> byte c \<Longrightarrow>
     scan_str (c # cs) = map_option (\<lambda>(a, b). (c # a, b)) (scan_str cs)"
  by simp

lemma scan_str_wide: "\<forall>x\<in>set s. 128 \<le> byte x \<Longrightarrow> scan_str r = Some (a, b) \<Longrightarrow> scan_str (s @ r) = Some (s @ a, b)"
  by (induction s) (auto simp: scan_str_plain simp del: scan_str.simps)

lemma scan_str_u4:
  assumes "list_all (\<lambda>h. hex_val h \<noteq> None) [h1, h2, h3, h4]" and "scan_str r = Some (a, b)"
  shows "scan_str (chr_of 92 # CHR ''u'' # h1 # h2 # h3 # h4 # r)
    = Some (chr_of 92 # CHR ''u'' # h1 # h2 # h3 # h4 # a, b)"
  using assms by simp

lemma hex2_digits:
  obtains h1 h2 where "hex2 n = [h1, h2]" "hex_val h1 \<noteq> None" "hex_val h2 \<noteq> None"
  by (rule that [of "hex_digits ! (n div 16 mod 16)" "hex_digits ! (n mod 16)"])
    (simp_all add: hex2_def hex_digit_val)

lemma scan_str_escape_ascii:
  assumes "byte c < 128" and "scan_str r = Some (a, b)"
  shows "scan_str (escape_ascii c @ r) = Some (escape_ascii c @ a, b)"
proof (cases "byte c \<notin> {34, 92, 8, 12, 10, 13, 9} \<and> (byte c < 32 \<or> byte c \<in> {60, 62, 38})")
  case True
  then have "escape_ascii c = chr_of 92 # CHR ''u'' # CHR ''0'' # CHR ''0'' # hex2 (byte c)"
    by (auto simp: escape_ascii_def Let_def)
  moreover have "hex_val CHR ''0'' \<noteq> None" by (simp add: hex_val_def)
  moreover obtain h1 h2 where "hex2 (byte c) = [h1, h2]" "hex_val h1 \<noteq> None" "hex_val h2 \<noteq> None"
    by (rule hex2_digits)
  ultimately show ?thesis using assms(2) by (simp only: append_Cons append_Nil) (rule scan_str_u4, simp_all)
next
  case False
  then show ?thesis using assms(2) by (auto simp: escape_ascii_def Let_def)
qed

lemma scan_str_escape:
  "scan_str (escape_str s @ chr_of 34 # r) = Some (escape_str s, r)"
proof (induction "length s" arbitrary: s rule: less_induct)
  case less
  show ?case
  proof (cases s)
    case (Cons c cs)
    show ?thesis
    proof (cases "byte c < 128")
      case True
      with Cons less [of cs] show ?thesis by (simp add: escape_str_ascii scan_str_escape_ascii)
    next
      case False
      obtain n w where d: "decode_rune (c # cs) = (n, w)" by force
      let ?r = "drop (max 1 w) (c # cs)"
      have ih: "scan_str (escape_str ?r @ chr_of 34 # r) = Some (escape_str ?r, r)" using Cons by (intro less) simp
      note u = scan_str_u4 [OF _ ih]
      have h: "list_all (\<lambda>h. hex_val h \<noteq> None) ''fffd''" "list_all (\<lambda>h. hex_val h \<noteq> None) ''2028''"
        "list_all (\<lambda>h. hex_val h \<noteq> None) ''2029''"
        by (simp_all add: hex_val_def)
      have w: "scan_str (take w (c # cs) @ escape_str ?r @ chr_of 34 # r) = Some (take w (c # cs) @ escape_str ?r, r)"
        if "(n, w) \<noteq> (65533, 1)"
        using False that d ih by (cases rule: decode_rune_wide [of c cs]) (auto intro!: scan_str_wide)
      show ?thesis using w u [OF h(1)] u [OF h(2)] u [OF h(3)] Cons
        by (cases "n = 65533 \<and> w = 1")
          (auto simp: escape_str_wide [OF False d] simp del: decode_rune.simps scan_str.simps)
    qed
  qed simp
qed

section \<open>Numbers\<close>

definition num_end :: "gostring \<Rightarrow> bool" where
  "num_end r \<longleftrightarrow>
     (case r of
        [] \<Rightarrow> True
      | c # _ \<Rightarrow> \<not> is_digit c \<and> c \<notin> {CHR ''.'', CHR ''e'', CHR ''E'', CHR ''+'', CHR ''-''})"

lemma num_end_simps [simp]:
  "num_end []"
  "num_end (c # cs) \<longleftrightarrow> \<not> is_digit c \<and> c \<notin> {CHR ''.'', CHR ''e'', CHR ''E'', CHR ''+'', CHR ''-''}"
  by (simp_all add: num_end_def)

lemma scan_digits_more:
  assumes "scan_digits s = Some (d, q)" and "num_end r"
  shows "scan_digits (s @ r) = Some (d, q @ r)"
proof (cases "q = []")
  case True
  with assms(1) have "list_all is_digit s" "s \<noteq> []" "d = s"
    by (auto simp: scan_digits_def list_all_iff split: if_splits)
  moreover from this have "takeWhile is_digit (s @ r) = s @ takeWhile is_digit r"
    "dropWhile is_digit (s @ r) = dropWhile is_digit r"
    by (auto simp: takeWhile_append dropWhile_append list_all_iff)
  moreover have "takeWhile is_digit r = []" "dropWhile is_digit r = r"
    using assms(2) by (cases r, simp_all)+
  ultimately show ?thesis using True by (simp add: scan_digits_def)
next
  case False
  with assms(1) have "\<exists>c\<in>set s. \<not> is_digit c" by (auto simp: scan_digits_def split: if_splits)
  with assms(1) show ?thesis
    by (auto simp: scan_digits_def takeWhile_append dropWhile_append split: if_splits)
qed

lemma scan_int_more:
  "scan_int s = Some (d, q) \<Longrightarrow> num_end r \<Longrightarrow> scan_int (s @ r) = Some (d, q @ r)"
  using scan_digits_more by (cases s) (fastforce simp: scan_int_def split: if_splits)+

lemma scan_frac_more:
  "scan_frac s = Some (d, q) \<Longrightarrow> num_end r \<Longrightarrow> scan_frac (s @ r) = Some (d, q @ r)"
  by (cases s; cases r) (auto simp: scan_frac_def scan_digits_more split: if_splits)

lemma scan_exp_more:
  "scan_exp s = Some (d, q) \<Longrightarrow> num_end r \<Longrightarrow> scan_exp (s @ r) = Some (d, q @ r)"
  using scan_digits_more [of "_ # _", simplified] by (cases s; cases "tl s"; cases r)
    (fastforce simp: scan_exp_def scan_digits_more split: if_splits)+

lemma scan_number_more:
  assumes "scan_number s = Some (t, q)" and "num_end r"
  shows "scan_number (s @ r) = Some (t, q @ r)"
proof -
  define sign where "sign = (if has_prefix s ''-'' then ''-'' else [])"
  obtain i r1 f r2 e where n: "scan_int (drop (length sign) s) = Some (i, r1)" "scan_frac r1 = Some (f, r2)"
    "scan_exp r2 = Some (e, q)" "t = sign @ i @ f @ e"
    using assms(1) by (auto simp: scan_number_def Let_def sign_def split: option.splits)
  have "s \<noteq> []" using assms(1) by (auto simp: scan_number_def scan_int_def has_prefix_Nil)
  then have "has_prefix (s @ r) ''-'' = has_prefix s ''-''" "drop (length sign) (s @ r) = drop (length sign) s @ r"
    by (cases s; simp add: has_prefix_Cons sign_def)+
  then show ?thesis
    using n scan_int_more [OF n(1) assms(2)] scan_frac_more [OF n(2) assms(2)] scan_exp_more [OF n(3) assms(2)]
    by (simp add: scan_number_def sign_def [symmetric])
qed

section \<open>Layout\<close>

text \<open>Printing with white space: \<open>nl k\<close> starts a line at depth \<open>k\<close>, \<open>gap\<close> follows a colon.
  \<^verbatim>\<open>json.Marshal\<close> uses neither; \<^verbatim>\<open>SetIndent\<close> with two blanks uses both. Empty
  arrays and objects are never broken.\<close>

fun json_layout :: "(nat \<Rightarrow> gostring) \<Rightarrow> gostring \<Rightarrow> nat \<Rightarrow> json \<Rightarrow> gostring" where
  "json_layout nl gap k (JArr vs) =
     (if vs = [] then ''[]''
      else ''['' @ nl (Suc k) @ join_with (CHR '','' # nl (Suc k)) (map (json_layout nl gap (Suc k)) vs)
        @ nl k @ '']'')"
| "json_layout nl gap k (JObj ms) =
     (if ms = [] then [chr_of 123, chr_of 125]
      else chr_of 123 # nl (Suc k)
        @ join_with (CHR '','' # nl (Suc k))
            (map (\<lambda>(x, v). json_quote x @ CHR '':'' # gap @ json_layout nl gap (Suc k) v) ms)
        @ nl k @ [chr_of 125])"
| "json_layout nl gap k v = json_encode v"

definition json_indent :: "json \<Rightarrow> gostring" where
  "json_indent v = json_layout (\<lambda>k. chr_of 10 # replicate (2 * k) (CHR '' '')) '' '' 0 v"

lemma json_encode_layout: "json_encode v = json_layout (\<lambda>_. []) [] k v"
proof (induction v arbitrary: k)
  case (JArr vs)
  then have *: "map json_encode vs = map (json_layout (\<lambda>_. []) [] (Suc k)) vs" by (intro map_cong) simp_all
  show ?case by (cases "vs = []") (simp_all add: *)
next
  case (JObj ms)
  then have *: "map (\<lambda>(x, v). json_quote x @ CHR '':'' # json_encode v) ms
      = map (\<lambda>(x, v). json_quote x @ CHR '':'' # json_layout (\<lambda>_. []) [] (Suc k) v) ms"
    by (auto simp: prod_set_simps)
  show ?case by (cases "ms = []") (simp_all add: *)
qed simp_all

section \<open>Values that are printed faithfully\<close>

fun json_numbers :: "json \<Rightarrow> bool" where
  "json_numbers (JNum t) \<longleftrightarrow> scan_number t = Some (t, [])"
| "json_numbers (JArr vs) \<longleftrightarrow> (\<forall>v\<in>set vs. json_numbers v)"
| "json_numbers (JObj ms) \<longleftrightarrow> (\<forall>m\<in>set ms. json_numbers (snd m))"
| "json_numbers _ \<longleftrightarrow> True"

fun json_depth :: "json \<Rightarrow> nat" where
  "json_depth (JArr vs) = Suc (foldr max (map json_depth vs) 0)"
| "json_depth (JObj ms) = Suc (foldr max (map (\<lambda>m. json_depth (snd m)) ms) 0)"
| "json_depth _ = 0"

fun json_valid :: "json \<Rightarrow> json" where
  "json_valid (JStr s) = JStr (to_valid s)"
| "json_valid (JArr vs) = JArr (map json_valid vs)"
| "json_valid (JObj ms) = JObj (map (\<lambda>(k, v). (to_valid k, json_valid v)) ms)"
| "json_valid v = v"

lemma depth_member:
  "v \<in> set vs \<Longrightarrow> json_depth v \<le> foldr max (map json_depth vs) 0"
  "m \<in> set ms \<Longrightarrow> json_depth (snd m) \<le> foldr max (map (\<lambda>m. json_depth (snd m)) ms) 0"
  by (induction vs, auto) (induction ms, auto)

section \<open>Reading back\<close>

text \<open>Results of the parser with enough fuel.\<close>

definition reads :: "(nat \<Rightarrow> gostring \<Rightarrow> ('a \<times> gostring) option) \<Rightarrow> gostring \<Rightarrow> 'a \<Rightarrow> gostring \<Rightarrow> bool" where
  "reads p s x r \<longleftrightarrow> (\<exists>n. \<forall>f\<ge>n. p f s = Some (x, r))"

lemma readsI: "(\<And>f. n \<le> f \<Longrightarrow> p f s = Some (x, r)) \<Longrightarrow> reads p s x r"
  by (auto simp: reads_def)

lemma reads_Suc: "reads p s x r \<Longrightarrow> (\<And>f. p f s = Some (x, r) \<Longrightarrow> q (Suc f) t = Some (y, u)) \<Longrightarrow> reads q t y u"
  unfolding reads_def by (metis Suc_le_D Suc_le_mono)

lemma reads_Suc2:
  assumes "reads p s x r" and "reads p' s' x' r'"
    and "\<And>f. p f s = Some (x, r) \<Longrightarrow> p' f s' = Some (x', r') \<Longrightarrow> q (Suc f) t = Some (y, u)"
  shows "reads q t y u"
proof -
  obtain n m where "\<forall>f\<ge>n. p f s = Some (x, r)" "\<forall>f\<ge>m. p' f s' = Some (x', r')"
    using assms(1,2) by (auto simp: reads_def)
  with assms(3) show ?thesis by (intro readsI [of "Suc (max n m)"]) (metis Suc_le_D Suc_le_mono max.bounded_iff)
qed

abbreviation "reads_value d \<equiv> reads (\<lambda>f. parse_value f d)"
abbreviation "reads_elems d \<equiv> reads (\<lambda>f. parse_elems f d)"
abbreviation "reads_members d \<equiv> reads (\<lambda>f. parse_members f d)"

definition blank :: "gostring \<Rightarrow> bool" where
  "blank w \<longleftrightarrow> list_all json_ws w"

lemma skip_ws_blank [simp]: "blank w \<Longrightarrow> skip_ws (w @ s) = skip_ws s"
  by (induction w) (auto simp: blank_def skip_ws_def)

lemma skip_ws_solid [simp]: "\<not> json_ws c \<Longrightarrow> skip_ws (c # cs) = c # cs"
  by (simp add: skip_ws_def)

lemma parse_blank [simp]:
  "blank w \<Longrightarrow> parse_value f d (w @ s) = parse_value f d s"
  "blank w \<Longrightarrow> parse_members f d (w @ s) = parse_members f d s"
  by (cases f; simp)+

lemma num_end_blank: "blank w \<Longrightarrow> num_end (c # r) \<Longrightarrow> num_end (w @ c # r)"
  by (cases w) (auto simp: blank_def json_ws_def is_digit_def byte_def)

lemma blank_Nil [simp]: "blank []"
  by (simp add: blank_def)

lemma reads_elems_join:
  assumes "\<And>v r. v \<in> set vs \<Longrightarrow> num_end r \<Longrightarrow> reads_value d (g v @ r) (h v) r"
    and "blank w" and "blank w'" and "vs \<noteq> []"
  shows "reads_elems d (w @ join_with (CHR '','' # w) (map g vs) @ w' @ CHR '']'' # r) (map h vs) r"
  using assms(4,1)
proof (induction vs rule: list_nonempty_induct)
  case (single v)
  have "num_end (w' @ CHR '']'' # r)" by (rule num_end_blank [OF assms(3)]) (simp add: is_digit_def byte_def)
  with single have "reads_value d (g v @ w' @ CHR '']'' # r) (h v) (w' @ CHR '']'' # r)" by simp
  then show ?case
    by (rule reads_Suc) (simp add: assms(2,3) json_ws_def byte_def del: parse_value.simps)
next
  case (cons v vs)
  let ?t = "w @ join_with (CHR '','' # w) (map g vs) @ w' @ CHR '']'' # r"
  have "reads_value d (g v @ CHR '','' # ?t) (h v) (CHR '','' # ?t)"
    using cons.prems by (simp add: is_digit_def byte_def)
  moreover have "reads_elems d ?t (map h vs) r" by (rule cons.IH) (use cons.prems in simp)
  ultimately show ?case
    by (rule reads_Suc2)
      (use cons.hyps in \<open>cases vs, simp_all add: assms(2) json_ws_def byte_def del: parse_value.simps\<close>)
qed

lemma reads_members_join:
  assumes "\<And>m r. m \<in> set ms \<Longrightarrow> num_end r \<Longrightarrow> reads_value d (g (snd m) @ r) (h (snd m)) r"
    and "blank w" and "blank w'" and "blank gap" and "ms \<noteq> []"
  shows "reads_members d (w @ join_with (CHR '','' # w) (map (\<lambda>(k, v). json_quote k @ CHR '':'' # gap @ g v) ms)
      @ w' @ chr_of 125 # r) (map (\<lambda>(k, v). (to_valid k, h v)) ms) r"
  using assms(5,1)
proof (induction ms rule: list_nonempty_induct)
  case (single m)
  obtain k v where m: "m = (k, v)" by force
  have "num_end (w' @ chr_of 125 # r)" by (rule num_end_blank [OF assms(3)]) (auto simp: is_digit_def simp flip: byte_inject, simp_all add: byte_def)
  with single m have "reads_value d (g v @ w' @ chr_of 125 # r) (h v) (w' @ chr_of 125 # r)" by simp
  then show ?case
    by (rule reads_Suc)
      (simp add: m assms(2-4) json_ws_def json_quote_def scan_str_escape unquote_escape byte_def [of "CHR '':''"] del: parse_value.simps)
next
  case (cons m ms)
  obtain k v where m: "m = (k, v)" by force
  let ?t = "w @ join_with (CHR '','' # w) (map (\<lambda>(k, v). json_quote k @ CHR '':'' # gap @ g v) ms) @ w' @ chr_of 125 # r"
  have "reads_value d (g v @ CHR '','' # ?t) (h v) (CHR '','' # ?t)"
    using cons.prems [of m "CHR '','' # ?t"] m by (simp add: is_digit_def byte_def)
  moreover have "reads_members d ?t (map (\<lambda>(k, v). (to_valid k, h v)) ms) r"
    by (rule cons.IH) (use cons.prems in simp)
  ultimately show ?case
    by (rule reads_Suc2)
      (use cons.hyps in \<open>cases ms, simp_all add: m assms(2,4) json_ws_def json_quote_def scan_str_escape unquote_escape
          byte_def [of "CHR '':''"] byte_def [of "CHR '',''"] del: parse_value.simps\<close>)
qed

lemma scan_number_head:
  assumes "scan_number t = Some (t, q)"
  obtains c cs where "t = c # cs" "is_digit c \<or> c = CHR ''-''"
  using assms
  by (cases t) (auto simp: scan_number_def scan_int_def scan_digits_def has_prefix_Cons Let_def byte_def
      is_digit_def split: option.splits if_splits)

lemma digit_head:
  assumes "is_digit c \<or> c = CHR ''-''"
  shows "\<not> json_ws c" and "byte c \<notin> {34, 91, 93, 123, 125}" and "c \<notin> {CHR ''t'', CHR ''f'', CHR ''n''}"
  using assms by (auto simp: is_digit_def json_ws_def byte_def)

lemma reads_number:
  assumes "scan_number t = Some (t, [])" and "num_end r"
  shows "reads_value d (t @ r) (JNum t) r"
proof (rule readsI [of 1])
  fix f :: nat assume "1 \<le> f"
  then obtain g where f: "f = Suc g" by (cases f) simp_all
  obtain c cs where t: "t = c # cs" "is_digit c \<or> c = CHR ''-''" using assms(1) by (rule scan_number_head)
  from t scan_number_more [OF assms] digit_head [OF t(2)] show "parse_value f d (t @ r) = Some (JNum t, r)"
    by (simp add: f has_prefix_Cons)
qed

lemma layout_head:
  assumes "json_numbers v"
  obtains c cs where "json_layout nl gap k v = c # cs" "\<not> json_ws c" "byte c \<notin> {93, 125}"
proof -
  let ?t = "json_layout nl gap k v"
  have "?t \<noteq> [] \<and> \<not> json_ws (hd ?t) \<and> byte (hd ?t) \<notin> {93, 125}"
  proof (cases v)
    case (JNum t)
    with assms have "scan_number t = Some (t, [])" by simp
    then show ?thesis by (rule scan_number_head) (use JNum digit_head in auto)
  qed (simp_all add: json_quote_def json_ws_def)
  then show ?thesis by (cases ?t) (use that in auto)
qed

lemma reads_layout:
  assumes "\<And>k. blank (nl k)" and "blank gap"
  shows "json_numbers v \<Longrightarrow> json_depth v \<le> d \<Longrightarrow> num_end r \<Longrightarrow>
    reads_value d (json_layout nl gap k v @ r) (json_valid v) r"
proof (induction v arbitrary: d r k)
  case (JArr vs)
  then obtain d' where d: "d = Suc d'" by (cases d) simp_all
  show ?case
  proof (cases "vs = []")
    case True
    then show ?thesis
      by (intro readsI [of 1]) (rename_tac f, case_tac f, simp_all add: d json_ws_def has_prefix_Cons has_prefix_Nil)
  next
    case False
    let ?j = "join_with (CHR '','' # nl (Suc k)) (map (json_layout nl gap (Suc k)) vs)"
    have "reads_elems d' (nl (Suc k) @ ?j @ nl k @ CHR '']'' # r) (map json_valid vs) r"
    proof (rule reads_elems_join [OF _ assms(1) assms(1) False])
      fix v r assume "v \<in> set vs" "num_end r"
      with JArr depth_member(1) [of v vs] show "reads_value d' (json_layout nl gap (Suc k) v @ r) (json_valid v) r"
        by (simp add: d)
    qed
    moreover obtain c cs where "?j = c # cs" "\<not> json_ws c" "c \<noteq> CHR '']''"
    proof -
      obtain v ws where vs: "vs = v # ws" using False by (cases vs) simp_all
      with JArr.prems(1) have "json_numbers v" by simp
      then obtain c cs where "json_layout nl gap (Suc k) v = c # cs" "\<not> json_ws c" "byte c \<notin> {93, 125}"
        by (rule layout_head)
      then show ?thesis using that vs by (cases ws) (auto simp flip: byte_inject)
    qed
    ultimately show ?thesis
      by (elim reads_Suc) (simp add: d False assms(1) has_prefix_Cons json_ws_def)
  qed
next
  case (JObj ms)
  then obtain d' where d: "d = Suc d'" by (cases d) simp_all
  show ?case
  proof (cases "ms = []")
    case True
    then show ?thesis
      by (intro readsI [of 1]) (rename_tac f, case_tac f, simp_all add: d json_ws_def has_prefix_Cons has_prefix_Nil)
  next
    case False
    let ?j = "join_with (CHR '','' # nl (Suc k))
      (map (\<lambda>(x, v). json_quote x @ CHR '':'' # gap @ json_layout nl gap (Suc k) v) ms)"
    have "reads_members d' (nl (Suc k) @ ?j @ nl k @ chr_of 125 # r)
        (map (\<lambda>(k, v). (to_valid k, json_valid v)) ms) r"
    proof (rule reads_members_join [OF _ assms(1) assms(1) assms(2) False])
      fix m r assume "m \<in> set ms" "num_end r"
      with JObj depth_member(2) [of m ms]
      show "reads_value d' (json_layout nl gap (Suc k) (snd m) @ r) (json_valid (snd m)) r"
        by (cases m) (force simp: d)
    qed
    moreover obtain cs where "?j = chr_of 34 # cs"
      using False by (cases ms; cases "tl ms") (auto simp: json_quote_def)
    ultimately show ?thesis
      by (elim reads_Suc) (simp add: d False assms(1) has_prefix_Cons json_ws_def)
  qed
next
  case (JNum t)
  then show ?case by (simp add: reads_number)
next
  case (JStr s)
  then show ?case
    by (intro readsI [of 1]) (rename_tac f, case_tac f, simp_all add: json_quote_def json_ws_def scan_str_escape unquote_escape)
next
  case JNull
  then show ?case
    by (intro readsI [of 1]) (rename_tac f, case_tac f, simp_all add: json_ws_def has_prefix_Cons has_prefix_Nil)
next
  case (JBool b)
  then show ?case
    by (intro readsI [of 1]) (rename_tac f, case_tac f, simp_all add: json_ws_def has_prefix_Cons byte_def has_prefix_Nil)
qed

text \<open>The fuel of \<open>json_unmarshal\<close> suffices, and white space may follow.\<close>

lemma reads_unmarshal:
  assumes "reads_value max_depth s v r" and "blank r"
  shows "json_unmarshal s = Some v"
proof -
  obtain n where n: "\<forall>f\<ge>n. parse_value f max_depth s = Some (v, r)" using assms(1) by (auto simp: reads_def)
  have "parse_value (2 * length s + 2) max_depth s = parse_value (max n (2 * length s + 2)) max_depth s"
    by (rule json_fuel_enough [symmetric]) simp
  moreover have "skip_ws r = []" using assms(2) by (simp add: skip_ws_def blank_def list_all_iff)
  ultimately show ?thesis using n by (simp add: json_unmarshal_def)
qed

lemma unmarshal_layout:
  assumes "\<And>k. blank (nl k)" and "blank gap" and "blank r" and "json_numbers v" and "json_depth v \<le> max_depth"
  shows "json_unmarshal (json_layout nl gap 0 v @ r) = Some (json_valid v)"
proof (rule reads_unmarshal [OF reads_layout])
  show "num_end r" using num_end_blank [OF assms(3)] assms(3)
    by (cases r) (auto simp: blank_def json_ws_def is_digit_def byte_def)
qed (use assms in simp_all)

lemma unmarshal_encode:
  "json_numbers v \<Longrightarrow> json_depth v \<le> max_depth \<Longrightarrow> blank r \<Longrightarrow> json_unmarshal (json_encode v @ r) = Some (json_valid v)"
  unfolding json_encode_layout [of v 0] by (rule unmarshal_layout) simp_all

lemma unmarshal_indent:
  "json_numbers v \<Longrightarrow> json_depth v \<le> max_depth \<Longrightarrow> blank r \<Longrightarrow> json_unmarshal (json_indent v @ r) = Some (json_valid v)"
  unfolding json_indent_def
  by (rule unmarshal_layout) (simp_all add: blank_def json_ws_def list_all_iff byte_def [of "CHR '' ''"])

text \<open>Numbers the service prints itself are literals of this kind.\<close>

lemma nat_digits_head: "0 < n \<Longrightarrow> hd (nat_digits n) \<noteq> CHR ''0''"
proof (induction n rule: nat_digits_induct)
  case (small n)
  then have "byte (chr_of (48 + n)) \<noteq> byte (CHR ''0'')" by simp
  then have "chr_of (48 + n) \<noteq> CHR ''0''" by metis
  with small show ?case by (simp add: nat_digits_small)
next
  case (large n)
  then show ?case by (simp add: nat_digits_large)
qed

lemma scan_int_digits: "scan_int (nat_digits n) = Some (nat_digits n, [])"
proof (cases "n = 0")
  case True
  then show ?thesis by (simp add: nat_digits_small scan_int_def flip: byte_inject)
next
  case False
  then obtain c cs where c: "nat_digits n = c # cs" "c \<noteq> CHR ''0''"
    using nat_digits_head [of n] by (cases "nat_digits n") auto
  with nat_digits_digits [of n] have "takeWhile is_digit (c # cs) = c # cs" "dropWhile is_digit (c # cs) = []"
    by (auto simp: list_all_iff)
  with c show ?thesis by (simp add: scan_int_def scan_digits_def)
qed

lemma itoa_number [simp]: "scan_number (itoa n) = Some (itoa n, [])"
  using nat_digits_no_sign [of "nat n"] scan_int_digits [of "nat n"] scan_int_digits [of "nat (- n)"]
  by (simp add: scan_number_def itoa_def scan_frac_def scan_exp_def)

section \<open>What is read is valid text\<close>

lemma div64:
  obtains q t :: nat where "n = q * 64 + t" "t < 64"
  by (rule that [of "n div 64" "n mod 64"]) simp_all

lemma decode_encode_rune:
  obtains "n < 128" "encode_rune n = [chr_of n]"
  | c cs m where "encode_rune n = c # cs" "\<not> byte c < 128" "encode_rune m = encode_rune n"
      "\<And>r. decode_rune (c # cs @ r) = (m, Suc (length cs))"
proof -
  consider "n < 128" | "128 \<le> n" "n < 2048" | "55296 \<le> n \<and> n \<le> 57343 \<or> 1114111 < n"
    | "2048 \<le> n" "n < 65536" "n < 55296 \<or> 57343 < n" | "65536 \<le> n" "n \<le> 1114111" by linarith
  then show ?thesis
  proof cases
    case 2
    obtain q t where n: "n = q * 64 + t" "t < 64" by (rule div64)
    with 2 have "q < 32" "2 \<le> q" by simp_all
    moreover from this 2 n have e: "encode_rune n = [chr_of (192 + q), chr_of (128 + t)]"
      by (simp add: encode_rune_def split64)
    ultimately show ?thesis
      by (intro that(2) [OF e, of n]) (use n in \<open>simp_all add: cont_byte_def Let_def\<close>)
  next
    case 3
    then have e: "encode_rune n = [chr_of 239, chr_of 191, chr_of 189]" by (auto simp: encode_rune_def)
    have m: "encode_rune 65533 = [chr_of 239, chr_of 191, chr_of 189]" by (simp add: encode_rune_def)
    show ?thesis by (rule that(2) [OF e, of 65533]) (simp_all add: e m cont_byte_def Let_def)
  next
    case 4
    obtain p t where p: "n = p * 64 + t" "t < 64" by (rule div64)
    obtain q u where q: "p = q * 64 + u" "u < 64" by (rule div64)
    have b: "q < 16" "q = 0 \<longrightarrow> 32 \<le> u" "q = 13 \<longrightarrow> u \<le> 31" using 4 p q by auto
    have "n div 64 = p" "n mod 64 = t" unfolding p(1) by (rule split64 [OF p(2)])+
    moreover have "p div 64 = q" "p mod 64 = u" unfolding q(1) by (rule split64 [OF q(2)])+
    ultimately have e: "encode_rune n = [chr_of (224 + q), chr_of (128 + u), chr_of (128 + t)]"
      using 4 by (auto simp: encode_rune_def div64_twice)
    show ?thesis
      by (rule that(2) [OF e, of n]) (use b p q in \<open>simp_all add: cont_byte_def Let_def\<close>)
  next
    case 5
    obtain p t where p: "n = p * 64 + t" "t < 64" by (rule div64)
    obtain q u where q: "p = q * 64 + u" "u < 64" by (rule div64)
    obtain x y where x: "q = x * 64 + y" "y < 64" by (rule div64)
    have b: "x < 5" "x = 0 \<longrightarrow> 16 \<le> y" "x = 4 \<longrightarrow> y \<le> 15" using 5 p q x by auto
    have "n div 64 = p" "n mod 64 = t" unfolding p(1) by (rule split64 [OF p(2)])+
    moreover have "p div 64 = q" "p mod 64 = u" unfolding q(1) by (rule split64 [OF q(2)])+
    moreover have "q div 64 = x" "q mod 64 = y" unfolding x(1) by (rule split64 [OF x(2)])+
    ultimately have e: "encode_rune n = [chr_of (240 + x), chr_of (128 + y), chr_of (128 + u), chr_of (128 + t)]"
      using 5 by (auto simp: encode_rune_def div64_twice)
    show ?thesis
      by (rule that(2) [OF e, of n]) (use b p q x in \<open>simp_all add: cont_byte_def Let_def\<close>)
  qed (use that in \<open>simp add: encode_rune_def\<close>)
qed

lemma to_valid_encode_rune: "to_valid (encode_rune n @ r) = encode_rune n @ to_valid r"
proof (cases n rule: decode_encode_rune)
  case (2 c cs m)
  then show ?thesis by (simp add: to_valid_wide [OF 2(2) 2(4)] max_def)
qed simp

text \<open>The raw text a scan yields: no escape ends it or names a byte outside ASCII.\<close>

fun escaped :: "gostring \<Rightarrow> bool" where
  "escaped [] \<longleftrightarrow> True"
| "escaped [c] \<longleftrightarrow> byte c \<noteq> 92"
| "escaped (c # d # r) \<longleftrightarrow> (if byte c = 92 then byte d < 128 \<and> escaped r else escaped (d # r))"

lemma escaped_Cons: "byte c \<noteq> 92 \<Longrightarrow> escaped (c # r) \<longleftrightarrow> escaped r"
  by (cases r) simp_all

lemma hex_not_escape: "hex_val h \<noteq> None \<Longrightarrow> byte h \<noteq> 92"
  by (simp add: hex_val_def Let_def split: if_splits)

lemma scan_str_escaped: "scan_str s = Some (t, r) \<Longrightarrow> escaped t"
proof (induction s arbitrary: t rule: scan_str.induct)
  case (2 c cs)
  show ?case
  proof (cases "byte c = 92")
    case False
    with 2 show ?thesis by (auto simp: escaped_Cons split: if_splits)
  next
    case True
    then obtain e q where q: "cs = e # q" using "2.prems" by (cases cs) simp_all
    show ?thesis
    proof (cases "byte e \<in> {34, 92, 47, 98, 102, 110, 114, 116}")
      case e: True
      with "2.prems" True q obtain a where a: "scan_str q = Some (a, r)" "t = c # e # a" by auto
      have "escaped a" by (rule "2.IH"(1) [OF _ True q e a(1)]) (use True in simp)
      with a e True show ?thesis by auto
    next
      case e: False
      with "2.prems" True q have u: "byte e = 117" by (auto split: if_splits)
      with "2.prems" True q e obtain h1 h2 h3 h4 q' where h: "q = h1 # h2 # h3 # h4 # q'"
        "hex_val h1 \<noteq> None" "hex_val h2 \<noteq> None" "hex_val h3 \<noteq> None" "hex_val h4 \<noteq> None"
        by (auto split: if_splits list.splits)
      with "2.prems" True q e u obtain a where a: "scan_str q' = Some (a, r)"
        "t = c # e # h1 # h2 # h3 # h4 # a" by auto
      have "escaped a" by (rule "2.IH"(2) [OF _ True q e u h(1) refl refl refl]) (use True h a in auto)
      with a h u True show ?thesis by (simp add: escaped_Cons hex_not_escape)
    qed
  qed
qed simp

lemma escaped_drop:
  assumes "escaped (c # cs)" and "byte c \<noteq> 92" and "\<forall>x\<in>set (take n (c # cs)). byte x \<noteq> 92"
  shows "escaped (drop n (c # cs))"
  using assms(1,3)
proof (induction n arbitrary: c cs)
  case (Suc n)
  then have "escaped cs" by (simp add: escaped_Cons)
  with Suc show ?case by (cases cs) auto
qed simp

lemma getu4_escaped:
  assumes "getu4 s = Some n" and "escaped s"
  shows "escaped (drop 6 s)"
proof -
  obtain b u h1 h2 h3 h4 r where s: "s = b # u # h1 # h2 # h3 # h4 # r" and h: "byte b = 92"
    "hex_val h1 \<noteq> None" "hex_val h2 \<noteq> None" "hex_val h3 \<noteq> None" "hex_val h4 \<noteq> None"
    using assms(1) by (auto simp: getu4_def split: list.splits option.splits if_splits)
  then show ?thesis using assms(2) by (simp add: escaped_Cons hex_not_escape)
qed

lemma unescape_char_ascii: "byte e < 128 \<Longrightarrow> byte (unescape_char e) < 128"
  by (simp add: unescape_char_def)

lemma unquote_valid: "escaped s \<Longrightarrow> to_valid (unquote s) = unquote s"
proof (induction "length s" arbitrary: s rule: less_induct)
  case less
  show ?case
  proof (cases s)
    case (Cons c cs)
    have drop: "to_valid (unquote (drop n s)) = unquote (drop n s)" if "escaped (drop n s)" "0 < n" for n
      using that Cons by (intro less.hyps) simp_all
    consider (u4) n where "byte c = 92" "getu4 s = Some n" | (short) "byte c = 92" "getu4 s = None"
      | (ascii) "byte c \<noteq> 92" "byte c < 128" | (wide) "byte c \<noteq> 92" "\<not> byte c < 128" by fastforce
    then show ?thesis
    proof cases
      case u4
      note six = getu4_escaped [OF u4(2) less.prems]
      have twelve: "escaped (drop 12 s)" if "getu4 (drop 6 s) = Some m" for m
        using getu4_escaped [OF that six] by simp
      from u4 Cons show ?thesis
        using drop [OF six] drop [OF twelve]
        by (subst (1 2) unquote.simps) (auto simp: to_valid_encode_rune split: option.split)
    next
      case short
      then obtain e r where e: "cs = e # r" "byte e < 128" "escaped r" using less.prems Cons by (cases cs) auto
      with short Cons drop [of 2] unescape_char_ascii [of e] show ?thesis
        by (subst (1 2) unquote.simps) simp
    next
      case ascii
      with Cons less.prems drop [of 1] show ?thesis by (simp add: unquote_ascii escaped_Cons)
    next
      case wide
      obtain n w where d: "decode_rune (c # cs) = (n, w)" by force
      have "escaped (drop (max 1 w) (c # cs))"
      proof (rule escaped_drop [OF _ wide(1)])
        show "\<forall>x\<in>set (take (max 1 w) (c # cs)). byte x \<noteq> 92"
          using wide d by (cases rule: decode_rune_wide [OF wide(2), of cs]) (auto simp: max_def)
      qed (use less.prems Cons in simp)
      with Cons drop [of "max 1 w"] show ?thesis
        by (simp add: unquote_wide [OF wide(2) d] to_valid_encode_rune)
    qed
  qed simp
qed

definition valid_members :: "(gostring \<times> json) list \<Rightarrow> bool" where
  "valid_members ms \<longleftrightarrow> map (\<lambda>(k, v). (to_valid k, json_valid v)) ms = ms"

lemma valid_members_simps [simp]:
  "valid_members []" "valid_members ((k, v) # ms) \<longleftrightarrow> to_valid k = k \<and> json_valid v = v \<and> valid_members ms"
  by (simp_all add: valid_members_def)

lemma parse_value_valid:
  assumes "parse_value (Suc f) d s = Some (v, r)"
    and "\<And>d s vs r. parse_elems f d s = Some (vs, r) \<Longrightarrow> map json_valid vs = vs"
    and "\<And>d s ms r. parse_members f d s = Some (ms, r) \<Longrightarrow> valid_members ms"
  shows "json_valid v = v"
  using assms(1)
  by (auto simp: unquote_valid scan_str_escaped split: list.splits if_splits
      dest: assms(2) assms(3) [unfolded valid_members_def])

lemma parse_elems_valid:
  assumes "parse_elems (Suc f) d s = Some (vs, r)"
    and "\<And>d s v r. parse_value f d s = Some (v, r) \<Longrightarrow> json_valid v = v"
    and "\<And>d s vs r. parse_elems f d s = Some (vs, r) \<Longrightarrow> map json_valid vs = vs"
  shows "map json_valid vs = vs"
  using assms(1) by (auto split: list.splits if_splits option.splits) (use assms(2,3) in blast)+

lemma parse_members_valid:
  assumes "parse_members (Suc f) d s = Some (ms, r)"
    and "\<And>d s v r. parse_value f d s = Some (v, r) \<Longrightarrow> json_valid v = v"
    and "\<And>d s ms r. parse_members f d s = Some (ms, r) \<Longrightarrow> valid_members ms"
  shows "valid_members ms"
  using assms(1)
  by (auto simp: unquote_valid scan_str_escaped split: list.splits if_splits option.splits)
    (use assms(2,3) in blast)+

lemma parse_valid:
  "(\<forall>d s v r. parse_value f d s = Some (v, r) \<longrightarrow> json_valid v = v)
   \<and> (\<forall>d s vs r. parse_elems f d s = Some (vs, r) \<longrightarrow> map json_valid vs = vs)
   \<and> (\<forall>d s ms r. parse_members f d s = Some (ms, r) \<longrightarrow> valid_members ms)"
proof (induction f)
  case (Suc f)
  then have v: "\<And>d s v r. parse_value f d s = Some (v, r) \<Longrightarrow> json_valid v = v"
    and e: "\<And>d s vs r. parse_elems f d s = Some (vs, r) \<Longrightarrow> map json_valid vs = vs"
    and m: "\<And>d s ms r. parse_members f d s = Some (ms, r) \<Longrightarrow> valid_members ms" by blast+
  show ?case
    by (intro conjI allI impI; rule parse_value_valid parse_elems_valid parse_members_valid; (rule v e m)?; assumption)
qed simp

lemma unmarshal_parse:
  "json_unmarshal s = Some v \<Longrightarrow> \<exists>r. parse_value (2 * length s + 2) max_depth s = Some (v, r)"
  by (auto simp: json_unmarshal_def simp del: parse_value.simps split: option.splits if_splits)

lemma unmarshal_valid:
  assumes "json_unmarshal s = Some v"
  shows "json_valid v = v"
proof -
  obtain r where "parse_value (2 * length s + 2) max_depth s = Some (v, r)" using assms unmarshal_parse by blast
  then show ?thesis using parse_valid by blast
qed

section \<open>What is written is valid text\<close>

lemma to_valid_append: "to_valid a = a \<Longrightarrow> to_valid (a @ b) = a @ to_valid b"
proof (induction "length a" arbitrary: a rule: less_induct)
  case less
  show ?case
  proof (cases a)
    case (Cons c cs)
    show ?thesis
    proof (cases "byte c < 128")
      case True
      with Cons less.prems less.hyps [of cs] show ?thesis by simp
    next
      case False
      show ?thesis
      proof (cases rule: decode_rune_wide [OF False, of cs])
        case 1
        with less.prems Cons have "encode_rune 65533 @ to_valid cs = c # cs"
          by (simp add: to_valid_wide [OF False 1])
        then have "c = chr_of 239" "chr_of 191 # chr_of 189 # to_valid cs = cs" by (simp_all add: encode_rune_def)
        moreover from this(2) obtain q where "cs = chr_of 191 # chr_of 189 # q" by metis
        ultimately show ?thesis using 1 by (simp add: cont_byte_def Let_def)
      next
        case (2 n w)
        let ?t = "take w (c # cs)" and ?r = "drop w (c # cs)"
        have "max 1 w = w" using 2(2) by simp
        with to_valid_wide [OF False 2(1)] less.prems Cons 2(4) have "?t @ to_valid ?r = ?t @ ?r" by simp
        then have "to_valid ?r = ?r" by (rule same_append_eq [THEN iffD1])
        then have ih: "to_valid (?r @ b) = ?r @ to_valid b"
          by (rule less.hyps [rotated]) (use Cons 2(2) in simp)
        obtain x where x: "?t = c # x" using 2(2) by (cases w) simp_all
        have d: "decode_rune (c # cs @ b) = (n, w)" using 2(5) [of "?r @ b"]
          by (metis append.assoc append_take_drop_id append_Cons)
        have "drop w (c # cs @ b) = ?r @ b" using 2(3) by (metis append_Cons drop_append diff_is_0_eq drop0)
        have "to_valid (c # cs @ b) = ?t @ to_valid (?r @ b)"
          using to_valid_wide [OF False d] 2(4) \<open>max 1 w = w\<close> \<open>drop w (c # cs @ b) = ?r @ b\<close> by simp
        also have "\<dots> = (?t @ ?r) @ to_valid b" by (simp only: ih append.assoc)
        also have "?t @ ?r = c # cs" by (rule append_take_drop_id)
        finally show ?thesis using Cons by simp
      qed
    qed
  qed simp
qed

lemma escape_str_valid: "to_valid (escape_str s) = escape_str s"
proof (induction "length s" arbitrary: s rule: less_induct)
  case less
  show ?case
  proof (cases s)
    case (Cons c cs)
    show ?thesis
    proof (cases "byte c < 128")
      case True
      have "list_all (\<lambda>x. byte x < 128) (hex2 n)" for n
      proof -
        have "\<forall>i\<in>set [0..<16]. byte (hex_digits ! i) < 128" by code_simp
        then show ?thesis by (simp add: hex2_def)
      qed
      with True have "list_all (\<lambda>x. byte x < 128) (escape_ascii c)"
        by (auto simp: escape_ascii_def Let_def)
      then have "to_valid (escape_ascii c) = escape_ascii c" by (rule to_valid_ascii)
      with Cons True less [of cs] show ?thesis by (simp add: escape_str_ascii to_valid_append)
    next
      case False
      obtain n w where d: "decode_rune (c # cs) = (n, w)" by force
      have ih: "to_valid (escape_str (drop (max 1 w) (c # cs))) = escape_str (drop (max 1 w) (c # cs))"
        using Cons by (intro less) simp
      have "to_valid (take w (c # cs)) = take w (c # cs)" if "(n, w) \<noteq> (65533, 1)"
        using False that d to_valid_encode_rune [of n "[]"] by (cases rule: decode_rune_wide [of c cs]) auto
      then show ?thesis using ih Cons
        by (auto simp: escape_str_wide [OF False d] to_valid_append simp del: decode_rune.simps)
    qed
  qed simp
qed

lemma scan_digits_ascii: "scan_digits s = Some (d, r) \<Longrightarrow> list_all (\<lambda>c. byte c < 128) d"
  by (auto simp: scan_digits_def list_all_iff is_digit_def split: if_splits dest: set_takeWhileD)

lemma scan_number_ascii:
  assumes "scan_number s = Some (t, r)"
  shows "list_all (\<lambda>c. byte c < 128) t"
proof -
  have s: "byte c < 128" if "c \<in> set ''-+.eE0''" for c using that by (auto simp: byte_def)
  show ?thesis using assms
    by (auto simp: scan_number_def scan_int_def scan_frac_def scan_exp_def Let_def s
        split: option.splits list.splits if_splits dest!: scan_digits_ascii)
qed

lemma to_valid_join:
  "\<forall>x\<in>set xs. to_valid x = x \<Longrightarrow> to_valid d = d \<Longrightarrow> to_valid (join_with d xs) = join_with d xs"
  by (induction d xs rule: join_with.induct) (simp_all add: to_valid_append)

lemma json_quote_valid: "to_valid (json_quote s @ r) = json_quote s @ to_valid r"
  by (simp add: json_quote_def to_valid_append escape_str_valid)

lemma json_encode_valid: "json_numbers v \<Longrightarrow> to_valid (json_encode v) = json_encode v"
proof (induction v)
  case (JNum t)
  then show ?case by (auto intro: to_valid_ascii scan_number_ascii)
next
  case (JStr s)
  then show ?case using json_quote_valid [of s "[]"] by simp
next
  case (JArr vs)
  then have "to_valid (join_with '','' (map json_encode vs)) = join_with '','' (map json_encode vs)"
    by (intro to_valid_join) auto
  then show ?case by (simp add: to_valid_append)
next
  case (JObj ms)
  then have "to_valid (join_with '','' (map (\<lambda>(k, v). json_quote k @ CHR '':'' # json_encode v) ms))
      = join_with '','' (map (\<lambda>(k, v). json_quote k @ CHR '':'' # json_encode v) ms)"
    by (intro to_valid_join) (fastforce simp: json_quote_valid)+
  then show ?case by (simp add: to_valid_append)
qed (simp_all add: byte_def)

section \<open>Depth\<close>

text \<open>Values within a depth, with numbers as the service prints them.\<close>

fun json_fits :: "nat \<Rightarrow> json \<Rightarrow> bool" where
  "json_fits d (JNum t) \<longleftrightarrow> scan_number t = Some (t, [])"
| "json_fits d (JArr vs) \<longleftrightarrow> 0 < d \<and> (\<forall>v\<in>set vs. json_fits (d - 1) v)"
| "json_fits d (JObj ms) \<longleftrightarrow> 0 < d \<and> (\<forall>m\<in>set ms. json_fits (d - 1) (snd m))"
| "json_fits d _ \<longleftrightarrow> True"

lemma foldr_max_le: "foldr max ns 0 \<le> (d :: nat) \<longleftrightarrow> (\<forall>n\<in>set ns. n \<le> d)"
  by (induction ns) auto

lemma json_fits_iff: "json_fits d v \<longleftrightarrow> json_numbers v \<and> json_depth v \<le> d"
proof (induction v arbitrary: d)
  case (JArr vs)
  then show ?case by (cases d) (auto simp: foldr_max_le)
next
  case (JObj ms)
  then show ?case by (cases d) (fastforce simp: foldr_max_le)+
qed simp_all

section \<open>Values decoded into \<^verbatim>\<open>any\<close>\<close>

lemma parse_value_depth:
  assumes "parse_value (Suc f) d s = Some (v, r)"
    and "\<And>d s vs r. parse_elems f d s = Some (vs, r) \<Longrightarrow> \<forall>v\<in>set vs. json_depth v \<le> d"
    and "\<And>d s ms r. parse_members f d s = Some (ms, r) \<Longrightarrow> \<forall>m\<in>set ms. json_depth (snd m) \<le> d"
  shows "json_depth v \<le> d"
  using assms(1) by (cases d) (auto simp: foldr_max_le split: list.splits if_splits dest!: assms(2,3))

lemma parse_elems_depth:
  assumes "parse_elems (Suc f) d s = Some (vs, r)"
    and "\<And>d s v r. parse_value f d s = Some (v, r) \<Longrightarrow> json_depth v \<le> d"
    and "\<And>d s vs r. parse_elems f d s = Some (vs, r) \<Longrightarrow> \<forall>v\<in>set vs. json_depth v \<le> d"
  shows "\<forall>v\<in>set vs. json_depth v \<le> d"
  using assms(1) by (auto split: list.splits if_splits option.splits) (use assms(2,3) in blast)+

lemma parse_members_depth:
  assumes "parse_members (Suc f) d s = Some (ms, r)"
    and "\<And>d s v r. parse_value f d s = Some (v, r) \<Longrightarrow> json_depth v \<le> d"
    and "\<And>d s ms r. parse_members f d s = Some (ms, r) \<Longrightarrow> \<forall>m\<in>set ms. json_depth (snd m) \<le> d"
  shows "\<forall>m\<in>set ms. json_depth (snd m) \<le> d"
  using assms(1) by (auto split: list.splits if_splits option.splits) (use assms(2,3) in force)+

lemma parse_depth:
  "(\<forall>d s v r. parse_value f d s = Some (v, r) \<longrightarrow> json_depth v \<le> d)
   \<and> (\<forall>d s vs r. parse_elems f d s = Some (vs, r) \<longrightarrow> (\<forall>v\<in>set vs. json_depth v \<le> d))
   \<and> (\<forall>d s ms r. parse_members f d s = Some (ms, r) \<longrightarrow> (\<forall>m\<in>set ms. json_depth (snd m) \<le> d))"
proof (induction f)
  case (Suc f)
  then have v: "\<And>d s v r. parse_value f d s = Some (v, r) \<Longrightarrow> json_depth v \<le> d"
    and e: "\<And>d s vs r. parse_elems f d s = Some (vs, r) \<Longrightarrow> \<forall>v\<in>set vs. json_depth v \<le> d"
    and m: "\<And>d s ms r. parse_members f d s = Some (ms, r) \<Longrightarrow> \<forall>m\<in>set ms. json_depth (snd m) \<le> d" by blast+
  show ?case
    by (intro conjI allI impI; rule parse_value_depth parse_elems_depth parse_members_depth; (rule v e m)?; assumption)
qed simp

lemma unmarshal_depth: "json_unmarshal s = Some v \<Longrightarrow> json_depth v \<le> max_depth"
  using unmarshal_parse parse_depth by blast

text \<open>The number texts \<open>fl\<close> yields are literals; then what is printed of a decoded value is printed
  faithfully.\<close>

definition float_sound :: "(gostring \<Rightarrow> gostring option) \<Rightarrow> bool" where
  "float_sound fl \<longleftrightarrow> (\<forall>t u. fl t = Some u \<longrightarrow> scan_number u = Some (u, []))"

lemma last_values: "k \<in> fst ` set cs \<Longrightarrow> (k, the (map_of (rev cs) k)) \<in> set cs"
  by (metis map_of_SomeD map_of_eq_None_iff option.collapse set_rev)

lemma any_canon_fits:
  assumes "float_sound fl"
  shows "any_in_range fl v \<Longrightarrow> json_depth v \<le> d \<Longrightarrow> json_fits d (any_canon fl v)"
proof (induction v arbitrary: d)
  case (JNum t)
  then show ?case using assms by (auto simp: float_sound_def)
next
  case (JArr vs)
  then show ?case by (cases d) (auto simp: foldr_max_le)
next
  case (JObj ms)
  then obtain e where d: "d = Suc e" by (cases d) simp_all
  let ?cs = "map (\<lambda>(k, v). (k, any_canon fl v)) ms"
  have fit: "json_fits e (snd m)" if "m \<in> set ?cs" for m
  proof -
    from that obtain k u where u: "(k, u) \<in> set ms" "m = (k, any_canon fl u)" by auto
    with JObj.prems d have "any_in_range fl u" "json_depth u \<le> e" by (fastforce simp: foldr_max_le)+
    with JObj.IH [OF u(1), of u] u(2) show ?thesis by simp
  qed
  show ?case
    using fit last_values [of _ ?cs] by (fastforce simp: d Let_def)
qed simp_all

section \<open>The two writers\<close>

locale json_writer =
  fixes text_of :: "json \<Rightarrow> gostring"
  assumes write_reads: "json_numbers v \<Longrightarrow> json_depth v \<le> max_depth \<Longrightarrow> blank r \<Longrightarrow>
    json_unmarshal (text_of v @ r) = Some (json_valid v)"
begin

lemma line_reads: "json_fits d v \<Longrightarrow> d \<le> max_depth \<Longrightarrow> json_unmarshal (text_of v @ [chr_of 10]) = Some (json_valid v)"
  by (rule write_reads) (auto simp: json_fits_iff blank_def json_ws_def)

lemma text_reads: "json_fits d v \<Longrightarrow> d \<le> max_depth \<Longrightarrow> json_unmarshal (text_of v) = Some (json_valid v)"
  using write_reads [of v "[]"] by (auto simp: json_fits_iff)

text \<open>What was read can be written and read again without a change, and two readings that print
  alike are alike.\<close>

lemma write_inject:
  assumes "json_unmarshal s = Some v" "json_unmarshal t = Some u" "text_of v = text_of u"
    and "json_fits max_depth v" "json_fits max_depth u"
  shows "v = u"
proof -
  have "Some v = json_unmarshal (text_of v)" "Some u = json_unmarshal (text_of u)"
    using text_reads [OF assms(4) order_refl] text_reads [OF assms(5) order_refl]
    unfolding unmarshal_valid [OF assms(1)] unmarshal_valid [OF assms(2)] by metis+
  then show ?thesis using assms(3) by (metis option.inject)
qed

end

interpretation compact: json_writer json_encode
  by unfold_locales (rule unmarshal_encode)

interpretation indented: json_writer json_indent
  by unfold_locales (rule unmarshal_indent)

end
