(* ===== verification/Answers.thy ===== *)
theory Answers
  imports Server Json_Print
begin

text \<open>
  The shape of every answer: status, content type, redirect target and cookies, for all routes.
\<close>

section \<open>Well-formed answers\<close>

fun body_ok :: "gostring option \<Rightarrow> body \<Rightarrow> bool" where
  "body_ok ct NoBody \<longleftrightarrow> True"
| "body_ok ct (Text t) \<longleftrightarrow> ct \<noteq> None"
| "body_ok ct (Json v) \<longleftrightarrow> ct = Some ''application/json'' \<and> v \<in> range JObj \<union> range JArr \<and> json_fits 8 v"
| "body_ok ct (JsonIndented v) \<longleftrightarrow>
     ct = Some ''application/json'' \<and> v \<in> range JObj \<union> range JArr \<and> json_fits 8 v"
| "body_ok ct (LoginPage n e) \<longleftrightarrow> ct = Some ''text/html; charset=utf-8''"

definition cookie_ok :: "config \<Rightarrow> cookie \<Rightarrow> bool" where
  "cookie_ok cfg c \<longleftrightarrow>
     ck_http_only c \<and> ck_same_site_lax c \<and> ck_secure c = cf_cookie_secure cfg \<and> ck_path c = ''/''
   \<and> ck_name c \<in> {session_cookie_name, ''token''}"

definition form_ok :: "config \<Rightarrow> response \<Rightarrow> bool" where
  "form_ok cfg x \<longleftrightarrow>
     200 \<le> rs_status x \<and> rs_status x < 600
   \<and> body_ok (rs_header x ''Content-Type'') (rs_body x)
   \<and> list_all (cookie_ok cfg) (rs_cookies x) \<and> (rs_cookies x = [] \<or> rs_status x = 302)"

definition redirect_ok :: "response \<Rightarrow> bool" where
  "redirect_ok x \<longleftrightarrow> (rs_status x = 302 \<longrightarrow> rs_header x ''Location'' \<noteq> None)"

definition answer_ok :: "config \<Rightarrow> response \<Rightarrow> bool" where
  "answer_ok cfg x \<longleftrightarrow> form_ok cfg x \<and> redirect_ok x"

lemma answer_json [simp]:
  "answer_ok cfg (write_json st (JArr vs)) \<longleftrightarrow> 200 \<le> st \<and> st < 600 \<and> st \<noteq> 302 \<and> json_fits 8 (JArr vs)"
  "answer_ok cfg (write_json st (JObj ms)) \<longleftrightarrow> 200 \<le> st \<and> st < 600 \<and> st \<noteq> 302 \<and> json_fits 8 (JObj ms)"
  "answer_ok cfg (err_json st m) \<longleftrightarrow> 200 \<le> st \<and> st < 600 \<and> st \<noteq> 302"
  by (auto simp: answer_ok_def form_ok_def redirect_ok_def err_json_def err_json_on_def write_json_def write_json_on_def rs_header_def)

lemma answer_json_on [simp]:
  "200 \<le> st \<Longrightarrow> st < 600 \<Longrightarrow> st \<noteq> 302 \<Longrightarrow> json_fits 8 (JObj ms) \<Longrightarrow> answer_ok cfg (write_json_on hs st (JObj ms))"
  "200 \<le> st \<Longrightarrow> st < 600 \<Longrightarrow> st \<noteq> 302 \<Longrightarrow> answer_ok cfg (err_json_on hs st m)"
  by (auto simp: answer_ok_def form_ok_def redirect_ok_def err_json_on_def write_json_on_def rs_header_def)

lemma cookies_ok [simp]:
  "cookie_ok cfg (set_session_cookie cfg t)" "cookie_ok cfg (clear_session_cookie cfg)"
  "cookie_ok cfg (minio_token_cookie cfg t)"
  by (simp_all add: cookie_ok_def set_session_cookie_def clear_session_cookie_def session_cookie_def
      minio_token_cookie_def)

lemma answer_redirect [simp]:
  "answer_ok cfg (http_redirect_on hs cks r u) \<longleftrightarrow> list_all (cookie_ok cfg) cks"
  by (auto simp: answer_ok_def form_ok_def redirect_ok_def http_redirect_on_def Let_def rs_header_def)

lemma answer_redirect_plain [simp]: "answer_ok cfg (http_redirect r u)"
  by (simp add: http_redirect_def)

lemma answer_mk [simp]:
  "answer_ok cfg (mk_response st hs cks b) \<longleftrightarrow>
     200 \<le> st \<and> st < 600 \<and> body_ok (map_of hs ''Content-Type'') b
     \<and> (st = 302 \<longrightarrow> map_of hs ''Location'' \<noteq> None) \<and> list_all (cookie_ok cfg) cks \<and> (cks = [] \<or> st = 302)"
  by (auto simp: answer_ok_def form_ok_def redirect_ok_def rs_header_def)

section \<open>The values they carry\<close>

lemma omit_empty_fits [simp]: "\<forall>m\<in>set (omit_empty k v). json_fits d (snd m)"
  by (simp add: omit_empty_def)

lemma public_slot_fits [simp]: "0 < d \<Longrightarrow> json_fits d (to_public_slot sl)"
  by (simp add: to_public_slot_def ball_Un)

lemma any_map_fits [simp]: "json_fits d (any_map ms) \<longleftrightarrow> 0 < d \<and> (\<forall>m\<in>set ms. json_fits (d - 1) (snd m))"
  by (simp add: any_map_def)

lemma check_fits [simp]: "0 < d \<Longrightarrow> json_fits d (check_json c)"
  by (simp add: check_json_def)

lemma json_fits_mono: "json_fits d v \<Longrightarrow> d \<le> e \<Longrightarrow> json_fits e v"
  by (simp add: json_fits_iff)

lemma report_fits:
  assumes "\<forall>m\<in>set (dr_pb d) \<union> set (dr_jh d) \<union> set (dr_host d). json_fits 2 (snd m)"
  shows "json_fits 4 (report_json d)"
  using assms by (simp add: report_json_def ball_Un)

lemma host_parts_fit:
  "json_fits 2 (fst (snd (unix_user_part x n)))" "json_fits 2 (fst (home_part y uid h))"
  "json_fits 2 (snd (fst (file_part b l q)))"
  by (simp_all add: unix_user_part_def home_part_def file_part_def Let_def
      split: user_lookup.split option.split bool.split prod.split)

lemma host_part_fits:
  assumes "host_part ho n w = (hm, cs)"
  shows "\<forall>m\<in>set hm. json_fits 2 (snd m)"
proof -
  obtain uid uj uc hj hcs where u: "unix_user_part (ho_user ho (system_user n) w) n = (uid, uj, uc)"
    "home_part (ho_stat ho (home_path n) w) uid (home_path n) = (hj, hcs)"
    by (metis surj_pair)
  then have "json_fits 2 uj" "json_fits 2 hj" using host_parts_fit(1,2) by (metis fst_conv snd_conv)+
  with assms u show ?thesis
    by (auto simp: host_part_def Let_def file_part_def)
qed

lemma hub_parts_fit:
  "hub_token_part cfg = (jh, cs) \<Longrightarrow> \<forall>m\<in>set jh. json_fits 2 (snd m)"
  "hub_user_part sv n s = ((u, c), s1) \<Longrightarrow> json_fits 2 u"
  by (auto simp: hub_token_part_def hub_user_part_def Let_def
      split: if_splits option.splits prod.splits sum.splits bool.splits)

lemma pb_part_fits: "pb_part sl = (pb, cs) \<Longrightarrow> \<forall>m\<in>set pb. json_fits 2 (snd m)"
  by (auto simp: pb_part_def)

lemma full_report_fits:
  assumes "full_report sv ho n sl s = (d, s1)"
  shows "json_fits 4 (report_json d)"
proof -
  obtain pb pcs jh jcs uj uc s2 hm hcs where p: "pb_part sl = (pb, pcs)" "hub_token_part (sv_cfg sv) = (jh, jcs)"
    "hub_user_part sv n s = ((uj, uc), s2)" "host_part ho n (st_world s2) = (hm, hcs)"
    by (metis surj_pair)
  with assms have "dr_pb d = pb" "dr_host d = hm"
    "dr_jh d = jh @ [(''user_name_checked'', JStr n), (''user_exists'', uj)]"
    by (auto simp: full_report_def Let_def)
  with pb_part_fits [OF p(1)] hub_parts_fit(1) [OF p(2)] hub_parts_fit(2) [OF p(3)] host_part_fits [OF p(4)]
  show ?thesis by (intro report_fits) auto
qed

lemma answer_slot [simp]: "answer_ok cfg (write_json 200 (to_public_slot sl))"
  using public_slot_fits [of 8 sl] by (simp add: to_public_slot_def del: public_slot_fits)

lemma answer_report [simp]:
  "answer_ok cfg (write_json 200 (report_json (blocked_report n t)))"
  "full_report sv ho n sl s = (d, s1) \<Longrightarrow> json_fits 8 (report_json d)"
  "report_json d \<in> range JObj"
proof -
  have "json_fits 4 (report_json (blocked_report n t))" by (rule report_fits) (simp add: blocked_report_def)
  then have "json_fits 8 (report_json (blocked_report n t))" by (rule json_fits_mono) simp
  then show "answer_ok cfg (write_json 200 (report_json (blocked_report n t)))" by (simp add: report_json_def)
  show "full_report sv ho n sl s = (d, s1) \<Longrightarrow> json_fits 8 (report_json d)"
    by (rule json_fits_mono [OF full_report_fits]) simp_all
qed (simp add: report_json_def)

section \<open>The handlers\<close>

named_theorems answers \<open>parts of handlers answer in form\<close>

text \<open>Early answers of shared parts.\<close>

lemma refusals [dest!]:
  "secrets_auth_slot sv r s = (Inl x, s1) \<Longrightarrow> \<exists>st m. x = err_json st m \<and> st \<in> {401, 500}"
  "find_managed sv n s = (Inl x, s1) \<Longrightarrow> \<exists>st m. x = err_json st m \<and> st \<in> {404, 500}"
  "keys_prereqs sv = Inl x \<Longrightarrow> \<exists>st m. x = err_json st m \<and> st \<in> {500, 503}"
  "require_operator sv r = Some x \<Longrightarrow> \<exists>m. x = err_json 401 m"
  by (auto simp: secrets_auth_slot_def find_managed_def keys_prereqs_def require_operator_def Let_def
      split: option.splits if_splits prod.splits sum.splits)

lemma answer_validate [answers]:
  "answer_ok (sv_cfg sv) (fst (handle_validate sv r s))"
  "answer_ok (sv_cfg sv) (fst (handle_validate_optional sv r s))"
  by (auto simp: handle_validate_def handle_validate_optional_def Let_def split: prod.split)

lemma answer_login [answers]:
  "answer_ok (sv_cfg sv) (fst (handle_login_get sv r s))" "answer_ok (sv_cfg sv) (fst (handle_logout sv r s))"
  "answer_ok (sv_cfg sv) (fst (handle_login_post sv r s))"
  by (auto simp: handle_login_get_def handle_logout_def handle_login_post_def serve_login_def Let_def
      split: prod.split sum.split bool.split option.split)

lemma answer_identity [answers]:
  "answer_ok (sv_cfg sv) (fst (handle_auth_me sv r s))"
  "answer_ok (sv_cfg sv) (fst (handle_verify_nomad sv r s))"
  by (auto simp: handle_auth_me_def handle_verify_nomad_def Let_def
      split: prod.split sum.split option.split)

lemma answer_exchange [answers]: "answer_ok (sv_cfg sv) (fst (handle_auth_exchange sv r s))"
  by (auto simp: handle_auth_exchange_def bundle_json_def Let_def split: prod.split sum.split option.split)

lemma answer_config [answers]: "answer_ok (sv_cfg sv) (fst (handle_slots_me_config sv r s))"
  by (auto simp: handle_slots_me_config_def slots_config_blob_def slots_config_response_def Let_def
      split: prod.split sum.split option.split)

lemma answer_portal [answers]:
  "answer_ok (sv_cfg sv) (fst (handle_cli_token_post sv r s))"
  "answer_ok (sv_cfg sv) (fst (handle_auth_redeem sv r s))"
  "answer_ok (sv_cfg sv) (fst (handle_auth_minio_login sv r s))"
  by (auto simp: handle_cli_token_post_def cli_issue_def handle_auth_redeem_def handle_auth_minio_login_def Let_def
      split: prod.split sum.split option.split)

lemma answer_mint_failed: "answer_ok cfg (fst (mint_failed sv u e s))"
  by (auto simp: mint_failed_def mint_refused_def Let_def
      split: go_error.split hub_error_kind.split prod.split)

lemma answer_mint: "answer_ok cfg (fst (mint_token sv u n e s))"
  by (auto simp: mint_token_def mint_response_def Let_def answer_mint_failed split: prod.split sum.split)

lemma answer_workbench [answers]: "answer_ok (sv_cfg sv) (fst (handle_workbench_token sv r s))"
  by (auto simp: handle_workbench_token_def workbench_mint_def Let_def answer_mint
      split: prod.split sum.split option.split)

lemma answer_claim_slot: "answer_ok cfg (fst (claim_slot sv ss mgr req q slot s))"
  by (auto simp: claim_slot_def claim_response_def Let_def split: prod.split sum.split)

lemma answer_claim [answers]: "answer_ok (sv_cfg sv) (fst (handle_slots_claim sv r s))"
  by (auto simp: handle_slots_claim_def Let_def answer_claim_slot split: prod.split sum.split option.split)

lemma answer_secret: "answer_ok cfg (fst (store_secret sv na slot key g v s))"
    "answer_ok cfg (fst (fetch_secret sv na slot key s))"
  by (auto simp: store_secret_def fetch_secret_def split: prod.split sum.split)

lemma answer_secrets [answers]:
  "answer_ok (sv_cfg sv) (fst (handle_secrets_put sv r s))"
  "answer_ok (sv_cfg sv) (fst (handle_secrets_get sv r s))"
  by (auto simp: handle_secrets_put_def handle_secrets_get_def answer_secret Let_def
      split: prod.split sum.split option.split)

lemma answer_key: "answer_ok cfg (fst (release_key sv mk ks slot body s))"
    "answer_ok cfg (fst (provision_key sv mk ks i g s))"
  by (auto simp: release_key_def provision_key_def Let_def split: prod.split sum.split)

lemma answer_keys [answers]:
  "answer_ok (sv_cfg sv) (fst (handle_keys_get sv r s))" "answer_ok (sv_cfg sv) (fst (handle_keys_mint sv r s))"
  by (auto simp: handle_keys_get_def handle_keys_mint_def answer_key Let_def
      split: prod.split sum.split option.split)

lemma answer_reads [answers]:
  "answer_ok (sv_cfg sv) (fst (handle_manage_list_slots sv r s))"
  "answer_ok (sv_cfg sv) (fst (handle_manage_get_slot sv r s))"
  "answer_ok (sv_cfg sv) (fst (handle_slot_diag sv ho r s))"
  by (auto simp: handle_manage_list_slots_def handle_manage_get_slot_def handle_slot_diag_def
      Let_def split: prod.split sum.split option.split)

lemma answer_log_level [answers]: "answer_ok (sv_cfg sv) (fst (handle_log_level sv r s))"
  by (auto simp: handle_log_level_def set_level_def Let_def split: option.split prod.split)

lemma answer_flip: "flip_cred_source sv ss mgr slot want s = (Inl x, s1) \<Longrightarrow> answer_ok cfg x"
  by (auto simp: flip_cred_source_def Let_def split: if_splits prod.splits sum.splits)

lemma answer_cred_json: "answer_ok cfg (write_json 200 (cred_source_json cs ch pr op nt))"
  by (simp add: cred_source_json_def ball_Un)

lemma answer_cred_source [answers]: "answer_ok (sv_cfg sv) (fst (handle_cred_source sv r s))"
proof (cases "require_operator sv r")
  case None
  note op = this
  show ?thesis
  proof (cases "wanted_cred_source (read_limited body_limit r)")
    case None
    with op show ?thesis by (simp add: handle_cred_source_def)
  next
    case (Some want)
    obtain x s1 where f: "find_managed sv (rq_slot r) s = (x, s1)" by force
    show ?thesis
    proof (cases x)
      case (Inl resp)
      with op Some f show ?thesis by (auto simp: handle_cred_source_def)
    next
      case (Inr v)
      obtain ss mgr slot where v: "v = (ss, mgr, slot)" by (cases v) auto
      obtain y s2 where y: "flip_cred_source sv ss mgr slot want s1 = (y, s2)" by force
      with op Some f Inr v answer_flip [of sv ss mgr slot want s1] show ?thesis
        by (cases y) (auto simp: handle_cred_source_def Let_def answer_cred_json)
    qed
  qed
qed (auto simp: handle_cred_source_def)

lemma mint_refusal [dest!]:
  "mint_credentials what na ma u n rid s = (Inl x, s1) \<Longrightarrow> \<exists>m. x = err_json 500 m"
  by (auto simp: mint_credentials_def split: prod.splits sum.splits)

lemma answer_lifecycle_parts:
  "answer_ok cfg (fst (suspend_slot sv mgr n slot s))"
  "answer_ok cfg (fst (reactivate_slot sv mgr na ma n slot grp s))"
  "answer_ok cfg (fst (rotate_slot sv ss mgr na ma n slot grp s))"
  by (auto simp: suspend_slot_def reactivate_slot_def rotate_slot_def ok_true_def Let_def
      split: prod.split sum.split)

lemma answer_lifecycle [answers]:
  "answer_ok (sv_cfg sv) (fst (handle_manage_suspend sv r s))"
  "answer_ok (sv_cfg sv) (fst (handle_manage_reactivate sv r s))"
  "answer_ok (sv_cfg sv) (fst (handle_manage_rotate sv r s))"
  by (auto simp: handle_manage_suspend_def handle_manage_reactivate_def handle_manage_rotate_def
      answer_lifecycle_parts split: option.split prod.split sum.split)

lemma answer_probes [answers]:
  "answer_ok cfg handle_healthz" "answer_ok cfg (handle_readyz sv b)" "answer_ok cfg (handle_version b)"
  "answer_ok cfg handle_not_found"
  by (simp_all add: handle_healthz_def handle_readyz_def handle_version_def handle_not_found_def)

text \<open>The comparison route answers with the status of the decision alone, without a redirect.\<close>

lemma form_shadow: "form_ok cfg (fst (handle_validate_shadow sv r s))"
  by (auto simp: handle_validate_shadow_def form_ok_def verdict_http_def Let_def split: prod.split)

lemma answer_dispatch:
  "ep \<noteq> EpValidateShadow \<Longrightarrow> answer_ok (sv_cfg (ps_server p)) (fst (dispatch p ep r s))"
  by (cases ep) (simp_all add: answers)

lemma serve_mux_ok:
  "form_ok (sv_cfg (ps_server p)) (fst (serve_mux p segs r s))
   \<and> (redirect_ok (fst (serve_mux p segs r s)) \<or> fst (route (rq_method r) segs) = EpValidateShadow)"
proof -
  obtain ep v where e: "route (rq_method r) segs = (ep, v)" by force
  then have m: "serve_mux p segs r s = dispatch p ep (r\<lparr>rq_slot := v\<rparr>) s" by (simp add: serve_mux_def)
  show ?thesis
  proof (cases "ep = EpValidateShadow")
    case True
    with e show ?thesis unfolding m by (simp add: form_shadow)
  next
    case False
    with answer_dispatch [of ep p "r\<lparr>rq_slot := v\<rparr>" s] show ?thesis unfolding m by (simp add: answer_ok_def)
  qed
qed


end
