(* ===== verification/Secrets_Store.thy ===== *)
theory Secrets_Store
  imports Secrets
begin

text \<open>
  The secrets endpoints as a table. Under the contract that Nomad documents for variables, each
  request is a step of a table from namespaces and paths to values, and what was put is what is got
  for as long as nobody overwrites it.
\<close>

section \<open>The contract of the variables\<close>

type_synonym variable = "gostring \<times> gostring"
type_synonym secret_table = "variable \<rightharpoonup> gostring"

text \<open>\<open>vars w\<close> are the variables in the world \<open>w\<close>. A put that reports an error may have been applied or
  not; a get that reports another error than \<open>ErrVarNotFound\<close> says nothing.\<close>

definition quiet_vars :: "('w \<Rightarrow> secret_table) \<Rightarrow> ('w \<Rightarrow> 'a \<times> 'w) \<Rightarrow> bool" where
  "quiet_vars vars f \<longleftrightarrow> (\<forall>w. vars (snd (f w)) = vars w)"

definition put_contract :: "('w \<Rightarrow> secret_table) \<Rightarrow> 'w nomad_admin \<Rightarrow> bool" where
  "put_contract vars na \<longleftrightarrow>
     (\<forall>n p v w. case na_var_put na n p v w of
        (Inr _, w') \<Rightarrow> vars w' = (vars w)((n, p) \<mapsto> v)
      | (Inl _, w') \<Rightarrow> vars w' = vars w \<or> vars w' = (vars w)((n, p) \<mapsto> v))"

definition get_contract :: "('w \<Rightarrow> secret_table) \<Rightarrow> 'w nomad_admin \<Rightarrow> bool" where
  "get_contract vars na \<longleftrightarrow>
     (\<forall>n p w. case na_var_get na n p w of
        (Inr v, w') \<Rightarrow> vars w' = vars w \<and> vars w (n, p) = Some v
      | (Inl e, w') \<Rightarrow> vars w' = vars w \<and> (e = ErrVarNotFound \<longrightarrow> vars w (n, p) = None))"

definition variable_contract :: "'w server \<Rightarrow> ('w \<Rightarrow> secret_table) \<Rightarrow> bool" where
  "variable_contract sv vars \<longleftrightarrow>
     (\<forall>na. up_nomad_admin (sv_up sv) = Some na \<longrightarrow> put_contract vars na \<and> get_contract vars na)
   \<and> (\<forall>ss. up_store (sv_up sv) = Some ss \<longrightarrow>
        (\<forall>q. quiet_vars vars (ss_find_slot ss q)) \<and> (\<forall>sl. quiet_vars vars (ss_group_name ss sl)))"

section \<open>The specification\<close>

datatype secret_call = CallPut request | CallGet request

datatype intent = PutTo variable gostring | GetFrom variable | Refused

fun serve_secret :: "'w server \<Rightarrow> secret_call \<Rightarrow> 'w st \<Rightarrow> response \<times> 'w st" where
  "serve_secret sv (CallPut r) s = handle_secrets_put sv r s"
| "serve_secret sv (CallGet r) s = handle_secrets_get sv r s"

text \<open>What a request asks for, once the caller is known: the variable of the caller's slot, and the
  value as text.\<close>

definition slot_intent :: "'w server \<Rightarrow> secret_call \<Rightarrow> slot \<Rightarrow> 'w st \<Rightarrow> intent" where
  "slot_intent sv c slot s =
     (let key = (\<lambda>body. trim_space (any_string (any_lookup body ''key'')));
          var = (\<lambda>body g. fst (secrets_namespace_and_path sv slot (key body) g s))
      in case c of
           CallPut r \<Rightarrow>
             (case secrets_body sv r of
                None \<Rightarrow> Refused
              | Some body \<Rightarrow>
                  (case any_lookup body ''value'' of
                     None \<Rightarrow> Refused
                   | Some val \<Rightarrow>
                       if key body = [] then Refused
                       else PutTo (var body (any_string (any_lookup body ''group'')))
                              (stringify (rt_float (sv_rt sv)) val)))
         | CallGet r \<Rightarrow>
             (case secrets_body sv r of
                None \<Rightarrow> Refused
              | Some body \<Rightarrow> if key body = [] then Refused else GetFrom (var body [])))"

definition secret_intent :: "'w server \<Rightarrow> secret_call \<Rightarrow> 'w st \<Rightarrow> intent" where
  "secret_intent sv c s =
     (case secrets_auth_slot sv (case c of CallPut r \<Rightarrow> r | CallGet r \<Rightarrow> r) s of
        (Inl resp, s1) \<Rightarrow> Refused
      | (Inr slot, s1) \<Rightarrow> slot_intent sv c slot s1)"

text \<open>A step of the table: a put that succeeds overwrites, one that fails may have; a get reads; a
  refused request does nothing.\<close>

fun table_step :: "intent \<Rightarrow> secret_table \<Rightarrow> response \<Rightarrow> secret_table \<Rightarrow> bool" where
  "table_step (PutTo k v) t x t' \<longleftrightarrow>
     rs_status x = 200 \<and> t' = t(k \<mapsto> v) \<or> rs_status x = 500 \<and> (t' = t \<or> t' = t(k \<mapsto> v))"
| "table_step (GetFrom k) t x t' \<longleftrightarrow>
     t' = t \<and> (rs_status x = 200 \<and> (\<exists>v. t k = Some v \<and> rs_body x = Json (JObj [(''value'', JStr v)]))
              \<or> rs_status x = 404 \<and> t k = None \<or> rs_status x = 500)"
| "table_step Refused t x t' \<longleftrightarrow> t' = t \<and> rs_status x \<in> {400, 401, 500}"

section \<open>The handlers implement the table\<close>

lemma quiet_io: "io c f s = (x, s1) \<Longrightarrow> quiet_vars vars f \<Longrightarrow> vars (st_world s1) = vars (st_world s)"
  by (metis io_eqD(1) quiet_vars_def snd_conv)

lemma auth_quiet:
  assumes "variable_contract sv vars" and "secrets_auth_slot sv r s = (a, s1)"
  shows "vars (st_world s1) = vars (st_world s)"
  using assms
  by (auto simp: secrets_auth_slot_def variable_contract_def Let_def
      split: option.splits if_splits prod.splits sum.splits dest: quiet_io)

lemma auth_refusal: "secrets_auth_slot sv r s = (Inl x, s1) \<Longrightarrow> rs_status x \<in> {400, 401, 500}"
  by (auto simp: secrets_auth_slot_def Let_def split: option.splits if_splits prod.splits sum.splits)

lemma path_quiet:
  assumes "variable_contract sv vars"
  shows "vars (st_world (snd (secrets_namespace_and_path sv slot key g s))) = vars (st_world s)"
  using assms
  by (auto simp: secrets_namespace_and_path_def variable_contract_def quiet_vars_def io_total_def Let_def
      case_prod_beta split: option.split)

lemma put_contractD:
  assumes "put_contract vars na" and "na_var_put na n p v w = (x, w')"
  shows "if is_ok x then vars w' = (vars w)((n, p) \<mapsto> v)
    else vars w' = vars w \<or> vars w' = (vars w)((n, p) \<mapsto> v)"
proof -
  from assms(1) have "case na_var_put na n p v w of
        (Inr _, w') \<Rightarrow> vars w' = (vars w)((n, p) \<mapsto> v)
      | (Inl _, w') \<Rightarrow> vars w' = vars w \<or> vars w' = (vars w)((n, p) \<mapsto> v)"
    unfolding put_contract_def by meson
  with assms(2) show ?thesis by (cases x) simp_all
qed

lemma get_contractD:
  assumes "get_contract vars na" and "na_var_get na n p w = (x, w')"
  shows "vars w' = vars w \<and> (case x of Inr v \<Rightarrow> vars w (n, p) = Some v
    | Inl e \<Rightarrow> e = ErrVarNotFound \<longrightarrow> vars w (n, p) = None)"
proof -
  from assms(1) have "case na_var_get na n p w of
        (Inr v, w') \<Rightarrow> vars w' = vars w \<and> vars w (n, p) = Some v
      | (Inl e, w') \<Rightarrow> vars w' = vars w \<and> (e = ErrVarNotFound \<longrightarrow> vars w (n, p) = None)"
    unfolding get_contract_def by meson
  with assms(2) show ?thesis by (cases x) simp_all
qed

lemma store_secret_step:
  assumes c: "variable_contract sv vars" and "up_nomad_admin (sv_up sv) = Some na"
  shows "table_step (PutTo (fst (secrets_namespace_and_path sv slot key g s)) v) (vars (st_world s))
    (fst (store_secret sv na slot key g v s)) (vars (st_world (snd (store_secret sv na slot key g v s))))"
proof -
  obtain n p s1 where p: "secrets_namespace_and_path sv slot key g s = ((n, p), s1)"
    by (metis prod.collapse)
  with path_quiet [OF c, of slot key g s] have w: "vars (st_world s1) = vars (st_world s)" by simp
  obtain x s2 where io: "io (VarPut n p v) (na_var_put na n p v) s1 = (x, s2)" by force
  from assms have "put_contract vars na" by (simp add: variable_contract_def)
  from put_contractD [OF this io_eqD(1) [OF io]] w show ?thesis
    by (cases x) (auto simp: store_secret_def p io)
qed

lemma fetch_secret_step:
  assumes c: "variable_contract sv vars" and "up_nomad_admin (sv_up sv) = Some na"
  shows "table_step (GetFrom (fst (secrets_namespace_and_path sv slot key [] s))) (vars (st_world s))
    (fst (fetch_secret sv na slot key s)) (vars (st_world (snd (fetch_secret sv na slot key s))))"
proof -
  obtain n p s1 where p: "secrets_namespace_and_path sv slot key [] s = ((n, p), s1)"
    by (metis prod.collapse)
  with path_quiet [OF c, of slot key "[]" s] have w: "vars (st_world s1) = vars (st_world s)" by simp
  obtain x s2 where io: "io (VarGet n p) (na_var_get na n p) s1 = (x, s2)" by force
  from assms have "get_contract vars na" by (simp add: variable_contract_def)
  from get_contractD [OF this io_eqD(1) [OF io]] w show ?thesis
    by (cases x) (auto simp: fetch_secret_def p io)
qed

lemma slot_step:
  assumes c: "variable_contract sv vars"
    and a: "secrets_auth_slot sv (case q of CallPut r \<Rightarrow> r | CallGet r \<Rightarrow> r) s = (Inr slot, s1)"
    and na: "up_nomad_admin (sv_up sv) \<noteq> None"
  shows "table_step (slot_intent sv q slot s1) (vars (st_world s1))
    (fst (serve_secret sv q s)) (vars (st_world (snd (serve_secret sv q s))))"
proof -
  from na obtain na where na: "up_nomad_admin (sv_up sv) = Some na" by blast
  note steps = store_secret_step [OF c na] fetch_secret_step [OF c na]
  show ?thesis
  proof (cases q)
    case (CallPut r)
    with a na show ?thesis
      using steps(1)
      by (auto simp: slot_intent_def handle_secrets_put_def Let_def simp del: table_step.simps(1)
          split: option.split)
  next
    case (CallGet r)
    with a na show ?thesis
      using steps(2)
      by (auto simp: slot_intent_def handle_secrets_get_def Let_def simp del: table_step.simps(2)
          split: option.split)
  qed
qed

lemma serve_secret_step:
  assumes "variable_contract sv vars" and "up_nomad_admin (sv_up sv) \<noteq> None"
  shows "table_step (secret_intent sv q s) (vars (st_world s))
    (fst (serve_secret sv q s)) (vars (st_world (snd (serve_secret sv q s))))"
proof -
  obtain a s1 where a: "secrets_auth_slot sv (case q of CallPut r \<Rightarrow> r | CallGet r \<Rightarrow> r) s = (a, s1)"
    by force
  note w = auth_quiet [OF assms(1) a]
  show ?thesis
  proof (cases a)
    case (Inl x)
    with a have "serve_secret sv q s = (x, s1)"
      by (cases q) (simp_all add: handle_secrets_put_def handle_secrets_get_def)
    with auth_refusal [OF a [unfolded Inl]] w a Inl show ?thesis
      by (simp add: secret_intent_def)
  next
    case (Inr slot)
    with slot_step [OF assms(1) a [unfolded Inr] assms(2)] a w show ?thesis
      by (simp add: secret_intent_def)
  qed
qed


section \<open>Reading back\<close>

text \<open>The step of a run.\<close>

definition secret_step :: "'w server \<Rightarrow> 'w st \<Rightarrow> secret_call \<Rightarrow> 'w st" where
  "secret_step sv s q = snd (serve_secret sv q s)"

definition spares :: "'w server \<Rightarrow> variable \<Rightarrow> secret_call \<Rightarrow> bool" where
  "spares sv k q \<longleftrightarrow> (\<forall>s v. secret_intent sv q s \<noteq> PutTo k v)"

interpretation secret_run: step_invariant "secret_step sv"
  "\<lambda>s. variable_contract sv vars \<and> up_nomad_admin (sv_up sv) \<noteq> None \<longrightarrow> vars (st_world s) k = x" "spares sv k"
proof
  fix s :: "'a st" and q :: secret_call
  assume s: "variable_contract sv vars \<and> up_nomad_admin (sv_up sv) \<noteq> None \<longrightarrow> vars (st_world s) k = x"
    and q: "spares sv k q"
  show "variable_contract sv vars \<and> up_nomad_admin (sv_up sv) \<noteq> None
      \<longrightarrow> vars (st_world (secret_step sv s q)) k = x"
  proof
    assume c: "variable_contract sv vars \<and> up_nomad_admin (sv_up sv) \<noteq> None"
    with s have "vars (st_world s) k = x" by blast
    with serve_secret_step [of sv vars q s] c q show "vars (st_world (secret_step sv s q)) k = x"
      by (cases "secret_intent sv q s") (auto simp: secret_step_def spares_def)
  qed
qed

section \<open>Properties\<close>

text \<open>\<open>C22\<close>: the secrets endpoints are a table. If Nomad keeps its contract, every put and get is a
  step of a table of variables: a put answered 200 has overwritten exactly the variable of the
  caller's slot, one answered 500 that variable or none; a get answered 200 returns what the table
  holds, one answered 404 found nothing there; a refused request changes nothing.\<close>

theorem secrets_refine_table:
  assumes "variable_contract sv vars" and "up_nomad_admin (sv_up sv) \<noteq> None"
  shows "table_step (secret_intent sv q s) (vars (st_world s))
    (fst (serve_secret sv q s)) (vars (st_world (snd (serve_secret sv q s))))"
  by (rule serve_secret_step [OF assms])

text \<open>What was put is what is got. After a put that was answered 200, any sequence of puts and
  gets by anyone leaves the value in place as long as none of them puts to the same variable; a get
  of it then returns exactly the value, unless Nomad fails it.\<close>

lemma secrets_read_back:
  assumes "variable_contract sv vars" and "up_nomad_admin (sv_up sv) \<noteq> None"
    and "secret_intent sv (CallPut r) s = PutTo k v"
    and "rs_status (fst (handle_secrets_put sv r s)) = 200"
    and "\<forall>q\<in>set qs. spares sv k q"
    and "s' = run_steps (secret_step sv) (snd (handle_secrets_put sv r s)) qs"
    and "secret_intent sv (CallGet r') s' = GetFrom k"
  shows "rs_status (fst (handle_secrets_get sv r' s')) = 500
    \<or> rs_status (fst (handle_secrets_get sv r' s')) = 200
      \<and> rs_body (fst (handle_secrets_get sv r' s')) = Json (JObj [(''value'', JStr v)])"
proof -
  have "vars (st_world (snd (handle_secrets_put sv r s))) k = Some v"
    using serve_secret_step [OF assms(1,2), of "CallPut r" s] assms(3,4) by auto
  then have "vars (st_world s') k = Some v"
    using secret_run.run_inv [where sv = sv and vars = vars and k = k and x = "Some v"
        and s = "snd (handle_secrets_put sv r s)" and es = qs] assms(1,2,5,6) by auto
  then show ?thesis
    using serve_secret_step [OF assms(1,2), of "CallGet r'" s'] assms(7) by auto
qed

section \<open>A server whose variables are a list\<close>

definition listed_admin :: "(variable \<times> gostring) list nomad_admin" where
  "listed_admin = mock_nomad_admin
     \<lparr>na_var_put := \<lambda>n p v w. (Inr (), ((n, p), v) # w),
      na_var_get := \<lambda>n p w. (case map_of w (n, p) of None \<Rightarrow> Inl ErrVarNotFound | Some v \<Rightarrow> Inr v, w)\<rparr>"

definition listed_server :: "(variable \<times> gostring) list server" where
  "listed_server =
     plain_server ((mock_upstreams sample_cluster ''h'')\<lparr>up_nomad_admin := Some listed_admin\<rparr>)"

definition listed_state :: "(variable \<times> gostring) list st" where
  "listed_state = plain_state []"

definition secret_request :: "gostring \<Rightarrow> request" where
  "secret_request t = sample_request
     \<lparr>rq_headers := [(''Authorization'', ''Bearer abco_1'')], rq_body := t\<rparr>"

definition put_pet :: request where
  "put_pet = secret_request (''{\"key\":\"pet\",\"value\":\"cat\"}'')"

definition get_pet :: request where
  "get_pet = secret_request (''{\"key\":\"pet\"}'')"

lemma listed_contract: "variable_contract listed_server map_of"
  by (simp add: variable_contract_def put_contract_def get_contract_def quiet_vars_def listed_server_def plain_server_def
      listed_admin_def mock_upstreams_def mock_store_def split: option.split)

definition pet_variable :: variable where
  "pet_variable = (namespace_for_group ''mbhg-hostgen'', ''abc/users/slot-calm_dassie/pet'')"

lemma listed_caller:
  assumes "rq_headers r = [(''Authorization'', ''Bearer abco_1'')]"
  shows "\<exists>s1. secrets_auth_slot listed_server r s = (Inr mock_slot, s1) \<and> st_world s1 = st_world s"
proof -
  have "bearer_value (rq_header r ''Authorization'') = Some ''abco_1''"
    unfolding rq_header_def assms by code_simp
  moreover have "contains (opaque_filter (sha256_hex listed_server ''abco_1'')) ''opaque_token_hash=''"
    by code_simp
  ultimately show ?thesis
    by (simp add: secrets_auth_slot_def listed_server_def plain_server_def mock_upstreams_def mock_store_def io_def)
qed

lemma pet_bodies:
  "secrets_body listed_server put_pet = Some [(''key'', JStr ''pet''), (''value'', JStr ''cat'')]"
  "secrets_body listed_server get_pet = Some [(''key'', JStr ''pet'')]"
proof -
  have raw: "read_limited body_limit put_pet = ''{\"key\":\"pet\",\"value\":\"cat\"}''"
    "read_limited body_limit get_pet = ''{\"key\":\"pet\"}''"
    by (simp_all add: read_limited_def body_limit_def put_pet_def get_pet_def secret_request_def)
  have un: "json_unmarshal ''{\"key\":\"pet\",\"value\":\"cat\"}''
      = Some (JObj [(''key'', JStr ''pet''), (''value'', JStr ''cat'')])"
    "json_unmarshal ''{\"key\":\"pet\"}'' = Some (JObj [(''key'', JStr ''pet'')])"
    by code_simp+
  show "secrets_body listed_server put_pet = Some [(''key'', JStr ''pet''), (''value'', JStr ''cat'')]"
    "secrets_body listed_server get_pet = Some [(''key'', JStr ''pet'')]"
    by (simp_all add: secrets_body_def raw un struct_members_def)
qed

lemma pet_lookups:
  "trim_space ''pet'' = ''pet''" "trim_space [] = []"
  "any_lookup [(''key'', JStr ''pet''), (''value'', JStr ''cat'')] ''key'' = Some (JStr ''pet'')"
  "any_lookup [(''key'', JStr ''pet''), (''value'', JStr ''cat'')] ''value'' = Some (JStr ''cat'')"
  "any_lookup [(''key'', JStr ''pet''), (''value'', JStr ''cat'')] ''group'' = None"
  "any_lookup [(''key'', JStr ''pet'')] ''key'' = Some (JStr ''pet'')"
  by code_simp+

lemma pet_intents:
  "secret_intent listed_server (CallPut put_pet) s = PutTo pet_variable ''cat''"
  "secret_intent listed_server (CallGet get_pet) s = GetFrom pet_variable"
proof -
  have h: "rq_headers put_pet = [(''Authorization'', ''Bearer abco_1'')]"
    "rq_headers get_pet = [(''Authorization'', ''Bearer abco_1'')]"
    by (simp_all add: put_pet_def get_pet_def secret_request_def)
  have v: "fst (secrets_namespace_and_path listed_server mock_slot ''pet'' [] s1) = pet_variable" for s1
    by (simp add: secrets_namespace_and_path_def pet_lookups io_total_def listed_server_def plain_server_def mock_upstreams_def
        mock_store_def mock_slot_def pet_variable_def secret_path_def)
  obtain s1 where "secrets_auth_slot listed_server put_pet s = (Inr mock_slot, s1)"
    using listed_caller [OF h(1)] by blast
  then show "secret_intent listed_server (CallPut put_pet) s = PutTo pet_variable ''cat''"
    by (simp add: secret_intent_def slot_intent_def pet_bodies pet_lookups v any_string_def stringify_def)
  obtain s2 where "secrets_auth_slot listed_server get_pet s = (Inr mock_slot, s2)"
    using listed_caller [OF h(2)] by blast
  then show "secret_intent listed_server (CallGet get_pet) s = GetFrom pet_variable"
    by (simp add: secret_intent_def slot_intent_def pet_bodies pet_lookups v any_string_def)
qed

lemma pet_answers:
  "rs_status (fst (handle_secrets_put listed_server put_pet s)) = 200"
  "rs_status (fst (handle_secrets_get listed_server get_pet s)) \<noteq> 500"
proof -
  have h: "rq_headers put_pet = [(''Authorization'', ''Bearer abco_1'')]"
    "rq_headers get_pet = [(''Authorization'', ''Bearer abco_1'')]"
    by (simp_all add: put_pet_def get_pet_def secret_request_def)
  obtain s1 s2 where "secrets_auth_slot listed_server put_pet s = (Inr mock_slot, s1)"
    "secrets_auth_slot listed_server get_pet s = (Inr mock_slot, s2)"
    using listed_caller [OF h(1)] listed_caller [OF h(2)] by blast
  moreover have "up_nomad_admin (sv_up listed_server) = Some listed_admin" by (simp add: listed_server_def plain_server_def)
  ultimately show "rs_status (fst (handle_secrets_put listed_server put_pet s)) = 200"
    "rs_status (fst (handle_secrets_get listed_server get_pet s)) \<noteq> 500"
    by (auto simp: handle_secrets_put_def handle_secrets_get_def pet_bodies pet_lookups any_string_def
        store_secret_def fetch_secret_def io_def listed_admin_def Let_def split: prod.split option.split)
qed

lemma secrets_refine_table_witness:
  "table_step (PutTo pet_variable ''cat'') Map.empty
     (fst (handle_secrets_put listed_server put_pet listed_state))
     (map_of (st_world (snd (handle_secrets_put listed_server put_pet listed_state))))"
proof -
  have "up_nomad_admin (sv_up listed_server) \<noteq> None" by (simp add: listed_server_def plain_server_def)
  from secrets_refine_table [OF listed_contract this, of "CallPut put_pet" listed_state]
  show ?thesis by (simp only: pet_intents serve_secret.simps) (simp add: listed_state_def plain_state_def)
qed

lemma secrets_read_back_witness:
  "rs_body (fst (handle_secrets_get listed_server get_pet
      (secret_step listed_server (snd (handle_secrets_put listed_server put_pet listed_state)) (CallGet put_pet))))
     = Json (JObj [(''value'', JStr ''cat'')])"
proof -
  let ?s = "snd (handle_secrets_put listed_server put_pet listed_state)"
  have a: "up_nomad_admin (sv_up listed_server) \<noteq> None" by (simp add: listed_server_def plain_server_def)
  note p = pet_answers(1) [of listed_state]
  have q: "\<forall>q\<in>set [CallGet put_pet]. spares listed_server pet_variable q"
    by (auto simp: spares_def secret_intent_def slot_intent_def Let_def
        split: sum.split prod.split option.split)
  have r: "run_steps (secret_step listed_server) ?s [CallGet put_pet] = secret_step listed_server ?s (CallGet put_pet)"
    by simp
  have "rs_status (fst (handle_secrets_get listed_server get_pet
      (secret_step listed_server ?s (CallGet put_pet)))) \<noteq> 500" by (rule pet_answers(2))
  with secrets_read_back [OF listed_contract a pet_intents(1) p q refl pet_intents(2)]
  show ?thesis by (simp only: r) simp
qed

end
