(* ===== verification/Login_Page.thy ===== *)
theory Login_Page
  imports Login
begin

text \<open>
  The page of \<^verbatim>\<open>/auth/login\<close>: the template of \<^verbatim>\<open>auth.go\<close>, its
  execution by \<^verbatim>\<open>html/template\<close>, and what a browser makes of the two fields. The
  template is written down as it stands; a backquote stands for a single quote, since a Go raw string
  cannot hold a backquote.
\<close>

section \<open>Templates\<close>

datatype tfield = NextField | ErrorField

datatype tnode = Markup gostring | Action tfield | IfError "tnode list"

record login_data =
  ld_next :: gostring
  ld_error :: gostring

definition raw :: "gostring list \<Rightarrow> gostring" where
  "raw ls = map (\<lambda>c. if c = CHR 0x60 then CHR 0x27 else c) (join_with [CHR 0x0A] ls)"

text \<open>\<^verbatim>\<open>html/template\<close> replaces a comment of a style sheet by a space.\<close>

fun css_comment_end :: "gostring \<Rightarrow> gostring" where
  "css_comment_end [] = []"
| "css_comment_end (c # cs) =
     (if c = CHR ''*'' \<and> has_prefix cs ''/'' then tl cs else css_comment_end cs)"

lemma css_comment_end_length: "length (css_comment_end s) \<le> length s"
  by (induction s) auto

function css_text :: "gostring \<Rightarrow> gostring" where
  "css_text [] = []"
| "css_text (c # cs) =
     (if c = CHR ''/'' \<and> has_prefix cs ''*'' then CHR '' '' # css_text (css_comment_end (tl cs))
      else c # css_text cs)"
  by pat_completeness auto
termination
proof (relation "measure length", goal_cases)
  case (2 c cs)
  have "length (css_comment_end (tl cs)) \<le> length (tl cs)" by (rule css_comment_end_length)
  then show ?case by simp
qed simp_all

text \<open>The escaper of text and of quoted attributes, one and the same for these two contexts.\<close>

definition html_escape_char :: "char \<Rightarrow> gostring" where
  "html_escape_char c =
     (if c = CHR 0x00 then [CHR 0xEF, CHR 0xBF, CHR 0xBD]
      else if c = CHR 0x22 then ''&#34;''
      else if c = CHR ''&'' then ''&amp;''
      else if c = CHR 0x27 then ''&#39;''
      else if c = CHR ''+'' then ''&#43;''
      else if c = CHR ''<'' then ''&lt;''
      else if c = CHR ''>'' then ''&gt;''
      else [c])"

definition html_escape :: "gostring \<Rightarrow> gostring" where
  "html_escape s = concat (map html_escape_char s)"

fun field_value :: "login_data \<Rightarrow> tfield \<Rightarrow> gostring" where
  "field_value d NextField = ld_next d"
| "field_value d ErrorField = ld_error d"

fun render_node :: "login_data \<Rightarrow> tnode \<Rightarrow> gostring" where
  "render_node d (Markup t) = t"
| "render_node d (Action f) = html_escape (field_value d f)"
| "render_node d (IfError ns) =
     (if ld_error d = [] then [] else concat (map (render_node d) ns))"

definition render :: "login_data \<Rightarrow> tnode list \<Rightarrow> gostring" where
  "render d ns = concat (map (render_node d) ns)"

section \<open>The page\<close>

definition login_head :: gostring where
  "login_head =
     raw
     [''<!doctype html>'',
      ''<html data-theme=\"dark\" data-system=\"grid\" lang=\"en\">'',
      ''<head>'',
      ''<meta charset=\"utf-8\">'',
      ''<meta name=\"viewport\" content=\"width=device-width, initial-scale=1\">'',
      ''<title>abc-cluster &middot; workbench &middot; sign in</title>'',
      ''<link rel=\"preconnect\" href=\"https://fonts.googleapis.com\">'',
      ''<link rel=\"preconnect\" href=\"https://fonts.gstatic.com\" crossorigin>'',
      ''<link href=\"https://fonts.googleapis.com/css2?family=IBM+Plex+Sans:ital,wght@0,400;0,500;0,600;1,400&family=JetBrains+Mono:wght@400;500;600;700&display=swap\" rel=\"stylesheet\">'',
      '''']"

definition login_style_page :: gostring where
  "login_style_page =
     raw
     [''<style>'',
      '':root[data-system=\"grid\"][data-theme=\"dark\"]{'',
      ''  --bg:#070f0c;--bg-1:#0b1a15;--bg-2:#0f2219;'',
      ''  --text:#c5e5dc;--text-dim:#7db8a8;--text-mute:#4a7d6f;'',
      ''  --ink:#e8f9f4;--ink-dim:#c8a84c;--ink-faint:rgba(200,168,76,.15);'',
      ''  --accent:#c8a84c;--rule:#163d32;--rule-soft:#0e2a22;'',
      ''  --sel:rgba(200,168,76,.22);--danger:#e05a4e;--danger-bg:rgba(224,90,78,.08);'',
      ''  --font-sans:`IBM Plex Sans`,system-ui,sans-serif;'',
      ''  --font-mono:`JetBrains Mono`,ui-monospace,Menlo,Consolas,monospace;'',
      ''}'',
      '':root[data-system=\"grid\"][data-theme=\"light\"]{'',
      ''  --bg:#f0faf7;--bg-1:#e5f5f0;--bg-2:#d8ede7;'',
      ''  --text:#1a4a3a;--text-dim:#2d7060;--text-mute:#6aaa96;'',
      ''  --ink:#0a2820;--ink-dim:#907028;--ink-faint:rgba(144,112,40,.15);'',
      ''  --accent:#907028;--rule:#a8d8cc;--rule-soft:#c8e8e0;'',
      ''  --sel:rgba(144,112,40,.22);--danger:#c0392b;--danger-bg:rgba(192,57,43,.08);'',
      ''  --font-sans:`IBM Plex Sans`,system-ui,sans-serif;'',
      ''  --font-mono:`JetBrains Mono`,ui-monospace,Menlo,Consolas,monospace;'',
      ''}'',
      ''*,*::before,*::after{box-sizing:border-box;}'',
      ''html{font-size:14px;}'',
      ''body{'',
      ''  margin:0;min-height:100vh;display:flex;flex-direction:column;'',
      ''  background:var(--bg);color:var(--text);font-family:var(--font-sans);'',
      ''  -webkit-font-smoothing:antialiased;'',
      ''}'',
      ''::selection{background:var(--sel);color:var(--ink);}'',
      '''',
      ''/* topbar */'',
      ''.topbar{border-bottom:1px solid var(--rule);position:relative;z-index:5;}'',
      ''.topbar-inner{max-width:1180px;margin:0 auto;padding:14px 32px;'',
      ''  display:flex;align-items:center;gap:12px;}'',
      ''.brand{display:flex;align-items:center;gap:10px;color:var(--ink);'',
      ''  text-decoration:none;border:none;}'',
      ''.brand-mark{width:22px;height:22px;}'',
      ''.brand-name{font-family:var(--font-mono);font-size:13px;'',
      ''  letter-spacing:-.01em;font-weight:600;}'',
      ''.brand-name .dim{color:var(--text-dim);}'',
      ''.brand-name .tier{color:var(--text-mute);}'',
      ''.top-spacer{flex:1;}'',
      ''.tier-tag{'',
      ''  display:inline-flex;align-items:center;gap:8px;'',
      ''  font-family:var(--font-mono);font-size:11px;'',
      ''  letter-spacing:.16em;text-transform:uppercase;color:var(--text-mute);'',
      ''}'',
      ''.tier-dot{'',
      ''  width:6px;height:6px;border-radius:50%;background:var(--ink);'',
      ''  display:inline-block;animation:wb-pulse 2.4s ease-in-out infinite;'',
      ''}'',
      ''.theme-btn{'',
      ''  appearance:none;cursor:pointer;width:38px;height:38px;'',
      ''  display:inline-flex;align-items:center;justify-content:center;'',
      ''  border:1px solid var(--rule);background:var(--bg-1);color:var(--ink);'',
      ''  position:relative;transition:border-color .12s,background .12s;'',
      ''}'',
      ''.theme-btn:hover{border-color:var(--ink-dim);background:var(--bg-2);}'',
      ''.theme-btn svg{'',
      ''  width:18px;height:18px;position:absolute;inset:0;margin:auto;'',
      ''  transition:opacity 200ms ease,transform 280ms ease;'',
      ''}'',
      '':root[data-theme=\"dark\"] .ti-sun{opacity:0;transform:scale(.6) rotate(-30deg);}'',
      '':root[data-theme=\"dark\"] .ti-moon{opacity:1;transform:scale(1) rotate(0);}'',
      '':root[data-theme=\"light\"] .ti-sun{opacity:1;transform:scale(1) rotate(0);}'',
      '':root[data-theme=\"light\"] .ti-moon{opacity:0;transform:scale(.6) rotate(30deg);}'',
      '''',
      ''/* main */'',
      ''main{'',
      ''  flex:1;position:relative;z-index:5;'',
      ''  display:flex;align-items:center;justify-content:center;'',
      ''  padding:56px 24px;'',
      ''}'',
      ''.backdrop{'',
      ''  position:absolute;inset:0;pointer-events:none;'',
      ''  background-image:radial-gradient(var(--ink) 1px,transparent 1px);'',
      ''  background-size:24px 24px;opacity:.045;'',
      ''  -webkit-mask-image:radial-gradient(ellipse 70% 65% at 70% 38%,#000 30%,transparent 78%);'',
      ''  mask-image:radial-gradient(ellipse 70% 65% at 70% 38%,#000 30%,transparent 78%);'',
      ''}'',
      ''.frame{position:relative;width:100%;max-width:980px;}'',
      ''.brackets{'',
      ''  position:absolute;inset:-12px;pointer-events:none;opacity:.6;'',
      ''  background:'',
      ''    linear-gradient(var(--rule),var(--rule)) top left/18px 1px no-repeat,'',
      ''    linear-gradient(var(--rule),var(--rule)) top left/1px 18px no-repeat,'',
      ''    linear-gradient(var(--rule),var(--rule)) top right/18px 1px no-repeat,'',
      ''    linear-gradient(var(--rule),var(--rule)) top right/1px 18px no-repeat,'',
      ''    linear-gradient(var(--rule),var(--rule)) bottom left/18px 1px no-repeat,'',
      ''    linear-gradient(var(--rule),var(--rule)) bottom left/1px 18px no-repeat,'',
      ''    linear-gradient(var(--rule),var(--rule)) bottom right/18px 1px no-repeat,'',
      ''    linear-gradient(var(--rule),var(--rule)) bottom right/1px 18px no-repeat;'',
      ''}'',
      ''.panels{'',
      ''  display:grid;grid-template-columns:minmax(0,1fr) 440px;'',
      ''  border:1px solid var(--rule);'',
      ''  background:color-mix(in srgb,var(--bg-1) 70%,transparent);'',
      ''  backdrop-filter:blur(2px);'',
      ''}'',
      ''@media(max-width:700px){'',
      ''  .panels{grid-template-columns:1fr;}'',
      ''  .ctx-panel{border-right:none;border-bottom:1px solid var(--rule);}'',
      ''}'',
      '''',
      '''']"

definition login_style_panel :: gostring where
  "login_style_panel =
     raw
     [''/* context panel */'',
      ''.ctx-panel{'',
      ''  padding:40px 36px;border-right:1px solid var(--rule);'',
      ''  display:flex;flex-direction:column;gap:28px;'',
      ''}'',
      ''.badge-row{'',
      ''  display:inline-flex;align-items:center;gap:9px;'',
      ''  font-family:var(--font-mono);font-size:11px;'',
      ''  letter-spacing:.22em;text-transform:uppercase;color:var(--ink);'',
      ''  margin-bottom:16px;'',
      ''}'',
      ''.badge{'',
      ''  border:1px solid var(--rule);padding:3px 8px;'',
      ''  color:var(--accent);letter-spacing:.18em;font-size:10px;'',
      ''}'',
      ''.ctx-h1{'',
      ''  font-family:var(--font-mono);'',
      ''  font-size:clamp(22px,3vw,30px);line-height:1.08;'',
      ''  letter-spacing:-.02em;font-weight:600;color:var(--ink);'',
      ''  margin:0 0 14px;'',
      ''}'',
      ''.ctx-desc{'',
      ''  font-size:14.5px;line-height:1.65;color:var(--text-dim);'',
      ''  max-width:42ch;margin:0;'',
      ''}'',
      '''',
      ''/* facts */'',
      ''.facts{'',
      ''  margin:0;border-top:1px solid var(--rule-soft);'',
      ''  border-left:1px solid var(--rule-soft);display:grid;'',
      ''}'',
      ''.fact-row{'',
      ''  display:grid;grid-template-columns:116px minmax(0,1fr);'',
      ''  border-right:1px solid var(--rule-soft);border-bottom:1px solid var(--rule-soft);'',
      ''}'',
      ''.fact-key{'',
      ''  padding:13px 12px;'',
      ''  font-family:var(--font-mono);font-size:10px;'',
      ''  letter-spacing:.14em;text-transform:uppercase;'',
      ''  color:var(--text-mute);border-right:1px solid var(--rule-soft);'',
      ''}'',
      ''.fact-key.warn{color:var(--accent);}'',
      ''.fact-val{'',
      ''  margin:0;padding:13px 14px;'',
      ''  font-family:var(--font-mono);font-size:12px;color:var(--text);'',
      ''}'',
      ''.fact-val .dim{color:var(--ink-dim);}'',
      ''.fact-val .warn{color:var(--accent);font-weight:600;}'',
      ''.fact-val .mute{color:var(--text-dim);}'',
      '''',
      ''/* editor hint */'',
      ''.editor-hint{margin-top:auto;}'',
      ''.hint-label{'',
      ''  font-family:var(--font-mono);font-size:10px;letter-spacing:.16em;'',
      ''  text-transform:uppercase;color:var(--text-mute);margin-bottom:9px;'',
      ''}'',
      ''.cmd-row{'',
      ''  display:flex;align-items:center;justify-content:space-between;gap:12px;'',
      ''  border:1px solid var(--rule);background:var(--bg);'',
      ''  padding:11px 12px 11px 14px;'',
      ''}'',
      ''.cmd-text{font-family:var(--font-mono);font-size:12.5px;color:var(--text);}'',
      ''.cmd-text .prompt{color:var(--ink-dim);}'',
      ''.copy-btn{'',
      ''  appearance:none;background:transparent;border:1px solid var(--rule);'',
      ''  color:var(--text-dim);cursor:pointer;'',
      ''  font-family:var(--font-mono);font-size:10px;'',
      ''  padding:4px 10px;letter-spacing:.14em;text-transform:uppercase;'',
      ''  transition:color 120ms,border-color 120ms;'',
      ''}'',
      ''.copy-btn:hover{color:var(--ink);border-color:var(--ink-dim);}'',
      '''',
      '''']"

definition login_style_form :: gostring where
  "login_style_form =
     raw
     [''/* auth card */'',
      ''.auth-card{display:flex;flex-direction:column;background:var(--bg-1);}'',
      ''.card-header{'',
      ''  display:flex;align-items:center;justify-content:space-between;gap:12px;'',
      ''  padding:14px 24px;border-bottom:1px solid var(--rule);background:var(--bg-2);'',
      ''}'',
      ''.card-svc{'',
      ''  font-family:var(--font-mono);font-size:11px;'',
      ''  letter-spacing:.16em;text-transform:uppercase;color:var(--text-dim);'',
      ''}'',
      ''.card-svc .path{'',
      ''  color:var(--ink);text-transform:none;'',
      ''  letter-spacing:0;margin-left:8px;'',
      ''}'',
      ''.tls-badge{'',
      ''  display:inline-flex;align-items:center;gap:7px;'',
      ''  font-family:var(--font-mono);font-size:10px;'',
      ''  letter-spacing:.12em;text-transform:uppercase;color:var(--text-mute);'',
      ''}'',
      ''.tls-dot{'',
      ''  width:6px;height:6px;border-radius:50%;background:var(--ink);'',
      ''  box-shadow:0 0 0 3px color-mix(in srgb,var(--ink) 20%,transparent);'',
      ''}'',
      '''',
      ''/* form */'',
      ''.auth-form{padding:26px 24px 24px;display:flex;flex-direction:column;gap:18px;}'',
      '''',
      ''.error-banner{'',
      ''  display:grid;grid-template-columns:auto minmax(0,1fr);gap:11px;'',
      ''  align-items:start;border:1px solid var(--danger);'',
      ''  background:var(--danger-bg);padding:12px 14px;'',
      ''}'',
      ''.error-text{font-size:13px;line-height:1.55;color:var(--text);}'',
      ''.error-text b{color:var(--danger);font-weight:600;}'',
      '''',
      ''.field{display:flex;flex-direction:column;gap:5px;}'',
      ''.field-top{'',
      ''  display:flex;align-items:baseline;justify-content:space-between;gap:10px;'',
      ''  font-size:12.5px;font-weight:500;color:var(--text-dim);'',
      ''}'',
      ''.field-top label{cursor:pointer;}'',
      ''.req{color:var(--accent);margin-left:2px;}'',
      ''.example-btn{'',
      ''  appearance:none;background:transparent;border:none;'',
      ''  color:var(--ink-dim);cursor:pointer;'',
      ''  font-family:var(--font-mono);font-size:10px;'',
      ''  letter-spacing:.1em;text-transform:uppercase;'',
      ''  border-bottom:1px dotted var(--ink-faint);padding:0 0 1px;'',
      ''}'',
      ''.example-btn:hover{color:var(--accent);border-bottom-color:var(--accent);}'',
      ''.field input{'',
      ''  width:100%;background:var(--bg);border:1px solid var(--rule);'',
      ''  color:var(--text);font-family:var(--font-mono);font-size:14px;'',
      ''  line-height:1.5;letter-spacing:-.01em;'',
      ''  padding:11px 14px;border-radius:0;appearance:none;-webkit-appearance:none;'',
      ''}'',
      ''.field input:hover{border-color:var(--ink-dim);}'',
      ''.field input:focus{outline:none;border-color:var(--accent);background:var(--bg-2);}'',
      ''.field.err input{border-color:var(--danger);}'',
      ''.key-wrap{position:relative;display:flex;}'',
      ''.key-wrap input{padding-right:64px;}'',
      ''.show-btn{'',
      ''  position:absolute;right:1px;top:1px;bottom:1px;width:58px;'',
      ''  appearance:none;background:transparent;border:none;'',
      ''  border-left:1px solid var(--rule);color:var(--text-mute);cursor:pointer;'',
      ''  font-family:var(--font-mono);font-size:10px;'',
      ''  letter-spacing:.12em;text-transform:uppercase;'',
      ''  transition:color 120ms;'',
      ''}'',
      ''.show-btn:hover{color:var(--ink);}'',
      ''.fhint{font-size:11.5px;color:var(--text-mute);line-height:1.4;}'',
      '''',
      ''.submit-btn{'',
      ''  display:flex;align-items:center;justify-content:center;gap:8px;'',
      ''  width:100%;margin-top:4px;padding:13px 20px;'',
      ''  background:var(--accent);color:#1a1208;border:none;'',
      ''  font-family:var(--font-mono);font-size:13px;font-weight:600;'',
      ''  letter-spacing:-.01em;cursor:pointer;transition:filter 120ms;'',
      ''}'',
      ''.submit-btn:hover{filter:brightness(1.08);}'',
      ''.submit-btn:disabled{opacity:.75;cursor:not-allowed;filter:none;}'',
      ''.spin{'',
      ''  width:14px;height:14px;'',
      ''  border:2px solid color-mix(in srgb,#1a1208 35%,transparent);'',
      ''  border-top-color:#1a1208;border-radius:50%;'',
      ''  display:inline-block;animation:wb-spin .7s linear infinite;'',
      ''}'',
      '''',
      ''.form-footer{'',
      ''  margin:4px 0 0;font-size:12px;line-height:1.55;color:var(--text-mute);'',
      ''  border-top:1px solid var(--rule-soft);padding-top:14px;'',
      ''}'',
      '''',
      ''@keyframes wb-spin{to{transform:rotate(360deg);}}'',
      ''@keyframes wb-pulse{0%,100%{opacity:1;}50%{opacity:.35;}}'',
      ''</style>'',
      '''']"

definition login_header :: gostring where
  "login_header =
     raw
     [''</head>'',
      ''<body>'',
      '''',
      ''<div class=\"backdrop\" aria-hidden=\"true\"></div>'',
      '''',
      ''<header class=\"topbar\">'',
      ''  <div class=\"topbar-inner\">'',
      ''    <a class=\"brand\" href=\"#\" aria-label=\"abc-cluster workbench\">'',
      ''      <svg class=\"brand-mark\" viewBox=\"0 0 100 100\" aria-hidden=\"true\">'',
      ''        <line x1=\"20\" y1=\"50\" x2=\"80\" y2=\"50\" stroke=\"currentColor\" stroke-width=\"3\" stroke-linecap=\"round\"/>'',
      ''        <circle cx=\"20\" cy=\"50\" r=\"9\" fill=\"var(--bg)\" stroke=\"currentColor\" stroke-width=\"3\"/>'',
      ''        <circle cx=\"50\" cy=\"50\" r=\"9\" fill=\"var(--bg)\" stroke=\"currentColor\" stroke-width=\"3\"/>'',
      ''        <circle cx=\"80\" cy=\"50\" r=\"9\" fill=\"var(--bg)\" stroke=\"currentColor\" stroke-width=\"3\"/>'',
      ''      </svg>'',
      ''      <span class=\"brand-name\">abc<span class=\"dim\">-cluster</span><span class=\"tier\"> &middot; workbench</span></span>'',
      ''    </a>'',
      ''    <div class=\"top-spacer\"></div>'',
      ''    <span class=\"tier-tag\"><span class=\"tier-dot\" aria-hidden=\"true\"></span>seedling</span>'',
      ''    <button class=\"theme-btn\" type=\"button\" id=\"theme-btn\" aria-label=\"Toggle theme\">'',
      ''      <svg class=\"ti-sun\" viewBox=\"0 0 24 24\" fill=\"none\" stroke=\"currentColor\" stroke-width=\"1.6\" aria-hidden=\"true\">'',
      ''        <circle cx=\"12\" cy=\"12\" r=\"4\"/>'',
      ''        <line x1=\"12\" y1=\"2\" x2=\"12\" y2=\"4\" stroke-linecap=\"round\"/>'',
      ''        <line x1=\"12\" y1=\"20\" x2=\"12\" y2=\"22\" stroke-linecap=\"round\"/>'',
      ''        <line x1=\"2\" y1=\"12\" x2=\"4\" y2=\"12\" stroke-linecap=\"round\"/>'',
      ''        <line x1=\"20\" y1=\"12\" x2=\"22\" y2=\"12\" stroke-linecap=\"round\"/>'',
      ''        <line x1=\"4.6\" y1=\"4.6\" x2=\"6\" y2=\"6\" stroke-linecap=\"round\"/>'',
      ''        <line x1=\"18\" y1=\"18\" x2=\"19.4\" y2=\"19.4\" stroke-linecap=\"round\"/>'',
      ''        <line x1=\"4.6\" y1=\"19.4\" x2=\"6\" y2=\"18\" stroke-linecap=\"round\"/>'',
      ''        <line x1=\"18\" y1=\"6\" x2=\"19.4\" y2=\"4.6\" stroke-linecap=\"round\"/>'',
      ''      </svg>'',
      ''      <svg class=\"ti-moon\" viewBox=\"0 0 24 24\" fill=\"none\" stroke=\"currentColor\" stroke-width=\"1.6\" stroke-linejoin=\"round\" aria-hidden=\"true\">'',
      ''        <path d=\"M19.6 17.8a8.4 8.4 0 1 1-9.4-12.6 7 7 0 0 0 9.4 12.6Z\"/>'',
      ''      </svg>'',
      ''    </button>'',
      ''  </div>'',
      ''</header>'',
      '''',
      '''']"

definition login_panel :: gostring where
  "login_panel =
     raw
     [''<main>'',
      ''  <div class=\"frame\">'',
      ''    <div class=\"brackets\" aria-hidden=\"true\"></div>'',
      ''    <div class=\"panels\">'',
      '''',
      ''      <section class=\"ctx-panel\">'',
      ''        <div>'',
      ''          <div class=\"badge-row\"><span class=\"badge\">cockpit</span>workbench.seedling</div>'',
      ''          <h1 class=\"ctx-h1\">Sign in to your<br>workbench.</h1>'',
      ''          <p class=\"ctx-desc\">The browser cockpit for the seedling tier. Authenticate with your pool slot credentials, start your JupyterLab server, and drive cluster jobs from notebooks and a terminal.</p>'',
      ''        </div>'',
      '''',
      ''        <dl class=\"facts\">'',
      ''          <div class=\"fact-row\">'',
      ''            <dt class=\"fact-key\">Session</dt>'',
      ''            <dd class=\"fact-val\">16 GB &middot; 8 CPU &middot; 512 tasks</dd>'',
      ''          </div>'',
      ''          <div class=\"fact-row\">'',
      ''            <dt class=\"fact-key\">Storage</dt>'',
      ''            <dd class=\"fact-val\">/data/workbench/&lt;slot&gt;/home <span class=\"dim\">&middot; persistent</span></dd>'',
      ''          </div>'',
      ''          <div class=\"fact-row\">'',
      ''            <dt class=\"fact-key warn\">Lifetime</dt>'',
      ''            <dd class=\"fact-val\"><span class=\"mute\">Data purged after </span><span class=\"warn\">14 days</span><span class=\"mute\"> &mdash; avoid sensitive data.</span></dd>'',
      ''          </div>'',
      ''        </dl>'',
      '''',
      ''        <div class=\"editor-hint\">'',
      ''          <div class=\"hint-label\">Prefer your editor?</div>'',
      ''          <div class=\"cmd-row\">'',
      ''            <span class=\"cmd-text\"><span class=\"prompt\">$ </span>abc workbench connect</span>'',
      ''            <button type=\"button\" class=\"copy-btn\" id=\"copy-btn\">Copy</button>'',
      ''          </div>'',
      ''        </div>'',
      ''      </section>'',
      '''',
      '''']"

definition login_banner_open :: gostring where
  "login_banner_open =
     raw
     ['''',
      ''          <div role=\"alert\" class=\"error-banner\">'',
      ''            <svg viewBox=\"0 0 24 24\" width=\"17\" height=\"17\" fill=\"none\" aria-hidden=\"true\" style=\"margin-top:1px;flex-shrink:0;\">'',
      ''              <circle cx=\"12\" cy=\"12\" r=\"9\" stroke=\"var(--danger)\" stroke-width=\"1.6\"/>'',
      ''              <line x1=\"12\" y1=\"7.5\" x2=\"12\" y2=\"13\" stroke=\"var(--danger)\" stroke-width=\"1.7\" stroke-linecap=\"round\"/>'',
      ''              <circle cx=\"12\" cy=\"16.4\" r=\"1.05\" fill=\"var(--danger)\"/>'',
      ''            </svg>'',
      ''            <div class=\"error-text\"><b>'']"

definition login_banner_close :: gostring where
  "login_banner_close =
     raw
     [''</b></div>'',
      ''          </div>'',
      ''          '']"

definition login_card :: gostring where
  "login_card =
     raw
     [''      <section class=\"auth-card\">'',
      ''        <div class=\"card-header\">'',
      ''          <span class=\"card-svc\">abc-auth-svc<span class=\"path\">/auth/login</span></span>'',
      ''          <span class=\"tls-badge\"><span class=\"tls-dot\" aria-hidden=\"true\"></span>tls</span>'',
      ''        </div>'',
      '''',
      ''        <form class=\"auth-form\" method=\"POST\" action=\"/auth/login\" id=\"login-form\">'',
      ''          '']"

definition login_slot_field :: gostring where
  "login_slot_field =
     raw
     [''\">'',
      ''            <div class=\"field-top\">'',
      ''              <label for=\"wb-slot\">Pool slot<span class=\"req\">*</span></label>'',
      ''              <button type=\"button\" class=\"example-btn\" id=\"example-btn\">use example</button>'',
      ''            </div>'',
      ''            <input id=\"wb-slot\" name=\"username\" type=\"text\"'',
      ''              autocomplete=\"username\" spellcheck=\"false\"'',
      ''              placeholder=\"slot-calm_dassie\" autofocus>'',
      ''            <span class=\"fhint\">Pseudonymous slot claimed via the landing page.</span>'',
      ''          </div>'',
      '''',
      ''          <div class=\"field'']"

definition login_key_field :: gostring where
  "login_key_field =
     raw
     [''\">'',
      ''            <div class=\"field-top\">'',
      ''              <label for=\"wb-key\">MinIO access key<span class=\"req\">*</span></label>'',
      ''            </div>'',
      ''            <div class=\"key-wrap\">'',
      ''              <input id=\"wb-key\" name=\"password\" type=\"password\"'',
      ''                autocomplete=\"current-password\" placeholder=\"&bull;&bull;&bull;&bull;&bull;&bull;&bull;&bull;&bull;&bull;&bull;&bull;&bull;&bull;&bull;&bull;\">'',
      ''              <button type=\"button\" class=\"show-btn\" id=\"show-btn\">Show</button>'',
      ''            </div>'',
      ''            <span class=\"fhint\">Provisioned with your slot &mdash; not a password you chose.</span>'',
      ''          </div>'',
      '''',
      ''          <input type=\"hidden\" name=\"next\" value=\"'']"

definition login_submit :: gostring where
  "login_submit =
     raw
     [''\">'',
      '''',
      ''          <button type=\"submit\" class=\"submit-btn\" id=\"submit-btn\">'',
      ''            <span id=\"submit-label\">Start session</span>'',
      ''            <span id=\"submit-arrow\">&rarr;</span>'',
      ''          </button>'',
      '''',
      ''          <p class=\"form-footer\">'',
      ''            Access is provisioned through your pool claim &mdash; no sign-up or password reset here. Trouble signing in? Contact your administrator.'',
      ''          </p>'',
      ''        </form>'',
      ''      </section>'',
      '''',
      ''    </div>'',
      ''  </div>'',
      ''</main>'',
      '''',
      '''']"

definition login_script :: gostring where
  "login_script =
     raw
     [''<script>'',
      ''(function(){'',
      ''  var html=document.documentElement;'',
      '''',
      ''  document.getElementById(`theme-btn`).addEventListener(`click`,function(){'',
      ''    html.dataset.theme=html.dataset.theme===`dark`?`light`:`dark`;'',
      ''  });'',
      '''',
      ''  document.getElementById(`show-btn`).addEventListener(`click`,function(){'',
      ''    var inp=document.getElementById(`wb-key`);'',
      ''    var hide=inp.type===`password`;'',
      ''    inp.type=hide?`text`:`password`;'',
      ''    this.textContent=hide?`Hide`:`Show`;'',
      ''  });'',
      '''',
      ''  document.getElementById(`example-btn`).addEventListener(`click`,function(){'',
      ''    document.getElementById(`wb-slot`).value=`slot-calm_dassie`;'',
      ''    document.getElementById(`wb-slot`).focus();'',
      ''  });'',
      '''',
      ''  document.getElementById(`copy-btn`).addEventListener(`click`,function(){'',
      ''    var btn=this;'',
      ''    try{navigator.clipboard.writeText(`abc workbench connect`);}catch(e){}'',
      ''    btn.textContent=`Copied`;'',
      ''    btn.style.color=`var(--accent)`;'',
      ''    btn.style.borderColor=`var(--accent)`;'',
      ''    setTimeout(function(){'',
      ''      btn.textContent=`Copy`;'',
      ''      btn.style.color=``;'',
      ''      btn.style.borderColor=``;'',
      ''    },1600);'',
      ''  });'',
      '''',
      ''  document.getElementById(`login-form`).addEventListener(`submit`,function(){'',
      ''    var btn=document.getElementById(`submit-btn`);'',
      ''    var lbl=document.getElementById(`submit-label`);'',
      ''    var arr=document.getElementById(`submit-arrow`);'',
      ''    btn.disabled=true;'',
      ''    var spin=document.createElement(`span`);'',
      ''    spin.className=`spin`;'',
      ''    btn.insertBefore(spin,lbl);'',
      ''    lbl.textContent=`Authenticating'' @ [CHR 0xE2, CHR 0x80, CHR 0xA6] @ ''`;'',
      ''    if(arr)arr.style.display=`none`;'',
      ''  });'',
      ''})();'',
      ''</script>'',
      ''</body>'',
      ''</html>'',
      '''']"

definition login_template :: "tnode list" where
  "login_template =
     [Markup login_head, Markup (css_text login_style_page), Markup (css_text login_style_panel),
      Markup (css_text login_style_form), Markup login_header, Markup login_panel, Markup login_card,
      IfError [Markup login_banner_open, Action ErrorField, Markup login_banner_close],
      Markup (raw ['''', '''', ''          <div class=\"field'']), IfError [Markup '' err''],
      Markup login_slot_field, IfError [Markup '' err''],
      Markup login_key_field, Action NextField, Markup login_submit, Markup login_script]"

text \<open>The bytes the client gets for \<open>LoginPage\<close>.\<close>

definition login_html :: "gostring \<Rightarrow> gostring \<Rightarrow> gostring" where
  "login_html nxt err = render \<lparr>ld_next = nxt, ld_error = err\<rparr> login_template"

section \<open>The fields cannot leave their places\<close>

text \<open>The characters that delimit tags and attribute values.\<close>

definition markup :: "char \<Rightarrow> bool" where
  "markup c \<longleftrightarrow> c \<in> {CHR ''<'', CHR ''>'', CHR 0x22, CHR 0x27}"

lemma escape_char_inert: "filter markup (html_escape_char c) = []"
  by (simp add: html_escape_char_def markup_def)

lemma escape_inert [simp]: "filter markup (html_escape s) = []"
  by (induction s) (simp_all add: html_escape_def escape_char_inert)

text \<open>The tags of a template are its own: of the data only whether there is an error counts.\<close>

lemma render_node_markup:
  "(ld_error d = [] \<longleftrightarrow> ld_error d' = []) \<Longrightarrow>
     filter markup (render_node d x) = filter markup (render_node d' x)"
proof (induction x)
  case (IfError ns)
  then have "filter markup (concat (map (render_node d) ns)) = filter markup (concat (map (render_node d') ns))"
    by (induction ns) auto
  with IfError.prems show ?case by simp
qed simp_all

lemma render_markup:
  "(ld_error d = [] \<longleftrightarrow> ld_error d' = []) \<Longrightarrow> filter markup (render d ns) = filter markup (render d' ns)"
  by (induction ns) (simp_all add: render_def render_node_markup [of d d'])

section \<open>What the browser reads back\<close>

text \<open>The character references of the escaper, as a browser resolves them in an attribute value.\<close>

definition references :: "(gostring \<times> char) list" where
  "references =
     [(''#34;'', CHR 0x22), (''amp;'', CHR ''&''), (''#39;'', CHR 0x27), (''#43;'', CHR ''+''),
      (''lt;'', CHR ''<''), (''gt;'', CHR ''>'')]"

function html_unescape :: "gostring \<Rightarrow> gostring" where
  "html_unescape [] = []"
| "html_unescape (c # cs) =
     (case (if c = CHR ''&'' then find (\<lambda>(n, x). has_prefix cs n) references else None) of
        None \<Rightarrow> c # html_unescape cs
      | Some (n, x) \<Rightarrow> x # html_unescape (drop (length n) cs))"
  by pat_completeness auto
termination by (relation "measure length") simp_all

lemma unescape_char:
  "CHR 0x00 \<noteq> c \<Longrightarrow> html_unescape (html_escape_char c @ t) = c # html_unescape t"
  by (simp add: html_escape_char_def references_def has_prefix_def)

lemma unescape_escape: "CHR 0x00 \<notin> set s \<Longrightarrow> html_unescape (html_escape s) = s"
  by (induction s) (simp_all add: html_escape_def unescape_char)

lemma login_html_field:
  "\<exists>a b. login_html nxt err = a @ ''name=\"next\" value=\"'' @ html_escape nxt @ ''\">'' @ b"
proof -
  have "\<exists>a. login_key_field = a @ ''name=\"next\" value=\"''"
  proof -
    have "has_suffix login_key_field ''name=\"next\" value=\"''" by code_simp
    then show ?thesis unfolding has_suffix_def by (metis append_take_drop_id)
  qed
  then obtain a where a: "login_key_field = a @ ''name=\"next\" value=\"''" ..
  have "has_prefix login_submit ''\">''" by code_simp
  then obtain b where b: "login_submit = ''\">'' @ b" unfolding has_prefix_def by (metis append_take_drop_id)
  let ?d = "\<lparr>ld_next = nxt, ld_error = err\<rparr>"
  have "login_html nxt err = render ?d (take 12 login_template) @ login_key_field @ html_escape nxt
      @ login_submit @ login_script"
    by (simp add: login_html_def render_def login_template_def)
  with a b show ?thesis by (metis append.assoc)
qed

section \<open>Properties\<close>

text \<open>The form posts the fields the handler reads, to the route it is registered at.\<close>

fun attr_values :: "gostring \<Rightarrow> gostring \<Rightarrow> gostring list" where
  "attr_values p [] = []"
| "attr_values p (c # cs) =
     (if c = CHR '' '' then
        (if has_prefix cs p
         then takeWhile (\<lambda>x. x \<noteq> CHR 0x22) (drop (length p) cs) # attr_values p cs
         else attr_values p cs)
      else attr_values p cs)"

lemma login_form_fields:
  "attr_values ''name=\"'' login_slot_field = [''username'']"
  "attr_values ''name=\"'' login_key_field = [''password'', ''next'']"
  "attr_values ''method=\"'' login_card = [''POST'']"
  "attr_values ''action=\"'' login_card = [''/auth/login'']"
  by code_simp+



end
