(* ===== verification/Wire.thy ===== *)
theory Wire
  imports Answers Secrets_Store Login_Page
begin

text \<open>
  Answers as bytes: what the handlers return, as the encoders of \<^verbatim>\<open>health.go\<close> and
  \<^verbatim>\<open>diag.go\<close> and the page template write it, and what a client that decodes it gets.
\<close>

section \<open>The bytes of an answer\<close>

text \<open>\<^verbatim>\<open>Encode\<close> ends every value with a line feed.\<close>

fun body_bytes :: "body \<Rightarrow> gostring" where
  "body_bytes NoBody = []"
| "body_bytes (Text t) = t"
| "body_bytes (Json v) = json_encode v @ [chr_of 10]"
| "body_bytes (JsonIndented v) = json_indent v @ [chr_of 10]"
| "body_bytes (LoginPage n e) = login_html n e"

text \<open>What a client gets that decodes the body.\<close>

definition client_reads :: "response \<Rightarrow> json option" where
  "client_reads x = json_unmarshal (body_bytes (rs_body x))"

lemma max_depth_small [simp]: "n \<le> 10000 \<Longrightarrow> n \<le> max_depth"
  by (simp add: max_depth_def)

lemma body_ok_reads:
  assumes "body_ok ct b"
  shows "case b of
     Json v \<Rightarrow> json_unmarshal (body_bytes b) = Some (json_valid v)
   | JsonIndented v \<Rightarrow> json_unmarshal (body_bytes b) = Some (json_valid v)
   | _ \<Rightarrow> True"
  using assms by (cases b) (auto intro: compact.line_reads indented.line_reads)

text \<open>\<open>C11\<close>: clients read what the handlers answer. On every route, for every request, state and
  behaviour of the upstreams, the bytes of a JSON answer, compact or indented, are exactly one JSON
  text, and decoding it gives the value the handler answered, with invalid UTF-8 in its strings
  replaced; no content of a slot, a secret or an error text breaks the quoting.\<close>

theorem answers_read_back:
  "case rs_body (fst (serve_mux p segs r s)) of
     Json v \<Rightarrow> client_reads (fst (serve_mux p segs r s)) = Some (json_valid v)
   | JsonIndented v \<Rightarrow> client_reads (fst (serve_mux p segs r s)) = Some (json_valid v)
   | _ \<Rightarrow> True"
proof -
  have "form_ok (sv_cfg (ps_server p)) (fst (serve_mux p segs r s))" using serve_mux_ok by blast
  then show ?thesis
    using body_ok_reads by (fastforce simp: form_ok_def client_reads_def split: body.splits)
qed

section \<open>A secret on its way\<close>

lemma stringify_valid:
  assumes "float_sound fl" and "any_in_range fl val" and "json_depth val \<le> max_depth" and "json_valid val = val"
  shows "to_valid (stringify fl val) = stringify fl val"
    and "case val of
        JStr x \<Rightarrow> stringify fl val = x
      | JNull \<Rightarrow> stringify fl val = []
      | _ \<Rightarrow> json_unmarshal (stringify fl val) = Some (json_valid (any_canon fl val))"
proof -
  have f: "json_fits max_depth (any_canon fl val)" by (rule any_canon_fits [OF assms(1-3)])
  have c: "json_unmarshal (json_encode (any_canon fl val)) = Some (json_valid (any_canon fl val))"
    using compact.text_reads [OF f] by simp
  have e: "stringify fl val = json_encode (any_canon fl val)" if "val \<notin> range JStr" "val \<noteq> JNull"
    using that by (auto simp: stringify_def split: json.split)
  show "case val of
        JStr x \<Rightarrow> stringify fl val = x
      | JNull \<Rightarrow> stringify fl val = []
      | _ \<Rightarrow> json_unmarshal (stringify fl val) = Some (json_valid (any_canon fl val))"
    using c e by (cases val) (simp_all only: json.case, auto simp: stringify_def)
  show "to_valid (stringify fl val) = stringify fl val"
    using assms(4) json_encode_valid [of "any_canon fl val"] f
    by (auto simp: stringify_def json_fits_iff split: json.splits)
qed

lemma map_fixed: "map f xs = xs \<Longrightarrow> x \<in> set xs \<Longrightarrow> f x = x"
  by (induction xs) auto

lemma secrets_body_value:
  assumes "secrets_body sv r = Some body" and "any_lookup body k = Some val"
  shows "any_in_range (rt_float (sv_rt sv)) val \<and> json_depth val \<le> max_depth \<and> json_valid val = val"
proof -
  obtain v where v: "json_unmarshal (read_limited body_limit r) = Some v"
    "any_in_range (rt_float (sv_rt sv)) v" "struct_members v = Some body"
    using assms by (cases "read_limited body_limit r = []") (auto simp: secrets_body_def any_lookup_def Let_def split: if_splits option.splits)
  have m: "(k, val) \<in> set body" using assms(2) by (auto simp: any_lookup_def dest: map_of_SomeD)
  with v(3) have obj: "v = JObj body" by (auto simp: struct_members_def split: json.splits)
  have "json_depth v \<le> max_depth" by (rule unmarshal_depth [OF v(1)])
  then have "json_depth val \<le> max_depth" using m obj depth_member(2) [OF m] by simp
  moreover have "map (\<lambda>(k, v). (to_valid k, json_valid v)) body = body"
    using unmarshal_valid [OF v(1)] obj by simp
  then have "json_valid val = val" using map_fixed [OF _ m] by fastforce
  moreover have "any_in_range (rt_float (sv_rt sv)) val" using v(2) obj m by auto
  ultimately show ?thesis by simp
qed

lemma put_intent_text:
  assumes "secret_intent sv (CallPut r) s = PutTo k v" and "secrets_body sv r = Some body"
    and "any_lookup body ''value'' = Some val"
  shows "v = stringify (rt_float (sv_rt sv)) val"
  using assms by (auto simp: secret_intent_def slot_intent_def Let_def split: sum.splits prod.splits if_splits)

text \<open>\<open>C23\<close>: a secret arrives as it was sent. After a put of the value \<open>val\<close> that was answered 200, and
  any puts and gets by anyone that spare the variable, the bytes of a get decode to an object with one
  string: a text is that text, byte for byte, \<^verbatim>\<open>null\<close> is the empty string, and any other JSON
  value is a text that decodes to the value as \<^verbatim>\<open>any\<close> holds it (keys sorted, the last
  duplicate kept, numbers as Go prints them). Only Nomad failing the read gives a 500 instead.\<close>

theorem secret_over_wire:
  assumes "variable_contract sv vars" and "up_nomad_admin (sv_up sv) \<noteq> None"
    and "float_sound (rt_float (sv_rt sv))"
    and "secrets_body sv r = Some body" and "any_lookup body ''value'' = Some val"
    and "secret_intent sv (CallPut r) s = PutTo k v"
    and "rs_status (fst (handle_secrets_put sv r s)) = 200"
    and "\<forall>q\<in>set qs. spares sv k q"
    and "s' = run_steps (secret_step sv) (snd (handle_secrets_put sv r s)) qs"
    and "secret_intent sv (CallGet r') s' = GetFrom k"
  shows "rs_status (fst (handle_secrets_get sv r' s')) = 500
    \<or> (\<exists>t. client_reads (fst (handle_secrets_get sv r' s')) = Some (JObj [(''value'', JStr t)])
        \<and> (case val of
             JStr x \<Rightarrow> t = x
           | JNull \<Rightarrow> t = []
           | _ \<Rightarrow> json_unmarshal t = Some (json_valid (any_canon (rt_float (sv_rt sv)) val))))"
proof (cases "rs_status (fst (handle_secrets_get sv r' s')) = 500")
  case False
  then have b: "rs_body (fst (handle_secrets_get sv r' s')) = Json (JObj [(''value'', JStr v)])"
    using secrets_read_back [OF assms(1,2,6-10)] by blast
  note val = secrets_body_value [OF assms(4,5)]
  have v: "v = stringify (rt_float (sv_rt sv)) val" by (rule put_intent_text [OF assms(6,4,5)])
  note valid = stringify_valid [OF assms(3), of val]
  have "client_reads (fst (handle_secrets_get sv r' s')) = Some (json_valid (JObj [(''value'', JStr v)]))"
    unfolding client_reads_def b body_bytes.simps by (rule compact.line_reads [of 1]) simp_all
  also have "json_valid (JObj [(''value'', JStr v)]) = JObj [(''value'', JStr v)]"
    using valid(1) val v by (simp add: byte_def)
  finally show ?thesis
    using valid(2) val unfolding v by (intro disjI2 exI conjI) (assumption, blast)
qed simp

theorem secret_over_wire_witness:
  "client_reads (fst (handle_secrets_get listed_server get_pet
      (secret_step listed_server (snd (handle_secrets_put listed_server put_pet listed_state)) (CallGet put_pet))))
     = Some (JObj [(''value'', JStr ''cat'')])"
proof -
  let ?s = "snd (handle_secrets_put listed_server put_pet listed_state)"
  have a: "up_nomad_admin (sv_up listed_server) \<noteq> None" by (simp add: listed_server_def plain_server_def)
  have f: "float_sound (rt_float (sv_rt listed_server))"
    by (simp add: float_sound_def listed_server_def plain_server_def plain_runtime_def)
  have q: "\<forall>q\<in>set [CallGet put_pet]. spares listed_server pet_variable q"
    by (auto simp: spares_def secret_intent_def slot_intent_def Let_def
        split: sum.split prod.split option.split)
  have r: "run_steps (secret_step listed_server) ?s [CallGet put_pet] = secret_step listed_server ?s (CallGet put_pet)"
    by simp
  have "rs_status (fst (handle_secrets_get listed_server get_pet
      (secret_step listed_server ?s (CallGet put_pet)))) \<noteq> 500" by (rule pet_answers(2))
  with secret_over_wire [OF listed_contract a f pet_bodies(1) pet_lookups(4) pet_intents(1) [of listed_state] pet_answers(1) q refl
      pet_intents(2)]
  show ?thesis by (auto simp only: r json.case)
qed

end
