(* ===== verification/Config_Sources.thy ===== *)
theory Config_Sources
  imports Config
begin

text \<open>
  Where each setting comes from: the command line, the environment, the default. The flags are given
  as the assignments of a command line \<^verbatim>\<open>--name=value ...\<close>, which \<open>parse_flags\<close> reads back.
\<close>

section \<open>Command lines\<close>

definition command_line :: "(gostring \<times> gostring) list \<Rightarrow> gostring list" where
  "command_line asg = map (\<lambda>(n, v). ''--'' @ n @ ''='' @ v) asg"

fun known_flag :: "gostring \<times> gostring \<Rightarrow> bool" where
  "known_flag (n, v) \<longleftrightarrow> n \<in> set string_flags \<or> n \<in> set bool_flags \<and> parse_bool v \<noteq> None"

lemma split_flag_name:
  assumes "CHR ''='' \<notin> set n" and "n \<noteq> []"
  shows "split_flag (n @ ''='' @ v) = (n, Some v)"
proof -
  obtain c cs where n: "n = c # cs" using assms(2) by (cases n) auto
  with assms(1) have "\<forall>x\<in>set cs. x \<noteq> CHR ''=''" by auto
  from takeWhile_append_stop [of cs "\<lambda>x. x \<noteq> CHR ''=''" "CHR ''=''" v, OF this]
    dropWhile_append_stop [of cs "\<lambda>x. x \<noteq> CHR ''=''" "CHR ''=''" v, OF this] n
  show ?thesis by (simp add: split_flag_def)
qed

lemma flag_names:
  "n \<in> set string_flags \<union> set bool_flags \<Longrightarrow>
     n \<noteq> [] \<and> CHR ''='' \<notin> set n \<and> \<not> has_prefix n ''-'' \<and> \<not> has_prefix n ''=''"
  by (auto simp: string_flags_def bool_flags_def)

lemma flag_kinds: "n \<in> set string_flags \<Longrightarrow> n \<notin> set bool_flags"
  by (auto simp: string_flags_def bool_flags_def)

lemma parse_command_line: "list_all known_flag asg \<Longrightarrow> parse_flags (command_line asg) = Inr asg"
proof (induction asg)
  case (Cons a asg)
  obtain n v where a: "a = (n, v)" by force
  with Cons.prems have k: "known_flag (n, v)" and ih: "parse_flags (command_line asg) = Inr asg"
    using Cons.IH by simp_all
  then have n: "n \<noteq> []" "CHR ''='' \<notin> set n" "\<not> has_prefix n ''-''" "\<not> has_prefix n ''=''"
    using flag_names [of n] by auto
  have p: "\<not> has_prefix (n @ ''='' @ v) ''-''" "\<not> has_prefix (n @ ''='' @ v) ''=''"
    using n(1,3,4) by (cases n; simp)+
  have b: "flag_body (''--'' @ n @ ''='' @ v) = n @ ''='' @ v" by (simp add: flag_body_def)
  have d: "has_prefix (''--'' @ n @ ''='' @ v) ''-''" by simp
  show ?case
    unfolding a command_line_def list.map prod.case
    using k flag_kinds [of n] n(1) p ih d
    by (subst parse_flags.simps)
      (auto simp: b split_flag_name [OF n(2,1)] command_line_def Let_def simp del: append_Cons append_assoc)
qed (simp add: command_line_def)

section \<open>Flag, environment, default\<close>

definition source ::
  "(gostring \<times> gostring) list \<Rightarrow> gostring \<Rightarrow> (gostring \<Rightarrow> gostring) \<Rightarrow> gostring \<Rightarrow> gostring \<Rightarrow> gostring" where
  "source asg flag env k d =
     (case map_of (rev asg) flag of Some v \<Rightarrow> v | None \<Rightarrow> getenv_or env k d)"

definition bad_level :: "gostring \<Rightarrow> bool" where
  "bad_level t \<longleftrightarrow> t \<noteq> [] \<and> parse_level t = None"

lemma level_source:
  assumes "\<not> bad_level (trim_space (env k))" and "env_level env = Inr lvl" and "k = ''ABC_AUTH_LOG_LEVEL''"
  shows "parse_level (level_string lvl) = parse_level (getenv_or env k ''info'')"
proof -
  have "parse_level ''info'' = Some L1" by code_simp
  then show ?thesis using assms
    by (auto simp: env_level_def getenv_or_def bad_level_def Let_def parse_level_def [of "trim_space _"]
        L1_def L2_def L3_def split: option.splits if_splits)
qed

definition load_error :: "gostring list \<Rightarrow> (gostring \<Rightarrow> gostring) \<Rightarrow> config_error \<Rightarrow> bool" where
  "load_error args env e \<longleftrightarrow>
     (let l = trim_space (env ''ABC_AUTH_LOG_LEVEL'') in
      if bad_level l then e = InvalidLevel l
      else (case parse_flags args of
          Inl e' \<Rightarrow> e = e'
        | Inr asg \<Rightarrow>
            (\<exists>t. map_of (rev asg) ''log-level'' = Some t \<and> parse_level t = None \<and> e = InvalidLevel t)))"

definition from_sources ::
  "(gostring \<times> gostring) list \<Rightarrow> (gostring \<Rightarrow> gostring) \<Rightarrow> go_config \<Rightarrow> bool" where
  "from_sources asg env c \<longleftrightarrow>
     gc_listen c = source asg ''listen'' env ''ABC_AUTH_LISTEN'' ''127.0.0.1:4182''
   \<and> gc_nomad_addr c = source asg ''nomad-addr'' env ''NOMAD_ADDR'' ''http://127.0.0.1:4646''
   \<and> cf_jupyterhub_api_url c =
       source asg ''jupyterhub-api-url'' env ''JUPYTERHUB_API_URL'' ''http://127.0.0.1:15001/hub/api''
   \<and> gc_hub_public_url c =
       source asg ''hub-public-url'' env ''HUB_PUBLIC_URL'' ''https://workbench.seedling.abc-cluster.cloud''
   \<and> parse_level (source asg ''log-level'' env ''ABC_AUTH_LOG_LEVEL'' ''info'') = Some (cf_log_level c)
   \<and> cf_mock_upstreams c = flag_bool asg ''mock-upstreams'' (is_truthy (env ''ABC_AUTH_MOCK_UPSTREAMS''))
   \<and> gc_show_version c = flag_bool asg ''version'' False"

lemma apply_flags_sources:
  assumes "env_level env = Inr lvl"
  shows "case apply_flags (env_config env lvl) asg of
     Inl e \<Rightarrow> (\<exists>t. map_of (rev asg) ''log-level'' = Some t \<and> parse_level t = None \<and> e = InvalidLevel t)
   | Inr c \<Rightarrow> from_sources asg env c"
proof -
  let ?d = "level_string lvl" and ?f = "flag_string asg ''log-level''"
  have l: "parse_level (?f ?d) = parse_level (source asg ''log-level'' env ''ABC_AUTH_LOG_LEVEL'' ''info'')"
    using level_source [OF _ assms refl] assms
    by (auto simp: flag_string_def source_def env_level_def bad_level_def Let_def
        split: option.splits if_splits)
  have "parse_level ?d \<noteq> None" by simp
  then show ?thesis
    using l by (auto simp: apply_flags_def env_config_def from_sources_def source_def flag_string_def Let_def
        split: option.split) (metis option.distinct(1))
qed

lemma config_sources_loaded:
  assumes "load_config args env = Inr c"
  shows "\<exists>asg. parse_flags args = Inr asg \<and> from_sources asg env c"
proof (cases rule: load_config_cases [of args env])
  case (loaded lvl asg c')
  with assms apply_flags_sources [OF loaded(1), of asg] show ?thesis by auto
qed (use assms in simp)

lemma timeouts_loaded:
  assumes "load_config args env = Inr c"
  shows "gc_read_timeout c = 10 * second \<and> gc_write_timeout c = 15 * second
    \<and> gc_idle_timeout c = 60 * second"
proof (cases rule: load_config_cases [of args env])
  case (loaded lvl asg c')
  with assms show ?thesis
    by (auto simp: apply_flags_def env_config_def Let_def split: option.splits)
qed (use assms in simp)


end
