(* ===== verification/Service_Run.thy ===== *)
theory Service_Run
  imports Server
begin

text \<open>
  \<^verbatim>\<open>Run\<close> of \<^verbatim>\<open>server.go\<close> and the end of \<^verbatim>\<open>main.go\<close>: the goroutine that
  listens, the channel its error goes through, the signal, and the shutdown, as a step relation. The
  listener and \<^verbatim>\<open>Shutdown\<close> are \<^verbatim>\<open>net/http\<close>; which of them fails, and when, is
  open, and so is the choice of \<^verbatim>\<open>select\<close> when both its cases are ready.
\<close>

section \<open>States\<close>

datatype listener = Listening | ListenFailed | ListenClosed

datatype main_phase = Waiting | Draining | Returned "gostring option"

record run_state =
  rn_announced :: bool
  rn_listener :: listener
  rn_channel :: "gostring option"
  rn_cancelled :: bool
  rn_main :: main_phase
  rn_log :: "gostring list"

definition run_start :: run_state where
  "run_start =
     \<lparr>rn_announced = False, rn_listener = Listening, rn_channel = None, rn_cancelled = False,
      rn_main = Waiting, rn_log = []\<rparr>"

section \<open>Steps\<close>

inductive run_step :: "run_state \<Rightarrow> run_state \<Rightarrow> bool" where
  announce: "\<not> rn_announced s \<Longrightarrow>
    run_step s (s\<lparr>rn_announced := True, rn_log := rn_log s @ [''server.listening'']\<rparr>)"
| listen_error: "rn_announced s \<Longrightarrow> rn_listener s = Listening \<Longrightarrow>
    run_step s (s\<lparr>rn_listener := ListenFailed, rn_channel := Some e\<rparr>)"
| signal: "run_step s (s\<lparr>rn_cancelled := True\<rparr>)"
| take_error: "rn_main s = Waiting \<Longrightarrow> rn_channel s = Some e \<Longrightarrow>
    run_step s (s\<lparr>rn_channel := None, rn_main := Returned (Some e)\<rparr>)"
| take_signal: "rn_main s = Waiting \<Longrightarrow> rn_cancelled s \<Longrightarrow>
    run_step s (s\<lparr>rn_main := Draining, rn_log := rn_log s @ [''server.shutting_down'']\<rparr>)"
| shut_down: "rn_main s = Draining \<Longrightarrow>
    run_step s (s\<lparr>rn_main := Returned r,
      rn_listener := (if rn_listener s = Listening then ListenClosed else rn_listener s)\<rparr>)"

inductive_cases run_stepE: "run_step s s'"

text \<open>The exit code of the process once \<^verbatim>\<open>Run\<close> has returned.\<close>

fun exit_code :: "main_phase \<Rightarrow> nat option" where
  "exit_code (Returned None) = Some 0"
| "exit_code (Returned (Some e)) = Some 1"
| "exit_code _ = None"

section \<open>What holds on every path\<close>

definition run_safe :: "run_state \<Rightarrow> bool" where
  "run_safe s \<longleftrightarrow>
     (rn_listener s = ListenFailed \<longrightarrow> rn_announced s)
   \<and> (rn_channel s \<noteq> None \<longrightarrow> rn_listener s = ListenFailed)
   \<and> count_list (rn_log s) ''server.listening'' = (if rn_announced s then 1 else 0)
   \<and> count_list (rn_log s) ''server.shutting_down'' \<le> 1
   \<and> (case rn_main s of
        Waiting \<Rightarrow> ''server.shutting_down'' \<notin> set (rn_log s)
          \<and> (rn_listener s = ListenFailed \<longleftrightarrow> rn_channel s \<noteq> None) \<and> rn_listener s \<noteq> ListenClosed
      | Draining \<Rightarrow> rn_cancelled s \<and> ''server.shutting_down'' \<in> set (rn_log s)
      | Returned r \<Rightarrow>
          (if ''server.shutting_down'' \<in> set (rn_log s)
           then rn_cancelled s else r \<noteq> None \<and> rn_listener s = ListenFailed))"

lemma run_safe_start: "run_safe run_start"
  by (simp add: run_safe_def run_start_def)

lemma run_safe_step: "run_step s s' \<Longrightarrow> run_safe s \<Longrightarrow> run_safe s'"
  by (erule run_stepE) (auto simp: run_safe_def count_list_0_iff split: main_phase.splits if_splits)

lemma run_safe_reachable: "run_step\<^sup>*\<^sup>* run_start s \<Longrightarrow> run_safe s"
  by (induction rule: rtranclp_induct) (auto intro: run_safe_start run_safe_step)

lemma exit_clean:
  assumes "run_safe s" "exit_code (rn_main s) = Some 0"
  shows "rn_cancelled s \<and> ''server.shutting_down'' \<in> set (rn_log s)"
proof -
  from assms(2) have "rn_main s = Returned None" by (cases "rn_main s" rule: exit_code.cases) simp_all
  with assms(1) show ?thesis by (simp add: run_safe_def split: if_splits)
qed

lemma exit_unannounced:
  assumes "run_safe s" "exit_code (rn_main s) \<noteq> None" "''server.shutting_down'' \<notin> set (rn_log s)"
  shows "exit_code (rn_main s) = Some 1 \<and> rn_listener s = ListenFailed"
proof -
  from assms(2) obtain r where "rn_main s = Returned r"
    by (cases "rn_main s" rule: exit_code.cases) simp_all
  with assms(1,3) show ?thesis by (cases r) (simp_all add: run_safe_def)
qed

text \<open>While \<^verbatim>\<open>Run\<close> has not returned, it can: nothing it waits for is ever lost.\<close>

lemma run_can_return:
  assumes "rn_main s = Waiting \<Longrightarrow> rn_channel s \<noteq> None \<or> rn_cancelled s"
  shows "\<exists>s' r. run_step\<^sup>*\<^sup>* s s' \<and> rn_main s' = Returned r"
proof -
  have d: "\<exists>s' r. run_step\<^sup>*\<^sup>* t s' \<and> rn_main s' = Returned r" if "rn_main t = Draining" for t
    using shut_down [OF that, of None] by (intro exI conjI, rule r_into_rtranclp) simp_all
  show ?thesis
  proof (cases "rn_main s")
    case Waiting
    with assms consider e where "rn_channel s = Some e" | "rn_cancelled s" by auto
    then show ?thesis
    proof cases
      case 1
      from take_error [OF Waiting 1] show ?thesis
        by (intro exI conjI, rule r_into_rtranclp) simp_all
    next
      case 2
      note st = take_signal [OF Waiting 2]
      from d [of "s\<lparr>rn_main := Draining, rn_log := rn_log s @ [''server.shutting_down'']\<rparr>"] st
      show ?thesis by (auto intro: converse_rtranclp_into_rtranclp)
    qed
  next
    case Draining
    then show ?thesis by (rule d)
  next
    case (Returned r)
    then show ?thesis by blast
  qed
qed

text \<open>\<open>C40\<close>: how the service ends. On every path, whatever the order in which the listener fails,
  signals come and \<^verbatim>\<open>select\<close> chooses: the process leaves with code 0 only after a signal and a
  clean shutdown; it leaves without announcing a shutdown only because the listener failed, and then
  with code 1; it announces listening and shutting down at most once each; and a failed listener or
  a signal always leaves a way to return.\<close>

theorem run_ends:
  assumes "run_step\<^sup>*\<^sup>* run_start s"
  shows "(exit_code (rn_main s) = Some 0 \<longrightarrow> rn_cancelled s \<and> ''server.shutting_down'' \<in> set (rn_log s))
     \<and> (exit_code (rn_main s) \<noteq> None \<and> ''server.shutting_down'' \<notin> set (rn_log s)
          \<longrightarrow> exit_code (rn_main s) = Some 1 \<and> rn_listener s = ListenFailed)
     \<and> count_list (rn_log s) ''server.listening'' \<le> 1 \<and> count_list (rn_log s) ''server.shutting_down'' \<le> 1
     \<and> (rn_listener s = ListenFailed \<or> rn_cancelled s
          \<longrightarrow> (\<exists>s' r. run_step\<^sup>*\<^sup>* s s' \<and> rn_main s' = Returned r))"
proof (intro conjI impI)
  from assms have safe: "run_safe s" by (rule run_safe_reachable)
  show "rn_cancelled s" "''server.shutting_down'' \<in> set (rn_log s)" if "exit_code (rn_main s) = Some 0"
    using exit_clean [OF safe that] by auto
  show "exit_code (rn_main s) = Some 1" "rn_listener s = ListenFailed"
    if "exit_code (rn_main s) \<noteq> None \<and> ''server.shutting_down'' \<notin> set (rn_log s)"
    using exit_unannounced [OF safe] that by auto
  show "count_list (rn_log s) ''server.listening'' \<le> 1" "count_list (rn_log s) ''server.shutting_down'' \<le> 1"
    using safe by (auto simp: run_safe_def)
  show "\<exists>s' r. run_step\<^sup>*\<^sup>* s s' \<and> rn_main s' = Returned r" if "rn_listener s = ListenFailed \<or> rn_cancelled s"
    using safe that by (intro run_can_return) (auto simp: run_safe_def)
qed

text \<open>A port that is taken: the process announces that it listens and leaves with code 1.\<close>

definition port_taken :: run_state where
  "port_taken =
     \<lparr>rn_announced = True, rn_listener = ListenFailed, rn_channel = None, rn_cancelled = False,
      rn_main = Returned (Some ''in use''), rn_log = [''server.listening'']\<rparr>"

lemma port_taken_reachable: "run_step\<^sup>*\<^sup>* run_start port_taken"
proof -
  let ?a = "run_start\<lparr>rn_announced := True, rn_log := [''server.listening'']\<rparr>"
  let ?b = "?a\<lparr>rn_listener := ListenFailed, rn_channel := Some ''in use''\<rparr>"
  have "run_step run_start ?a" using announce [of run_start] by (simp add: run_start_def)
  moreover have "run_step ?a ?b" using listen_error [of ?a "''in use''"] by (simp add: run_start_def)
  moreover have "run_step ?b port_taken"
    using take_error [of ?b "''in use''"] by (simp add: run_start_def port_taken_def)
  ultimately show ?thesis by (blast intro: rtranclp.rtrancl_into_rtrancl rtranclp.rtrancl_refl)
qed

lemma run_ends_witness:
  "exit_code (rn_main port_taken) = Some 1 \<and> rn_listener port_taken = ListenFailed
   \<and> (\<exists>s' r. run_step\<^sup>*\<^sup>* port_taken s' \<and> rn_main s' = Returned r)"
proof -
  note e = run_ends [OF port_taken_reachable]
  have "exit_code (rn_main port_taken) \<noteq> None" "''server.shutting_down'' \<notin> set (rn_log port_taken)"
    by (simp_all add: port_taken_def)
  with e show ?thesis by blast
qed

end
