(* ===== verification/Startup.thy ===== *)
theory Startup
  imports Config_Sources Service_Run Call_Trace
begin

text \<open>
  From the command line to the listener: what \<^verbatim>\<open>main.go\<close> builds out of a configuration
  that loads, the HTTP server of \<^verbatim>\<open>NewServer\<close> with its address, handler and timeouts, and
  what a request meets there. What lies outside the process is collected in a record.
\<close>

section \<open>The server\<close>

record 'w http_server =
  hs_addr :: gostring
  hs_handler :: "gostring list \<Rightarrow> 'w handler"
  hs_read_timeout :: int
  hs_write_timeout :: int
  hs_idle_timeout :: int

definition http_server :: "go_config \<Rightarrow> 'w process \<Rightarrow> 'w http_server" where
  "http_server cfg p =
     \<lparr>hs_addr = gc_listen cfg, hs_handler = serve p, hs_read_timeout = gc_read_timeout cfg,
      hs_write_timeout = gc_write_timeout cfg, hs_idle_timeout = gc_idle_timeout cfg\<rparr>"

section \<open>The process\<close>

record 'w outside =
  ou_transports :: "'w transports"
  ou_runtime :: "'w pb_world runtime"
  ou_shadow :: "gostring \<Rightarrow> gostring \<Rightarrow> gostring \<Rightarrow> ('w pb_world, nat \<times> gostring) call"
  ou_host :: "'w pb_world host"
  ou_body_size :: "body \<Rightarrow> int"
  ou_world :: 'w

definition main_process :: "build_info \<Rightarrow> 'w outside \<Rightarrow> go_config \<Rightarrow> 'w pb_world process" where
  "main_process b ou cfg =
     \<lparr>ps_server = new_server cfg (build_upstreams (ou_transports ou) cfg) (ou_runtime ou) (ou_shadow ou),
      ps_host = ou_host ou, ps_build = b, ps_body_size = ou_body_size ou\<rparr>"

definition main_serve ::
  "build_info \<Rightarrow> 'w outside \<Rightarrow> go_config \<Rightarrow> 'w pb_world http_server \<times> 'w pb_world st" where
  "main_serve b ou cfg =
     (http_server cfg (main_process b ou cfg), initial_state cfg (new_pb_world (ou_world ou)))"

section \<open>Through the chain\<close>

lemma within_bind_attrs: "within C UNIV s s1 \<Longrightarrow> within C UNIV s (bind_attrs as s s1)"
  by (auto simp: within_def bind_attrs_def)

lemma clock_keeps: "clock sv s = (t, s1) \<Longrightarrow> st_codes s1 = st_codes s \<and> st_level s1 = st_level s"
  by (auto simp: clock_def io_total_def split: prod.splits)

lemma request_id_of_keeps:
  "request_id_of sv r s = (rid, s1) \<Longrightarrow>
     st_codes s1 = st_codes s \<and> st_level s1 = st_level s \<and> within {ReadRandom 12} UNIV s s1"
  by (auto simp: request_id_of_def new_request_id_def io_def within_def Let_def
      split: if_splits prod.splits sum.splits)

lemma serve_unchanged:
  assumes "\<And>t. serve_mux p segs r t \<in> {(x, t), (y, t)}"
  shows "\<exists>z\<in>{x, y}. rs_status (fst (serve p segs r s)) = rs_status z
      \<and> rs_body (fst (serve p segs r s)) = rs_body z"
    and "within {ReadClock, ReadRandom 12} UNIV s (snd (serve p segs r s))"
    and "st_codes (snd (serve p segs r s)) = st_codes s"
    and "st_level (snd (serve p segs r s)) = st_level s"
proof -
  obtain rid s0 t0 s1 z s2 t1 s3 as where rid: "request_id_of (ps_server p) r s = (rid, s0)"
    and t: "clock (ps_server p) s0 = (t0, s1)" "clock (ps_server p) s2 = (t1, s3)"
    and m: "serve_mux p segs r s1 = (z, s2)"
    and e: "serve p segs r s =
      (under_header ''X-Abc-Auth-API-Version'' api_version (under_header ''X-Request-Id'' rid z),
       bind_attrs [AStr ''rid'' rid] s0 (log_at L1 ''http.access'' as s3))"
    by (rule serve_unfold)
  have z: "z \<in> {x, y}" "s2 = s1" using assms [of s1] m by auto
  show "\<exists>z\<in>{x, y}. rs_status (fst (serve p segs r s)) = rs_status z
      \<and> rs_body (fst (serve p segs r s)) = rs_body z"
    using z(1) by (intro bexI [of _ z]) (simp_all add: e)
  have "within {ReadClock, ReadRandom 12} UNIV s0 s1" by (rule within_clock [OF t(1)]) simp_all
  then have "within {ReadClock, ReadRandom 12} UNIV s0 s3"
    using t(2) unfolding z(2) by (auto elim: within_clock)
  then have "within {ReadClock, ReadRandom 12} UNIV s0 (log_at L1 ''http.access'' as s3)"
    by (auto simp: within_def)
  then show "within {ReadClock, ReadRandom 12} UNIV s (snd (serve p segs r s))"
    using request_id_of_keeps [OF rid]
    by (auto simp: e intro: within_trans [OF within_bind_attrs] within_mono)
  show "st_codes (snd (serve p segs r s)) = st_codes s" "st_level (snd (serve p segs r s)) = st_level s"
    using request_id_of_keeps [OF rid] clock_keeps [OF t(1)] clock_keeps [OF t(2)]
    by (simp_all add: e z(2) bind_attrs_def log_at_def)
qed

section \<open>The gate of the running service\<close>

lemma serve_loads: "main_run b args env = Serve cfg \<longleftrightarrow> load_config args env = Inr cfg \<and> \<not> gc_show_version cfg"
  by (auto simp: main_run_def split: sum.split config_error.split)

lemma main_operator_token:
  assumes "load_config args env = Inr cfg"
  shows "cf_operator_token (sv_cfg (ps_server (main_process b ou cfg))) = trim_space (env ''OPERATOR_TOKEN'')"
  using secrets_loaded [OF assms]
  by (simp add: main_process_def new_server_def config.truncate_def secrets_of_def env_secrets_def)

text \<open>\<open>C6\<close>: the operator tier of the running service is closed to everyone without the token the process
  was started with. However it is started, by whatever flags and environment, with the real or the
  mock upstreams, and in every state it may be in: a request below \<^verbatim>\<open>/manage\<close> or for a key
  mint that does not carry the trimmed \<^verbatim>\<open>OPERATOR_TOKEN\<close> of the environment, or any such
  request when that is empty, is answered 401 or 404 with the fixed bodies, calls no upstream, and
  leaves the codes and the log level alone; the server listens where the flags and the environment
  say, with every timeout set.\<close>

theorem served_operator_gate:
  assumes "main_run b args env = Serve cfg" and "main_serve b ou cfg = (h, s0)" and "operator_path segs"
    and "trim_space (env ''OPERATOR_TOKEN'') = []
      \<or> rq_header r ''X-Operator-Token'' \<noteq> trim_space (env ''OPERATOR_TOKEN'')"
  shows "(\<exists>z\<in>{err_json 401 ''unauthorized'', handle_not_found}.
        rs_status (fst (hs_handler h segs r s)) = rs_status z \<and> rs_body (fst (hs_handler h segs r s)) = rs_body z)
    \<and> fst ` set (calls_since s (snd (hs_handler h segs r s))) \<subseteq> {ReadClock, ReadRandom 12}
    \<and> st_codes (snd (hs_handler h segs r s)) = st_codes s
    \<and> st_level (snd (hs_handler h segs r s)) = st_level s
    \<and> (\<exists>asg. parse_flags args = Inr asg \<and> hs_addr h = source asg ''listen'' env ''ABC_AUTH_LISTEN'' ''127.0.0.1:4182'')
    \<and> 0 < hs_read_timeout h \<and> 0 < hs_write_timeout h \<and> 0 < hs_idle_timeout h"
proof -
  let ?p = "main_process b ou cfg"
  have load: "load_config args env = Inr cfg" using assms(1) by (simp add: serve_loads)
  have h: "h = http_server cfg ?p" using assms(2) by (simp add: main_serve_def)
  have "\<not> operator_ok (ps_server ?p) r"
    using assms(4) by (simp add: operator_ok_def main_operator_token [OF load])
  then have "serve_mux ?p segs r t \<in> {(err_json 401 ''unauthorized'', t), (handle_not_found, t)}" for t
    by (rule operator_gate [OF assms(3)])
  note u = serve_unchanged [OF this, of s]
  obtain asg where asg: "parse_flags args = Inr asg" "from_sources asg env cfg"
    using config_sources_loaded [OF load] by blast
  have t: "gc_read_timeout cfg = 10 * second \<and> gc_write_timeout cfg = 15 * second \<and> gc_idle_timeout cfg = 60 * second"
    by (rule timeouts_loaded [OF load])
  show ?thesis
    using u(1,3,4) within_calls [OF u(2)] asg t
    by (auto simp: h http_server_def from_sources_def second_def)
qed

text \<open>A service started with \<^verbatim>\<open>--mock-upstreams --listen=:80\<close> and a token.\<close>

definition offline_client :: "'w http_client" where
  "offline_client =
     \<lparr>hc_new = (\<lambda>u. None), hc_do = (\<lambda>rq w. (Inl (ErrText ''offline''), w)),
      hc_json_error = (\<lambda>t. ErrText ''bad JSON'')\<rparr>"

definition sample_outside :: "int outside" where
  "sample_outside =
     \<lparr>ou_transports =
        \<lparr>tr_nomad = offline_client, tr_hub = offline_client, tr_store = offline_client,
         tr_minio = offline_client, tr_now = (\<lambda>w. (w, w)), tr_exec = (\<lambda>x as w. (([], None), w)),
         tr_rand = (\<lambda>n w. (Inr (replicate n (CHR ''r'')), w))\<rparr>,
      ou_runtime = plain_runtime, ou_shadow = (\<lambda>u x y w. (Inr (200, []), w)),
      ou_host = \<lparr>ho_user = (\<lambda>u w. UserUnknown), ho_stat = (\<lambda>f w. None)\<rparr>,
      ou_body_size = (\<lambda>b. 0), ou_world = 0\<rparr>"

definition mock_args :: "gostring list" where
  "mock_args = [''--mock-upstreams'', ''--listen=:80'']"

definition mock_env :: "gostring \<Rightarrow> gostring" where
  "mock_env k = (if k = ''OPERATOR_TOKEN'' then '' op '' else [])"

definition mock_config :: go_config where
  "mock_config = (case load_config mock_args mock_env of Inr c \<Rightarrow> c | Inl e \<Rightarrow> env_config mock_env L1)"

lemma served_operator_gate_witness:
  "rs_status (fst (hs_handler (fst (main_serve (ps_build sample_process) sample_outside mock_config))
     [''manage'', ''slots''] sample_request (snd (main_serve (ps_build sample_process) sample_outside mock_config)))) \<in> {401, 404}"
proof -
  obtain h s0 where h: "main_serve (ps_build sample_process) sample_outside mock_config = (h, s0)" by force
  have "\<not> isl (load_config mock_args mock_env) \<and> \<not> gc_show_version mock_config" by code_simp
  then have m: "main_run (ps_build sample_process) mock_args mock_env = Serve mock_config"
    by (auto simp: serve_loads mock_config_def split: sum.splits)
  have p: "operator_path [''manage'', ''slots'']" by (simp add: operator_path_def)
  have t: "rq_header sample_request ''X-Operator-Token'' \<noteq> trim_space (mock_env ''OPERATOR_TOKEN'')" by code_simp
  show ?thesis
    using served_operator_gate [OF m h p disjI2 [OF t], of s0]
    by (auto simp: h handle_not_found_def)
qed

end
