(* ===== verification/Log_Chain.thy ===== *)
theory Log_Chain
  imports Middleware
begin

text \<open>
  The logger as it is built: the handlers of \<^verbatim>\<open>redact.go\<close> stacked on the JSON handler of
  \<^verbatim>\<open>log/slog\<close>, children of a logger with attributes and groups of their own, and the context
  that carries the logger and the request id to the handlers. The lemmas show that the stack is the
  filter of \<open>Redact\<close> in front of the JSON handler, and that what a handler logs is what
  \<open>Middleware\<close> records for it.
\<close>

section \<open>Handlers\<close>

text \<open>\<open>JsonHandler fs as\<close> has the groups \<open>fs\<close> open, each after the attributes bound before it, and
  \<open>as\<close> bound in the innermost one. \<open>Discard\<close> is the text handler on \<^verbatim>\<open>io.Discard\<close>.\<close>

datatype slog_handler =
    JsonHandler "(attr list \<times> gostring) list" "attr list"
  | Redacting slog_handler
  | Scrubbing "gostring list" slog_handler
  | Discard

text \<open>A group that holds nothing is left out.\<close>

definition attr_group :: "gostring \<Rightarrow> attr list \<Rightarrow> attr list" where
  "attr_group g as = (if as = [] then [] else [AGroup g as])"

fun nest :: "(attr list \<times> gostring) list \<Rightarrow> attr list \<Rightarrow> attr list" where
  "nest [] as = as"
| "nest ((bs, g) # fs) as = bs @ attr_group g (nest fs as)"

text \<open>The level is a variable that the JSON handler reads.\<close>

fun h_enabled :: "int \<Rightarrow> slog_handler \<Rightarrow> int \<Rightarrow> bool" where
  "h_enabled lv (JsonHandler fs as) l \<longleftrightarrow> lv \<le> l"
| "h_enabled lv (Redacting h) l \<longleftrightarrow> h_enabled lv h l"
| "h_enabled lv (Scrubbing qs h) l \<longleftrightarrow> h_enabled lv h l"
| "h_enabled lv Discard l \<longleftrightarrow> L1 \<le> l"

text \<open>What a handler writes for a record.\<close>

fun h_handle :: "slog_handler \<Rightarrow> log_record \<Rightarrow> log_record list" where
  "h_handle (JsonHandler fs as) r = [r\<lparr>lg_attrs := nest fs (as @ lg_attrs r)\<rparr>]"
| "h_handle (Redacting h) r = h_handle h (redact_record r)"
| "h_handle (Scrubbing qs h) r = h_handle h (scrub_record qs r)"
| "h_handle Discard r = []"

fun h_with_attrs :: "slog_handler \<Rightarrow> attr list \<Rightarrow> slog_handler" where
  "h_with_attrs (JsonHandler fs as) bs = JsonHandler fs (as @ bs)"
| "h_with_attrs (Redacting h) bs = Redacting (h_with_attrs h (map redact_attr bs))"
| "h_with_attrs (Scrubbing qs h) bs = Scrubbing qs (h_with_attrs h (map (scrub_attr qs) bs))"
| "h_with_attrs Discard bs = Discard"

fun h_with_group :: "slog_handler \<Rightarrow> gostring \<Rightarrow> slog_handler" where
  "h_with_group (JsonHandler fs as) g = JsonHandler (fs @ [(as, g)]) []"
| "h_with_group (Redacting h) g = Redacting (h_with_group h g)"
| "h_with_group (Scrubbing qs h) g = Scrubbing qs (h_with_group h g)"
| "h_with_group Discard g = Discard"

text \<open>\<^verbatim>\<open>Logger.LogAttrs\<close>.\<close>

definition logger_log :: "int \<Rightarrow> slog_handler \<Rightarrow> log_record \<Rightarrow> log_record list" where
  "logger_log lv h r = (if h_enabled lv h (lg_level r) then h_handle h r else [])"

text \<open>\<^verbatim>\<open>wrapScrub\<close> as it wraps a handler, and the logger of the service.\<close>

definition wrap_scrub_handler :: "slog_handler \<Rightarrow> gostring list \<Rightarrow> slog_handler" where
  "wrap_scrub_handler h secs =
     (let qs = keep_secrets secs in if qs = [] then h else Scrubbing qs h)"

definition new_leveled_logger :: "gostring list \<Rightarrow> slog_handler" where
  "new_leveled_logger secs = wrap_scrub_handler (Redacting (JsonHandler [] [])) secs"

section \<open>The context of a request\<close>

datatype ctx_key = LoggerKey | RidKey
datatype ctx_value = CtxLogger slog_handler | CtxRid gostring

text \<open>\<open>Background\<close> is any context without values of this package.\<close>

datatype go_context = Background | WithValue go_context ctx_key ctx_value

fun ctx_lookup :: "go_context \<Rightarrow> ctx_key \<Rightarrow> ctx_value option" where
  "ctx_lookup Background k = None"
| "ctx_lookup (WithValue cx k' v) k = (if k = k' then Some v else ctx_lookup cx k)"

definition with_logger :: "go_context \<Rightarrow> slog_handler \<Rightarrow> go_context" where
  "with_logger cx h = WithValue cx LoggerKey (CtxLogger h)"

definition from_context :: "go_context \<Rightarrow> slog_handler" where
  "from_context cx = (case ctx_lookup cx LoggerKey of Some (CtxLogger h) \<Rightarrow> h | _ \<Rightarrow> Discard)"

definition rid_from_context :: "go_context \<Rightarrow> gostring" where
  "rid_from_context cx = (case ctx_lookup cx RidKey of Some (CtxRid t) \<Rightarrow> t | _ \<Rightarrow> [])"

definition with_base_logger :: "slog_handler \<Rightarrow> go_context \<Rightarrow> go_context" where
  "with_base_logger h cx = with_logger cx h"

text \<open>The context \<^verbatim>\<open>RequestID\<close> hands on.\<close>

definition request_context :: "gostring \<Rightarrow> go_context \<Rightarrow> go_context" where
  "request_context rid cx =
     (let cx1 = WithValue cx RidKey (CtxRid rid)
      in with_logger cx1 (h_with_attrs (from_context cx1) [AStr ''rid'' rid]))"

section \<open>The stack is a filter in front of the JSON handler\<close>

datatype child_op = BindAttrs "attr list" | OpenGroup gostring

fun child :: "slog_handler \<Rightarrow> child_op \<Rightarrow> slog_handler" where
  "child h (BindAttrs as) = h_with_attrs h as"
| "child h (OpenGroup g) = h_with_group h g"

text \<open>What the stack does to an attribute, a record and an operation on its way down.\<close>

definition clean_attr :: "gostring list \<Rightarrow> attr \<Rightarrow> attr" where
  "clean_attr secs a =
     (let qs = keep_secrets secs in redact_attr (if qs = [] then a else scrub_attr qs a))"

definition clean_record :: "gostring list \<Rightarrow> log_record \<Rightarrow> log_record" where
  "clean_record secs r = redact_record (wrap_scrub secs r)"

fun clean_op :: "gostring list \<Rightarrow> child_op \<Rightarrow> child_op" where
  "clean_op secs (BindAttrs as) = BindAttrs (map (clean_attr secs) as)"
| "clean_op secs (OpenGroup g) = OpenGroup g"

lemma clean_record_fields [simp]:
  "lg_level (clean_record secs r) = lg_level r"
  "lg_attrs (clean_record secs r) = map (clean_attr secs) (lg_attrs r)"
  by (simp_all add: clean_record_def redact_record_def wrap_scrub_def scrub_record_def clean_attr_def Let_def)

text \<open>A stack over any inner handler: \<open>stacked secs h\<close> is the service's stack with \<open>h\<close> below.\<close>

definition stacked :: "gostring list \<Rightarrow> slog_handler \<Rightarrow> slog_handler" where
  "stacked secs h = wrap_scrub_handler (Redacting h) secs"

lemma new_leveled_logger_stacked: "new_leveled_logger secs = stacked secs (JsonHandler [] [])"
  by (simp add: new_leveled_logger_def stacked_def)

lemma child_stacked: "child (stacked secs h) x = stacked secs (child h (clean_op secs x))"
  by (cases x) (simp_all add: stacked_def wrap_scrub_handler_def clean_attr_def [abs_def] Let_def comp_def)

lemma children_stacked:
  "run_steps child (stacked secs h) ops = stacked secs (run_steps child h (map (clean_op secs) ops))"
  by (induction ops arbitrary: h) (simp_all add: child_stacked)

lemma log_stacked: "logger_log lv (stacked secs h) r = logger_log lv h (clean_record secs r)"
  by (simp add: logger_log_def stacked_def wrap_scrub_handler_def clean_record_def wrap_scrub_def
      scrub_record_def redact_record_def Let_def)

section \<open>What is written\<close>

lemma children_bound: "run_steps child (JsonHandler fs as) (map BindAttrs bss) = JsonHandler fs (as @ concat bss)"
  by (induction bss arbitrary: as) simp_all

lemma map_clean_op: "map (clean_op secs) (map BindAttrs bss) = map BindAttrs (map (map (clean_attr secs)) bss)"
  by simp

text \<open>A child with attributes only writes what \<open>Redact\<close> says.\<close>

definition written :: "log_record option \<Rightarrow> log_record list" where
  "written x = (case x of None \<Rightarrow> [] | Some r \<Rightarrow> [r])"

lemma clean_bound:
  "(clean_record secs r)\<lparr>lg_attrs := map (clean_attr secs) as @ map (clean_attr secs) (lg_attrs r)\<rparr>
     = clean_record secs (r\<lparr>lg_attrs := as @ lg_attrs r\<rparr>)"
  by (simp add: clean_record_def redact_record_def wrap_scrub_def scrub_record_def
      clean_attr_def [abs_def] Let_def comp_def)

lemma bound_logger_output:
  "logger_log lv (run_steps child (new_leveled_logger secs) (map BindAttrs bss)) r
     = written (logger_output lv secs (concat bss) r)"
proof -
  have "map (clean_attr secs) (concat bss) = concat (map (map (clean_attr secs)) bss)"
    by (simp add: map_concat)
  then show ?thesis
    unfolding new_leveled_logger_stacked children_stacked log_stacked map_clean_op children_bound
    using clean_bound [of secs "concat bss" r]
    by (simp add: logger_log_def written_def logger_output_def clean_record_def [symmetric])
qed

lemma request_context_logger:
  "from_context (request_context rid (with_base_logger h cx)) = run_steps child h [BindAttrs [AStr ''rid'' rid]]"
  by (simp add: request_context_def with_base_logger_def with_logger_def from_context_def Let_def)

lemma request_context_rid: "rid_from_context (request_context rid cx) = rid"
  by (simp add: request_context_def with_logger_def rid_from_context_def Let_def)

text \<open>Without a logger in the context nothing is written.\<close>

lemma no_logger_discards:
  "ctx_lookup cx LoggerKey = None \<Longrightarrow> logger_log lv (from_context cx) r = []"
  by (simp add: from_context_def logger_log_def)

text \<open>A group opened on a logger keeps its name as it is; below it the attributes are hidden as
  anywhere.\<close>

fun plain_op :: "child_op \<Rightarrow> bool" where
  "plain_op (BindAttrs as) \<longleftrightarrow> list_all hidden as"
| "plain_op (OpenGroup g) \<longleftrightarrow> \<not> sensitive g"

fun frames_hidden :: "slog_handler \<Rightarrow> bool" where
  "frames_hidden (JsonHandler fs as) \<longleftrightarrow>
     list_all hidden as \<and> list_all (\<lambda>(bs, g). list_all hidden bs \<and> \<not> sensitive g) fs"
| "frames_hidden h \<longleftrightarrow> False"

interpretation json_children: step_invariant child frames_hidden plain_op
proof
  fix h x
  assume "frames_hidden h" "plain_op x"
  then show "frames_hidden (child h x)"
    by (cases h; cases x) auto
qed

lemma nest_hidden:
  "list_all (\<lambda>(bs, g). list_all hidden bs \<and> \<not> sensitive g) fs \<Longrightarrow> list_all hidden as
     \<Longrightarrow> list_all hidden (nest fs as)"
  by (induction fs as rule: nest.induct) (auto simp: attr_group_def)

lemma clean_attr_hidden: "hidden (clean_attr secs a)"
  by (simp add: clean_attr_def redact_attr_hidden Let_def)

lemma frames_hidden_log:
  assumes "frames_hidden h" and "list_all hidden (lg_attrs r)" and "out \<in> set (logger_log lv h r)"
  shows "list_all hidden (lg_attrs out)"
  using assms by (cases h) (auto simp: logger_log_def intro!: nest_hidden split: if_splits)

text \<open>\<open>C34\<close>: the stack of handlers is the filter it is meant to be. Whatever attributes and groups a
  chain of child loggers binds, in whatever order, the service's stack writes what the bare JSON
  handler would for the cleaned attributes and the cleaned record; and a request's logger, taken from
  the context the middleware builds, writes its records with the request id in front, filtered and
  gated by the level as \<open>logger_output\<close> has it.\<close>

theorem logger_stack:
  "logger_log lv (run_steps child (new_leveled_logger secs) ops) r
     = logger_log lv (run_steps child (JsonHandler [] []) (map (clean_op secs) ops)) (clean_record secs r)
   \<and> logger_log lv (from_context (request_context rid (with_base_logger (new_leveled_logger secs) cx))) r
     = written (logger_output lv secs [AStr ''rid'' rid] r)
   \<and> rid_from_context (request_context rid cx) = rid"
proof (intro conjI request_context_rid)
  show "logger_log lv (run_steps child (new_leveled_logger secs) ops) r
     = logger_log lv (run_steps child (JsonHandler [] []) (map (clean_op secs) ops)) (clean_record secs r)"
    by (simp add: new_leveled_logger_stacked children_stacked log_stacked)
  show "logger_log lv (from_context (request_context rid (with_base_logger (new_leveled_logger secs) cx))) r
     = written (logger_output lv secs [AStr ''rid'' rid] r)"
    using bound_logger_output [of lv secs "[[AStr ''rid'' rid]]" r] by (simp add: request_context_logger)
qed

text \<open>No child logger shows a value under a sensitive name, unless a group itself is opened under
  such a name.\<close>

lemma child_logs_hidden:
  assumes "\<forall>x\<in>set ops. case x of OpenGroup g \<Rightarrow> \<not> sensitive g | _ \<Rightarrow> True"
    and "out \<in> set (logger_log lv (run_steps child (new_leveled_logger secs) ops) r)"
  shows "list_all hidden (lg_attrs out)"
proof (rule frames_hidden_log)
  have "plain_op (clean_op secs x)" if "x \<in> set ops" for x
    using assms(1) that by (cases x) (auto simp: list_all_iff clean_attr_hidden)
  then show "frames_hidden (run_steps child (JsonHandler [] []) (map (clean_op secs) ops))"
    by (intro json_children.run_inv) auto
  show "list_all hidden (lg_attrs (clean_record secs r))" by (simp add: list_all_iff clean_attr_hidden)
  show "out \<in> set (logger_log lv (run_steps child (JsonHandler [] []) (map (clean_op secs) ops))
      (clean_record secs r))"
    using assms(2) by (simp add: new_leveled_logger_stacked children_stacked log_stacked)
qed

end
