(* ===== verification/Writer.thy ===== *)
theory Writer
  imports Middleware
begin

text \<open>
  \<^verbatim>\<open>statusWriter\<close> of \<^verbatim>\<open>middleware.go\<close>: the wrapper from which the access log reads
  the status and the size of an answer, over the writer of \<^verbatim>\<open>net/http\<close>, as two state
  machines driven by the same operations. The lemmas say when what is logged is what the client got.
\<close>

section \<open>The writer of net/http\<close>

text \<open>\<open>OpWrite b n\<close> is a write of \<open>b\<close> of which \<^verbatim>\<open>net/http\<close> takes \<open>n\<close> bytes: fewer when
  the connection fails, none for a status that allows no body. An informational status is sent at once
  and leaves the final one open.\<close>

datatype writer_op = OpWriteHeader nat | OpWrite gostring nat | OpFlush

record http_writer =
  hw_sent :: "nat option"
  hw_body :: gostring

definition hw_commit :: "nat \<Rightarrow> http_writer \<Rightarrow> http_writer" where
  "hw_commit c w = (case hw_sent w of None \<Rightarrow> w\<lparr>hw_sent := Some c\<rparr> | Some _ \<Rightarrow> w)"

definition hw_header :: "nat \<Rightarrow> http_writer \<Rightarrow> http_writer" where
  "hw_header c w = (if 100 \<le> c \<and> c < 200 \<and> c \<noteq> 101 then w else hw_commit c w)"

definition hw_write :: "gostring \<Rightarrow> nat \<Rightarrow> http_writer \<Rightarrow> http_writer" where
  "hw_write b n w = (hw_commit 200 w)\<lparr>hw_body := hw_body w @ take n b\<rparr>"

text \<open>A handler that never commits a status gets 200 when it returns.\<close>

definition client_status :: "http_writer \<Rightarrow> nat" where
  "client_status w = (case hw_sent w of None \<Rightarrow> 200 | Some c \<Rightarrow> c)"

section \<open>The wrapper\<close>

record status_writer =
  sw_inner :: http_writer
  sw_status :: nat
  sw_bytes :: int
  sw_wrote :: bool

definition new_status_writer :: status_writer where
  "new_status_writer =
     \<lparr>sw_inner = \<lparr>hw_sent = None, hw_body = []\<rparr>, sw_status = 200, sw_bytes = 0, sw_wrote = False\<rparr>"

definition sw_mark :: "nat \<Rightarrow> status_writer \<Rightarrow> status_writer" where
  "sw_mark c w = (if sw_wrote w then w else w\<lparr>sw_status := c, sw_wrote := True\<rparr>)"

definition sw_write_header :: "nat \<Rightarrow> status_writer \<Rightarrow> status_writer" where
  "sw_write_header c w = (sw_mark c w)\<lparr>sw_inner := hw_header c (sw_inner w)\<rparr>"

definition sw_write :: "gostring \<Rightarrow> nat \<Rightarrow> status_writer \<Rightarrow> status_writer" where
  "sw_write b n w =
     (sw_mark 200 w)\<lparr>sw_inner := hw_write b n (sw_inner w),
                     sw_bytes := sw_bytes w + int (length (take n b))\<rparr>"

definition sw_flush :: "status_writer \<Rightarrow> status_writer" where
  "sw_flush w = w\<lparr>sw_inner := hw_commit 200 (sw_inner w)\<rparr>"

fun sw_step :: "status_writer \<Rightarrow> writer_op \<Rightarrow> status_writer" where
  "sw_step w (OpWriteHeader c) = sw_write_header c w"
| "sw_step w (OpWrite b n) = sw_write b n w"
| "sw_step w OpFlush = sw_flush w"

text \<open>What \<^verbatim>\<open>Recoverer\<close> adds to an answer, however far it had come.\<close>

definition recover_ops :: "nat \<Rightarrow> writer_op list" where
  "recover_ops n = [OpWriteHeader 500, OpWrite panic_body n]"

section \<open>What is logged is what was sent\<close>

text \<open>The status the wrapper does not see: a flush before anything was written commits 200.\<close>

definition flushed_first :: "writer_op list \<Rightarrow> bool" where
  "flushed_first ops \<longleftrightarrow>
     (case dropWhile (\<lambda>x. x = OpFlush) ops of
        OpWriteHeader c # _ \<Rightarrow> c \<noteq> 200 \<and> takeWhile (\<lambda>x. x = OpFlush) ops \<noteq> []
      | _ \<Rightarrow> False)"

text \<open>The statuses the handlers of the service use are final ones.\<close>

fun final_op :: "writer_op \<Rightarrow> bool" where
  "final_op (OpWriteHeader c) \<longleftrightarrow> 200 \<le> c"
| "final_op _ \<longleftrightarrow> True"

definition in_step :: "status_writer \<Rightarrow> bool" where
  "in_step w \<longleftrightarrow> sw_bytes w = int (length (hw_body (sw_inner w)))"

interpretation writer_run: step_invariant sw_step in_step "\<lambda>_. True"
proof
  fix w x
  assume "in_step w"
  then show "in_step (sw_step w x)"
    by (cases x) (simp_all add: in_step_def sw_write_header_def sw_write_def sw_flush_def sw_mark_def
        hw_write_def hw_header_def hw_commit_def split: option.split)
qed

text \<open>Once the wrapper has seen a write, no operation changes either status.\<close>

lemma sw_step_settled:
  assumes "sw_wrote w" and "hw_sent (sw_inner w) = Some c"
  shows "sw_wrote (sw_step w x) \<and> sw_status (sw_step w x) = sw_status w \<and> hw_sent (sw_inner (sw_step w x)) = Some c"
  using assms
  by (cases x) (simp_all add: sw_write_header_def sw_write_def sw_flush_def sw_mark_def hw_write_def hw_header_def hw_commit_def)

lemma sw_run_settled:
  "sw_wrote w \<Longrightarrow> hw_sent (sw_inner w) = Some c \<Longrightarrow>
     sw_status (run_steps sw_step w ops) = sw_status w \<and> hw_sent (sw_inner (run_steps sw_step w ops)) = Some c"
proof (induction ops arbitrary: w)
  case (Cons x ops)
  from sw_step_settled [OF Cons.prems, of x] Cons.IH [of "sw_step w x"] show ?case by simp
qed simp

lemma sw_run_status:
  "\<forall>x\<in>set ops. final_op x \<Longrightarrow>
     \<not> sw_wrote w \<Longrightarrow> hw_sent (sw_inner w) \<in> {None, Some 200} \<Longrightarrow> sw_status w = 200 \<Longrightarrow>
     (sw_status (run_steps sw_step w ops), client_status (sw_inner (run_steps sw_step w ops))) =
       (case dropWhile (\<lambda>x. x = OpFlush) ops of
          OpWriteHeader c # _ \<Rightarrow>
            (c, if hw_sent (sw_inner w) = None \<and> takeWhile (\<lambda>x. x = OpFlush) ops = [] then c else 200)
        | _ \<Rightarrow> (200, 200))"
proof (induction ops arbitrary: w)
  case Nil
  then show ?case by (auto simp: client_status_def)
next
  case (Cons x ops)
  show ?case
  proof (cases "x = OpFlush")
    case True
    have ops: "\<forall>x\<in>set ops. final_op x" using Cons.prems(1) by simp
    have f: "\<not> sw_wrote (sw_flush w)" "hw_sent (sw_inner (sw_flush w)) \<in> {None, Some 200}"
      "sw_status (sw_flush w) = 200" "hw_sent (sw_inner (sw_flush w)) = Some 200"
      using Cons.prems by (auto simp: sw_flush_def hw_commit_def)
    have e: "run_steps sw_step w (x # ops) = run_steps sw_step (sw_flush w) ops"
      "dropWhile (\<lambda>x. x = OpFlush) (x # ops) = dropWhile (\<lambda>x. x = OpFlush) ops"
      "(takeWhile (\<lambda>x. x = OpFlush) (x # ops) = []) = False"
      by (simp_all add: True)
    show ?thesis
      unfolding e using Cons.IH [OF ops f(1-3), unfolded f(4)] by (simp only: option.distinct simp_thms if_False)
  next
    case False
    define w1 where "w1 = sw_step w x"
    have "sw_wrote w1 \<and> hw_sent (sw_inner w1) \<noteq> None" and v: "(sw_status w1, client_status (sw_inner w1)) =
        (case x of OpWriteHeader c \<Rightarrow> (c, if hw_sent (sw_inner w) = None then c else 200) | _ \<Rightarrow> (200, 200))"
      using Cons.prems False
      by (cases x; auto simp: w1_def sw_write_header_def sw_write_def sw_mark_def hw_write_def
          hw_header_def hw_commit_def client_status_def)+
    then obtain c where "sw_wrote w1" "hw_sent (sw_inner w1) = Some c" by auto
    note r = sw_run_settled [OF this, of ops]
    have e: "run_steps sw_step w (x # ops) = run_steps sw_step w1 ops"
      "dropWhile (\<lambda>x. x = OpFlush) (x # ops) = x # ops" "takeWhile (\<lambda>x. x = OpFlush) (x # ops) = []"
      by (simp_all add: False w1_def)
    show ?thesis
      unfolding e using r v \<open>hw_sent (sw_inner w1) = Some c\<close> False
      by (cases x) (auto simp: client_status_def)
  qed
qed



lemma recovered_status:
  assumes ok: "\<forall>x\<in>set ops. final_op x"
  shows "client_status (sw_inner (run_steps sw_step new_status_writer (ops @ recover_ops n))) =
     (if ops = [] then 500 else client_status (sw_inner (run_steps sw_step new_status_writer ops)))"
proof (cases ops)
  case Nil
  then show ?thesis
    by (simp add: recover_ops_def new_status_writer_def sw_write_header_def sw_write_def sw_mark_def
        hw_write_def hw_header_def hw_commit_def client_status_def)
next
  case (Cons x xs)
  have sent: "hw_sent (sw_inner (run_steps sw_step w os)) = hw_sent (sw_inner w)"
    if "hw_sent (sw_inner w) \<noteq> None" for w os
    using that
  proof (induction os arbitrary: w)
    case (Cons y ys)
    have "hw_sent (sw_inner (sw_step w y)) = hw_sent (sw_inner w)"
      using Cons.prems by (cases y) (auto simp: sw_write_header_def sw_write_def sw_flush_def sw_mark_def
          hw_write_def hw_header_def hw_commit_def)
    with Cons show ?case by simp
  qed simp
  from ok Cons have "final_op x" by simp
  then have "hw_sent (sw_inner (sw_step new_status_writer x)) \<noteq> None"
    by (cases x) (simp_all add: sw_write_header_def sw_write_def sw_flush_def sw_mark_def
        hw_write_def hw_header_def hw_commit_def new_status_writer_def)
  with Cons show ?thesis by (simp add: client_status_def sent)
qed

end
