(* ===== verification/Tracing.thy ===== *)
theory Tracing
  imports Http_Client Effects
begin

text \<open>
  \<^verbatim>\<open>debug.go\<close>: the round tripper around the transport of each upstream client, which writes one
  trace record per call. A round trip acts on the world of the upstreams; the record goes to the log
  of the process, through the logger of the request if there is one and through the service's
  otherwise, and both write to the same place. The clients themselves see the transport only, and the
  lemmas say that it answers as before.
\<close>

section \<open>The URL of a request\<close>

text \<open>Host and path as \<^verbatim>\<open>url.Parse\<close> splits the URLs the clients build: a scheme, an authority
  without user information, a path, perhaps a query.\<close>

definition url_rest :: "gostring \<Rightarrow> gostring" where
  "url_rest u = (case dropWhile (\<lambda>c. c \<noteq> CHR '':'') u of
       c # t \<Rightarrow> if has_prefix t ''//'' then drop 2 t else t
     | [] \<Rightarrow> u)"

definition url_host :: "gostring \<Rightarrow> gostring" where
  "url_host u = takeWhile (\<lambda>c. c \<noteq> CHR ''/'' \<and> c \<noteq> CHR ''?'' \<and> c \<noteq> CHR ''#'') (url_rest u)"

text \<open>A path that does not unescape never becomes a request.\<close>

fun path_unescape :: "gostring \<Rightarrow> gostring" where
  "path_unescape (CHR 0x25 # h # l # r) =
     (case (hex_val h, hex_val l) of
        (Some x, Some y) \<Rightarrow> chr_of (16 * x + y) # path_unescape r
      | _ \<Rightarrow> CHR 0x25 # path_unescape (h # l # r))"
| "path_unescape (c # cs) = c # path_unescape cs"
| "path_unescape [] = []"

definition url_path :: "gostring \<Rightarrow> gostring" where
  "url_path u =
     path_unescape (takeWhile (\<lambda>c. c \<noteq> CHR ''?'' \<and> c \<noteq> CHR ''#'')
       (drop (length (url_host u)) (url_rest u)))"

section \<open>The round tripper\<close>

type_synonym 'w round_trip = "http_request \<Rightarrow> ('w, http_reply) call"

definition trace_record :: "http_request \<Rightarrow> (go_error, http_reply) result \<Rightarrow> int \<Rightarrow> attr list" where
  "trace_record rq x ms =
     [AStr ''method'' (hq_method rq), AStr ''host'' (url_host (hq_url rq)),
      AStr ''path'' (url_path (hq_url rq)),
      (case x of Inl e \<Rightarrow> AStr ''error'' (error_text e) | Inr y \<Rightarrow> AInt ''status'' (hr_status y)),
      AInt ''ms'' ms]"

definition debug_round_trip ::
  "('w \<Rightarrow> int \<times> 'w) \<Rightarrow> 'w round_trip \<Rightarrow> http_request \<Rightarrow> 'w st
     \<Rightarrow> (go_error, http_reply) result \<times> 'w st" where
  "debug_round_trip now base rq s =
     (case io_total ReadClock now s of
        (start, s1) \<Rightarrow>
          (case base rq (st_world s1) of
             (x, w) \<Rightarrow>
               (case io_total ReadClock now (s1\<lparr>st_world := w\<rparr>) of
                  (t, s2) \<Rightarrow>
                    (x, log_at L3 ''upstream.call'' (trace_record rq x ((t - start) div 1000000)) s2))))"

text \<open>A client without a transport of its own uses the default one.\<close>

definition with_debug_transport ::
  "('w \<Rightarrow> int \<times> 'w) \<Rightarrow> 'w round_trip \<Rightarrow> 'w round_trip option \<Rightarrow> http_request \<Rightarrow> 'w st
     \<Rightarrow> (go_error, http_reply) result \<times> 'w st" where
  "with_debug_transport now dflt t =
     debug_round_trip now (case t of None \<Rightarrow> dflt | Some base \<Rightarrow> base)"

section \<open>What the tracer does to a call\<close>

text \<open>It answers what the transport answers and leaves the world as the transport leaves it.\<close>

lemma debug_round_trip_transparent:
  assumes "\<And>w. snd (now w) = w"
  shows "fst (debug_round_trip now base rq s) = fst (base rq (st_world s))
    \<and> st_world (snd (debug_round_trip now base rq s)) = snd (base rq (st_world s))
    \<and> st_codes (snd (debug_round_trip now base rq s)) = st_codes s
    \<and> st_level (snd (debug_round_trip now base rq s)) = st_level s"
proof -
  obtain n where n: "now (st_world s) = (n, st_world s)" using assms by (metis prod.collapse)
  obtain x w where x: "base rq (st_world s) = (x, w)" by force
  obtain m where "now w = (m, w)" using assms by (metis prod.collapse)
  with n x show ?thesis by (simp add: debug_round_trip_def io_total_def log_at_def)
qed

lemma debug_round_trip_logs:
  "\<exists>ms. st_log (snd (debug_round_trip now base rq s)) = st_log s @
     [\<lparr>lg_level = L3, lg_msg = ''upstream.call'',
       lg_attrs = trace_record rq (fst (debug_round_trip now base rq s)) ms\<rparr>]"
proof -
  obtain n v where n: "now (st_world s) = (n, v)" by force
  obtain x w where x: "base rq v = (x, w)" by force
  obtain m u where "now w = (m, u)" by force
  with n x show ?thesis by (auto simp: debug_round_trip_def io_total_def log_at_def)
qed

text \<open>The record shows of a request the method, the host and the path: no header, no body and
  nothing after the question mark, where the clients put credentials, payloads and filters.\<close>

lemma url_rest_scheme: "CHR '':'' \<notin> set u \<Longrightarrow> url_rest (u @ ''://'' @ t) = t"
proof -
  assume "CHR '':'' \<notin> set u"
  then have "dropWhile (\<lambda>c. c \<noteq> CHR '':'') (u @ ''://'' @ t) = ''://'' @ t" by (induction u) auto
  then show ?thesis by (simp add: url_rest_def has_prefix_def)
qed

lemma url_parts:
  assumes "CHR '':'' \<notin> set u" and "set h \<inter> {CHR ''/'', CHR ''?'', CHR ''#''} = {}"
    and "set p \<inter> {CHR ''?'', CHR ''#''} = {}" and "p \<noteq> [] \<longrightarrow> hd p = CHR ''/''"
    and "q \<noteq> [] \<longrightarrow> hd q = CHR ''?''"
  shows "url_host (u @ ''://'' @ h @ p @ q) = h \<and> url_path (u @ ''://'' @ h @ p @ q) = path_unescape p"
proof
  show h: "url_host (u @ ''://'' @ h @ p @ q) = h"
    using assms(2,4,5) unfolding url_host_def url_rest_scheme [OF assms(1)]
    by (cases p; cases q) (auto simp: takeWhile_append takeWhile_tail)
  have "takeWhile (\<lambda>c. c \<noteq> CHR ''?'' \<and> c \<noteq> CHR ''#'') (p @ q) = p"
    using assms(3,5) by (cases q) (auto simp: takeWhile_append takeWhile_tail)
  then show "url_path (u @ ''://'' @ h @ p @ q) = path_unescape p"
    unfolding url_path_def h url_rest_scheme [OF assms(1)] by simp
qed

text \<open>Tracing shows no credentials: two calls with the same method to the same scheme, host and
  path that get the same result in the same time leave the same record, whatever their headers, their
  bodies and their query strings.\<close>

lemma trace_hides_credentials:
  assumes "CHR '':'' \<notin> set u" and "set h \<inter> {CHR ''/'', CHR ''?'', CHR ''#''} = {}"
    and "set p \<inter> {CHR ''?'', CHR ''#''} = {}" and "p \<noteq> [] \<longrightarrow> hd p = CHR ''/''"
  shows "trace_record \<lparr>hq_method = m, hq_url = u @ ''://'' @ h @ p @ CHR ''?'' # q, hq_headers = hs,
      hq_body = b\<rparr> x ms
    = trace_record \<lparr>hq_method = m, hq_url = u @ ''://'' @ h @ p, hq_headers = [], hq_body = None\<rparr> x ms"
  using url_parts [OF assms, of "CHR ''?'' # q"] url_parts [OF assms, of "[]"]
  by (simp add: trace_record_def)

end
