(* ===== verification/Spec2Isabelle.thy ===== *)
theory Spec2Isabelle
  imports Composition Cache_Race Slot_Machine Wire Startup Log_Chain Writer Tracing
begin

text \<open>
  A verification development for \<^verbatim>\<open>abc-auth-svc\<close>, the forward-auth and credential-broker
  service of a cluster (Go, \<^verbatim>\<open>src/main.go\<close> and \<^verbatim>\<open>src/internal/authsvc\<close>).

  \<^bold>\<open>The program.\<close> A reverse proxy asks \<^verbatim>\<open>/validate\<close> about every browser request; the
  answer rests on a signed session cookie, which the browser login, the one-time magic codes and the
  hand-off to the MinIO console set. Command lines authenticate with Nomad tokens or with opaque
  tokens, which the broker (\<^verbatim>\<open>/auth/exchange\<close>) trades for a slot's credentials. Slots live in
  PocketBase: they are claimed with a code, rendered into a \<^verbatim>\<open>config.yaml\<close>, and suspended,
  reactivated, rotated or flipped by an operator. Secrets of slots live in Nomad variables, group keys
  in PocketBase under an envelope. JupyterHub tokens are minted on behalf of slots. Everything runs
  behind a chain of middleware with a redacting logger.

  \<^bold>\<open>State.\<close> A handler is a function of the server, the request and the state \<open>st\<close>
  (theory \<open>Upstreams\<close>): the abstract world \<open>'w\<close> the upstreams act on, the magic codes, the log
  level, and two traces, of log records and of upstream calls with their success, that only the
  properties read. \<open>trace_complete\<close> shows that the trace is the whole story: whatever requests come, the
  world changes by performing the calls the trace lists and by nothing else. Upstreams and runtime are records of functions, one field per interface method;
  nothing is assumed of them outside the hypotheses of a property. What a mutex protects in the code is
  one step here: a magic-code operation, a token refresh, a cache access. The claim lock makes a claim one
  step. Sequences of requests are lists (\<open>service_refines_slots\<close>), and so are sequences of steps from
  concurrent ones (\<open>code_single_use\<close>, \<open>claim_at_most_once\<close>, \<open>pb_cache_refines\<close>,
  \<open>pb_requests_only\<close>); the goroutines of \<^verbatim>\<open>Run\<close> are a step relation, and so are
  the calls of \<^verbatim>\<open>CachedSlotState\<close>, whose lookup runs outside the mutex (\<open>Cache_Race\<close>).

  \<^bold>\<open>Theories.\<close>
  \<^item> The language and its library: \<open>Prelude\<close> (byte strings, results, wrap-around, the locale of
    step invariants), \<open>Go_Strings\<close>, \<open>Go_Strconv\<close>, \<open>Codecs\<close> (hex, base64), \<open>Json\<close>
    and \<open>Json_Print\<close> (what the encoders print is read back, in a locale both encoders interpret),
    \<open>Url_Escape\<close>, \<open>Go_Text\<close> (dates, quoting), \<open>Http_Model\<close> (requests, answers, redirects),
    \<open>Http_Client\<close> (requests to upstreams).
  \<^item> The interfaces: \<open>Upstreams\<close>, \<open>Effects\<close> (bounds on the calls and records of a handler),
    \<open>Mock_Upstreams\<close> (\<^verbatim>\<open>--mock-upstreams\<close>, and the server of the witnesses).
  \<^item> Sessions and browsers: \<open>Session\<close> (\<^verbatim>\<open>session.go\<close>), \<open>Validate\<close>
    (\<^verbatim>\<open>validate.go\<close>), \<open>Login\<close> (\<^verbatim>\<open>auth.go\<close>) and \<open>Login_Page\<close> (its
    template and the bytes of the page), \<open>Magic\<close> and
    \<open>Portal\<close> (\<^verbatim>\<open>magic.go\<close>, \<^verbatim>\<open>minio_sso.go\<close>), \<open>Identity\<close>
    (\<^verbatim>\<open>identity.go\<close>, \<^verbatim>\<open>naming.go\<close>, \<^verbatim>\<open>verify.go\<close>).
  \<^item> Slots: \<open>Render\<close> (\<^verbatim>\<open>render.go\<close>, \<^verbatim>\<open>slots.go\<close>), \<open>Exchange\<close>
    (\<^verbatim>\<open>exchange.go\<close>), \<open>Operator\<close> (\<^verbatim>\<open>manage.go\<close>,
    \<^verbatim>\<open>manage_list.go\<close>), \<open>Claim\<close> (\<^verbatim>\<open>claim.go\<close> and the flip of
    \<^verbatim>\<open>manage.go\<close>) with \<open>Claim_Once\<close> (sequences of
    claims), \<open>Claim_Exchange\<close> (from a claim to the broker) and \<open>Slot_Machine\<close> (the service as a
    machine of slot states), all over a store under contract,
    \<open>Lifecycle\<close> (\<^verbatim>\<open>manage_lifecycle.go\<close>,
    \<^verbatim>\<open>manage_rotate.go\<close>, \<^verbatim>\<open>creds_files.go\<close>), \<open>Secrets\<close>
    (\<^verbatim>\<open>secrets.go\<close>) with \<open>Secrets_Store\<close> (the table its endpoints
    implement), \<open>Kek_Wrap\<close> and \<open>Keys\<close> (\<^verbatim>\<open>kekwrap.go\<close>,
    \<^verbatim>\<open>keys.go\<close>), \<open>Workbench\<close> (\<^verbatim>\<open>workbench.go\<close>), \<open>Diag\<close>
    (\<^verbatim>\<open>diag.go\<close>).
  \<^item> The real upstreams: \<open>Pocketbase\<close> (\<^verbatim>\<open>pocketbase.go\<close>,
    \<^verbatim>\<open>pocketbase_kek.go\<close>), \<open>Cache_Race\<close> (its state cache under concurrent calls),
    \<open>Upstream_Clients\<close> (\<^verbatim>\<open>nomad.go\<close>,
    \<^verbatim>\<open>nomad_admin.go\<close>, \<^verbatim>\<open>jupyterhub.go\<close>, \<^verbatim>\<open>minio.go\<close>,
    \<^verbatim>\<open>minio_admin.go\<close>), \<open>Tracing\<close> (\<^verbatim>\<open>debug.go\<close>).
  \<^item> The process: \<open>Config\<close> (\<^verbatim>\<open>config.go\<close>, \<^verbatim>\<open>upstreams.go\<close>) and \<open>Config_Sources\<close> (the precedence
    of flags and environment),
    \<open>Redact\<close> and \<open>Log_Chain\<close> (\<^verbatim>\<open>redact.go\<close>, \<^verbatim>\<open>log.go\<close>, the loggers in contexts),
    \<open>Log_Level\<close>
    (\<^verbatim>\<open>loglevel.go\<close>), \<open>Middleware\<close> and \<open>Writer\<close> (\<^verbatim>\<open>middleware.go\<close>),
    \<open>Server\<close> (\<^verbatim>\<open>server.go\<close>, \<^verbatim>\<open>health.go\<close>, \<^verbatim>\<open>main.go\<close>), \<open>Service_Run\<close>
    (\<^verbatim>\<open>Run\<close> and the exit code), \<open>Startup\<close> (from the command line to the HTTP server),
    \<open>Answers\<close> (the form of every answer), \<open>Wire\<close> (its bytes), \<open>Call_Trace\<close> (the calls of every
    handler and what they do to the world, in a locale over the set of allowed calls);
    \<open>Composition\<close> relates requests to each other, and this theory states what spans components.

  \<^bold>\<open>What is shown.\<close> For the sessions: which cookies are accepted, that minted ones are until they
  expire, when \<^verbatim>\<open>/validate\<close> admits, when a login, a redeem or a command-line token sets or hands
  out a session, that redirects are local paths or accepted URLs, that a code is good once, that the
  sign-in page is inert. For the slots: the outcome of a claim, that the token it hands out is good for the broker, an exchange and a workbench token on every branch, the
  state machine of the lifecycle, that any sequence of requests is a run of it in which no slot is claimed
  twice, the order of revocation and commit in a rotation, what a suspension has done when it
  answers 200 and that the next check sees it, what is rendered and persisted. For the secrets: the
  round trip of the envelope and of a minted key, that tampering yields an error, that puts and
  gets are a table, that a secret put arrives byte for byte in the bytes of a get, that a caller reaches
  only its own slot and group, that reads hide secrets, that the logger removes them, also through child
  loggers, and which ones the configuration hands it. For the clients: at most two attempts per call, only their own requests, the
  cache as a refinement of the log of its answers, how old an answer can be after an eviction in any
  interleaving, and the one interleaving that serves the state from before. For the process: where settings
  come from, bounds of lifetimes, the gate of the operator tier of the service as it is started, the form of
  the answers for every route and that clients decode their bytes, what the middleware adds around
  any handler, that the access log reports what the client got, how the process ends.

  \<^bold>\<open>Bounds and fuel.\<close> The JSON parser has fuel twice the length of the input plus two;
  \<open>json_fuel_enough\<close> shows that more changes nothing. The nesting limit of 10000 is Go's own. Bodies are cut at the limits of the code's \<^verbatim>\<open>LimitReader\<close>s. Durations and expiries are
  integers, wrapped to 64 bits where the code multiplies (\<open>ttl_from_env\<close>) or parses. The repetitions
  of a value pattern iterate at most as often as the text has bytes. All definitions terminate.

  \<^bold>\<open>Parameters.\<close> The cryptographic primitives (HMAC-SHA256, SHA-256, HKDF, AES-GCM, age key generation),
  the clock, randomness, the file system, the user database, running \<^verbatim>\<open>mcli\<close>, the HTTP
  transports and the services behind them are parameters. The laws assumed of them where a property
  needs any are named: \<open>gcm_sound\<close>, \<open>rand_sound\<close>, \<open>opaque_query_sound\<close>,
  \<open>float_sound\<close>, \<open>keeps_cache\<close>, \<open>record_contract\<close>, \<open>table_contract\<close>,
  \<open>variable_contract\<close>. Each has a witness that keeps it.

  \<^bold>\<open>Not modelled.\<close> Sockets, the enforcement of timeouts and the draining of connections
  (\<^verbatim>\<open>net/http\<close>), the timeouts of the clients, the usage text of \<^verbatim>\<open>flag\<close>, what \<^verbatim>\<open>html/template\<close>
  does for contexts the sign-in page does not use. In the chain a panic is an outcome of the inner handler that comes
  before its answer; \<open>Writer\<close> alone has answers written in steps. The path segments a request is routed by are those \<^verbatim>\<open>net/http\<close> matches
  on; its redirects to cleaned paths are not modelled.
\<close>

section \<open>Properties that span components\<close>

text \<open>\<open>C3\<close>: a browser that logged in gets through. The cookie a login sets, presented at any later
  time, in any state of the process and with any other request data, is accepted by
  \<^verbatim>\<open>/validate\<close> as the user who logged in for exactly the configured lifetime counted from the
  login's clock reading, unless that user's slot is then reported suspended or expired. The clock
  is assumed to stay in the 64 bits of \<^verbatim>\<open>Time.Unix\<close>.\<close>

theorem login_then_validate:
  assumes "rs_cookies (fst (handle_login_post sv r s)) = [c]"
    and "value_of (rq_cookies r') session_cookie_name = ck_value c"
    and "cf_session_secret (sv_cfg sv) \<noteq> []"
    and "\<forall>w. in_int64 (unix_seconds (fst (rt_now (sv_rt sv) w) + cf_session_ttl (sv_cfg sv)))"
  shows "\<exists>w. st_world (snd (handle_login_post sv r s)) = snd (rt_now (sv_rt sv) w)
     \<and> (rs_status (fst (handle_validate sv r' s')),
        rs_header (fst (handle_validate sv r' s')) ''Remote-User'') =
        (if unix_seconds (fst (rt_now (sv_rt sv) (st_world s')))
              \<le> unix_seconds (fst (rt_now (sv_rt sv) w) + cf_session_ttl (sv_cfg sv))
            \<and> \<not> blocked_state
                (reported_state sv (trim_space (value_of (rq_form r) ''username'')) s')
         then (200, Some (trim_space (value_of (rq_form r) ''username''))) else (302, None))"
  using login_cookie_user [OF assms, of s'] validate_of_cookie_user by fast

lemma login_then_validate_witness:
  "\<exists>w. w + 1 = st_world (snd (handle_login_post steady_server login_form sample_state))
     \<and> (rs_status (fst (handle_validate steady_server
            (sample_request\<lparr>rq_cookies := [(session_cookie_name, ck_value (hd login_cookies))]\<rparr>) sample_state)),
        rs_header (fst (handle_validate steady_server
            (sample_request\<lparr>rq_cookies := [(session_cookie_name, ck_value (hd login_cookies))]\<rparr>) sample_state))
          ''Remote-User'') = (200, Some ''ada'')"
proof -
  let ?r = "sample_request\<lparr>rq_cookies := [(session_cookie_name, ck_value (hd login_cookies))]\<rparr>"
  have k: "cf_session_secret (sv_cfg steady_server) \<noteq> []"
    by (simp add: steady_server_def sample_server_def sample_config_def)
  have b: "\<forall>w. in_int64 (unix_seconds (fst (rt_now (sv_rt steady_server) w) + cf_session_ttl (sv_cfg steady_server)))"
  proof
    fix w :: int
    let ?x = "w mod 1000000 + 3600000000000"
    have r: "0 \<le> w mod 1000000" "w mod 1000000 < 1000000" by simp_all
    then have "?x div 1000000000 \<le> 3600001000000 div 1000000000" by (intro zdiv_mono1) simp_all
    moreover have "0 \<le> ?x div 1000000000" using r by simp
    ultimately show "in_int64 (unix_seconds (fst (rt_now (sv_rt steady_server) w)
        + cf_session_ttl (sv_cfg steady_server)))"
      by (simp add: steady_server_def sample_server_def sample_config_def sample_runtime_def
          unix_seconds_def second_def in_int64_def int64_min_def int64_max_def)
  qed
  have u: "trim_space (value_of (rq_form login_form) ''username'') = ''ada''" by code_simp
  have p: "trim_space (value_of (rq_form login_form) ''password'') = ''pw''" by code_simp
  have "\<exists>c. rs_cookies (fst (handle_login_post steady_server login_form sample_state)) = [c]"
    by (simp add: handle_login_post_def Let_def u p io_def login_block_def steady_server_def
        sample_server_def mock_upstreams_def mock_minio_def mock_store_def mock_slot_def
        case_prod_beta)
  then have c: "rs_cookies (fst (handle_login_post steady_server login_form sample_state)) = [hd login_cookies]"
    by (auto simp: login_cookies_def)
  have v: "value_of (rq_cookies ?r) session_cookie_name = ck_value (hd login_cookies)"
    by (simp add: value_of_def)
  have st: "\<not> blocked_state (reported_state steady_server ''ada'' sample_state)" by code_simp
  have n: "snd (rt_now (sv_rt steady_server) w) = w + 1"
    "unix_seconds (fst (rt_now (sv_rt steady_server) (st_world sample_state)))
       \<le> unix_seconds (fst (rt_now (sv_rt steady_server) w) + cf_session_ttl (sv_cfg steady_server))" for w
    by (simp_all add: steady_server_def sample_server_def sample_config_def sample_runtime_def
        sample_state_def unix_seconds_def second_def pos_imp_zdiv_nonneg_iff)
  from login_then_validate [OF c v k b, of sample_state] st show ?thesis
    by (auto simp: u n)
qed

text \<open>\<open>C4\<close>: a suspension takes effect at once. After a suspension that answered 200, the next
  forward-auth check of a session of the slot's user does not see what the cache knew before: it
  asks the store again, refuses the user if the store now says suspended or expired, and admits
  the user otherwise, an unreachable store included. Neither the clock nor stopping the user's
  server is assumed to do anything but leave the cache alone.\<close>

theorem suspend_then_validate:
  assumes "up_store (sv_up sv) = Some (pb_store c)"
    and "\<forall>stop. hub_stop_server (up_hub (sv_up sv)) = Some stop \<longrightarrow> keeps_cache (stop (rq_slot r))"
    and "keeps_cache (rt_now (sv_rt sv))"
    and "handle_manage_suspend sv r s = (resp, s')" and "rs_status resp = 200"
    and "found_slot sv r s = Some slot"
    and "cookie_user sv r' s' = Some (minio_user slot (rq_slot r))"
  shows "rs_status (fst (handle_validate sv r' s')) =
    (if blocked_state (state_name (fst (pb_find_slot c
          (eq_filter ''minio_access_key'' (minio_user slot (rq_slot r)))
          (snd (pb_clock c (snd (rt_now (sv_rt sv) (st_world s'))))))))
     then 302 else 200)"
proof -
  let ?u = "minio_user slot (rq_slot r)"
  have "pw_cache (st_world s') ?u = None"
    using suspend_evicts [OF assms(1,2) _ assms(6)] assms(4,5) by simp
  with assms(3) have "pw_cache (snd (rt_now (sv_rt sv) (st_world s'))) ?u = None"
    by (simp add: keeps_cache_def)
  then have "reported_state sv ?u s' = state_name (fst (pb_find_slot c (eq_filter ''minio_access_key'' ?u)
      (snd (pb_clock c (snd (rt_now (sv_rt sv) (st_world s')))))))"
    using assms(1) by (simp add: reported_state_def pb_store_def cached_state_fresh)
  with validate_of_cookie_user [of sv r' s' True ?u] assms(7) show ?thesis
    by (simp split: if_splits)
qed

lemma suspend_then_validate_witness:
  "\<exists>s'. handle_manage_suspend one_slot_server suspend_request one_slot_state = (ok_true, s')
     \<and> rs_status (fst (handle_validate one_slot_server (sample_request\<lparr>rq_cookies :=
          [(session_cookie_name, session_token (\<lambda>k m. k @ m) ''k'' ''slot-ada'' 1)]\<rparr>) s')) = 302"
proof -
  let ?r = "sample_request\<lparr>rq_cookies :=
      [(session_cookie_name, session_token (\<lambda>k m. k @ m) ''k'' ''slot-ada'' 1)]\<rparr>"
  let ?u = "minio_user (one_slot ''claimed'') (rq_slot suspend_request)"
  from one_slot_suspend obtain s' where
    s': "handle_manage_suspend one_slot_server suspend_request one_slot_state = (ok_true, s')"
    and fs: "found_slot one_slot_server suspend_request one_slot_state = Some (one_slot ''claimed'')"
    and w: "pw_net (st_world s')" "pw_token (st_world s') = ''t''" "pw_exp (st_world s') = token_lifetime"
    by blast
  have sv: "up_store (sv_up one_slot_server) = Some (pb_store one_slot_client)"
    "\<forall>stop. hub_stop_server (up_hub (sv_up one_slot_server)) = Some stop \<longrightarrow>
       keeps_cache (stop (rq_slot suspend_request))"
    "keeps_cache (rt_now (sv_rt one_slot_server))"
    by (simp_all add: one_slot_server_def mock_upstreams_def mock_hub_def one_slot_runtime_def keeps_cache_def)
  have u: "?u = ''slot-ada''"
    by (simp add: minio_user_def one_slot_def blank_slot_def suspend_request_def)
  have k: "cookie_user one_slot_server ?r s' = Some ?u"
    by (simp add: u cookie_user_def value_of_def one_slot_server_def sample_config_def
        one_slot_runtime_def session_check_token unix_seconds_def in_int64_def int64_min_def int64_max_def)
  have n: "snd (pb_clock one_slot_client (snd (rt_now (sv_rt one_slot_server) (st_world s')))) = st_world s'"
    by (simp add: pb_clock_def one_slot_server_def one_slot_runtime_def one_slot_client_def new_pb_client_def)
  have "state_name (fst (pb_find_slot one_slot_client q (st_world s'))) = ''suspended''" for q
    using one_slot_find [OF w(2,3), of q] w(1) by (auto simp: state_name_def one_slot_def)
  then have "rs_status (fst (handle_validate one_slot_server ?r s')) = 302"
    using suspend_then_validate [OF sv s' _ fs k]
    by (simp add: n ok_true_def blocked_state_def)
  with s' show ?thesis by blast
qed

end
